theory Spec2Isabelle
  imports Complex_Main
begin

section \<open>JavaScript numbers\<close>

text \<open>
  A JavaScript number is modelled as a real number or one of the three special values
  of IEEE arithmetic. Rounding, overflow and the sign of zero are not modelled: a finite
  result is the exact real. Reading an array past its end gives \<open>undefined\<close>, which
  every arithmetic operator of the code turns into \<open>NaN\<close>; \<open>elt\<close> is that read as
  arithmetic sees it.
\<close>

datatype jsnum = Num real | PInf | NInf | NaN

fun jneg :: "jsnum \<Rightarrow> jsnum" where
  "jneg (Num x) = Num (- x)"
| "jneg PInf = NInf"
| "jneg NInf = PInf"
| "jneg NaN = NaN"

fun jadd :: "jsnum \<Rightarrow> jsnum \<Rightarrow> jsnum" where
  "jadd (Num x) (Num y) = Num (x + y)"
| "jadd NaN _ = NaN"
| "jadd _ NaN = NaN"
| "jadd PInf NInf = NaN"
| "jadd NInf PInf = NaN"
| "jadd PInf _ = PInf"
| "jadd _ PInf = PInf"
| "jadd NInf _ = NInf"
| "jadd _ NInf = NInf"

definition jsub :: "jsnum \<Rightarrow> jsnum \<Rightarrow> jsnum" where
  "jsub a b = jadd a (jneg b)"

definition signed_inf :: "bool \<Rightarrow> jsnum" where
  "signed_inf positive = (if positive then PInf else NInf)"

fun jmul :: "jsnum \<Rightarrow> jsnum \<Rightarrow> jsnum" where
  "jmul (Num x) (Num y) = Num (x * y)"
| "jmul NaN _ = NaN"
| "jmul _ NaN = NaN"
| "jmul (Num x) PInf = (if x = 0 then NaN else signed_inf (0 < x))"
| "jmul (Num x) NInf = (if x = 0 then NaN else signed_inf (x < 0))"
| "jmul PInf (Num y) = (if y = 0 then NaN else signed_inf (0 < y))"
| "jmul NInf (Num y) = (if y = 0 then NaN else signed_inf (y < 0))"
| "jmul PInf PInf = PInf"
| "jmul NInf NInf = PInf"
| "jmul PInf NInf = NInf"
| "jmul NInf PInf = NInf"

fun jdiv :: "jsnum \<Rightarrow> jsnum \<Rightarrow> jsnum" where
  "jdiv (Num x) (Num y) =
     (if y \<noteq> 0 then Num (x / y) else if x = 0 then NaN else signed_inf (0 < x))"
| "jdiv NaN _ = NaN"
| "jdiv _ NaN = NaN"
| "jdiv (Num x) _ = Num 0"
| "jdiv PInf (Num y) = signed_inf (0 \<le> y)"
| "jdiv NInf (Num y) = signed_inf (y < 0)"
| "jdiv _ _ = NaN"

fun jsqrt :: "jsnum \<Rightarrow> jsnum" where
  "jsqrt (Num x) = (if x < 0 then NaN else Num (sqrt x))"
| "jsqrt PInf = PInf"
| "jsqrt NInf = NaN"
| "jsqrt NaN = NaN"

text \<open>\<open>a < b\<close> and \<open>a > b\<close> of the language: false as soon as one side is \<open>NaN\<close>.\<close>

fun jlt :: "jsnum \<Rightarrow> jsnum \<Rightarrow> bool" where
  "jlt (Num x) (Num y) = (x < y)"
| "jlt NaN _ = False"
| "jlt _ NaN = False"
| "jlt _ NInf = False"
| "jlt PInf _ = False"
| "jlt NInf _ = True"
| "jlt _ PInf = True"

definition jgt :: "jsnum \<Rightarrow> jsnum \<Rightarrow> bool" where
  "jgt a b = jlt b a"

text \<open>\<open>a === b\<close> on numbers: \<open>NaN\<close> is equal to nothing, not even to itself.\<close>

definition strict_eq :: "jsnum \<Rightarrow> jsnum \<Rightarrow> bool" where
  "strict_eq a b = (a \<noteq> NaN \<and> b \<noteq> NaN \<and> a = b)"

definition isNaN :: "jsnum \<Rightarrow> bool" where
  "isNaN a = (a = NaN)"

definition isFinite :: "jsnum \<Rightarrow> bool" where
  "isFinite a = (case a of Num _ \<Rightarrow> True | _ \<Rightarrow> False)"

definition jmin2 :: "jsnum \<Rightarrow> jsnum \<Rightarrow> jsnum" where
  "jmin2 a b = (if a = NaN \<or> b = NaN then NaN else if jlt b a then b else a)"

text \<open>\<open>Math.min(...xs)\<close>: \<open>Infinity\<close> for no argument, \<open>NaN\<close> if any argument is.\<close>

definition Math_min :: "jsnum list \<Rightarrow> jsnum" where
  "Math_min xs = fold (\<lambda>x m. jmin2 m x) xs PInf"

text \<open>\<open>xs.indexOf(x)\<close>: the first index whose element is \<open>===\<close> to \<open>x\<close>, or \<open>-1\<close>.\<close>

fun indexOf_from :: "int \<Rightarrow> jsnum list \<Rightarrow> jsnum \<Rightarrow> int" where
  "indexOf_from i [] x = - 1"
| "indexOf_from i (y # ys) x = (if strict_eq y x then i else indexOf_from (i + 1) ys x)"

definition indexOf :: "jsnum list \<Rightarrow> jsnum \<Rightarrow> int" where
  "indexOf xs x = indexOf_from 0 xs x"

definition elt :: "jsnum list \<Rightarrow> nat \<Rightarrow> jsnum" where
  "elt v i = (if i < length v then v ! i else NaN)"

text \<open>\<open>xs[i]\<close> for an integer \<open>i\<close>, \<open>None\<close> standing for \<open>undefined\<close>.\<close>

definition at_index :: "'a list \<Rightarrow> int \<Rightarrow> 'a option" where
  "at_index xs i = (if 0 \<le> i \<and> i < int (length xs) then Some (xs ! nat i) else None)"

text \<open>
  The successive results of \<open>Math.random()\<close> are a parameter: \<open>draw rnd i\<close> is the
  result of call number \<open>i\<close>. The language promises a result in \<open>[0, 1)\<close>, which the
  type records.
\<close>

typedef unit_interval = "{x::real. 0 \<le> x \<and> x < 1}"
  by (rule exI [of _ 0]) simp

setup_lifting type_definition_unit_interval

lift_definition unit_of :: "real \<Rightarrow> unit_interval" is
  "\<lambda>x. if 0 \<le> x \<and> x < 1 then x else 0"
  by simp

type_synonym random_source = "nat \<Rightarrow> unit_interval"

definition draw :: "random_source \<Rightarrow> nat \<Rightarrow> real" where
  "draw rnd i = Rep_unit_interval (rnd i)"

definition rnd_const :: "real \<Rightarrow> random_source" where
  "rnd_const c = (\<lambda>i. unit_of c)"

definition rnd_list :: "real list \<Rightarrow> random_source" where
  "rnd_list cs = (\<lambda>i. if i < length cs then unit_of (cs ! i) else unit_of 0)"

section \<open>k-means\<close>

type_synonym vector = "jsnum list"

datatype error = Error string | TypeError

text \<open>
  The two k-means functions of the repository, \<open>kMeansWithVectors\<close> (textClustering.js)
  and \<open>kmeans\<close> (dataProcessing.js), run the same seeding loop and the same
  assignment and update loops; they differ in the guard, in the distance function and in
  how the mean is written. The loops are written once, over the distance \<open>dfun\<close>, the
  mean \<open>mean\<close> and the read \<open>pickv\<close> of a point by index. A centroid of
  \<open>kMeansWithVectors\<close> is a \<open>vector option\<close>, since the seed \<open>vectors[...]\<close> of an
  empty list is \<open>undefined\<close>; a centroid of \<open>kmeans\<close> is a \<open>vector\<close>.
\<close>

record 'c kmeans_result =
  centroids :: "'c list"
  assignments :: "int list"

record 'c kmeans_state =
  st_centroids :: "'c list"
  st_assignments :: "int list"
  st_iterations :: nat
  st_changed :: bool

text \<open>
  The inner loop of the k-means++ seeding,
  \<open>while (r > 0 && j < n) { r -= distances[j] * distances[j]; j++; }\<close>, run on the
  distances that are still ahead of \<open>j\<close>.
\<close>

fun pick_loop :: "jsnum \<Rightarrow> nat \<Rightarrow> jsnum list \<Rightarrow> nat" where
  "pick_loop r j [] = j"
| "pick_loop r j (d # ds) =
     (if jgt r (Num 0) then pick_loop (jsub r (jmul d d)) (Suc j) ds else j)"

text \<open>
  One round of the seeding loop: the nearest-centroid distance of every point, their
  squared sum, the random threshold and the index \<open>Math.min(j, n - 1)\<close> it selects.
\<close>

definition next_index :: "(vector \<Rightarrow> 'c \<Rightarrow> jsnum) \<Rightarrow> real \<Rightarrow> vector list \<Rightarrow> 'c list \<Rightarrow> int" where
  "next_index dfun u vectors cs =
     (let distances = map (\<lambda>v. Math_min (map (\<lambda>c. dfun v c) cs)) vectors;
          sumDistSquared = fold (\<lambda>d sum. jadd sum (jmul d d)) distances (Num 0);
          r = jmul (Num u) sumDistSquared;
          j = pick_loop r 0 distances
      in min (int j) (int (length vectors) - 1))"

definition seed_centroids ::
  "(vector \<Rightarrow> 'c \<Rightarrow> jsnum) \<Rightarrow> (int \<Rightarrow> 'c) \<Rightarrow> random_source \<Rightarrow> vector list \<Rightarrow> nat \<Rightarrow> 'c list" where
  "seed_centroids dfun pickv rnd vectors k =
     fold (\<lambda>i cs. cs @ [pickv (next_index dfun (draw rnd i) vectors cs)]) [1..<k]
          [pickv \<lfloor>draw rnd 0 * real (length vectors)\<rfloor>]"

text \<open>The assignment pass of one iteration; it returns the assignments and \<open>changed\<close>.\<close>

definition assign_points ::
  "(vector \<Rightarrow> 'c \<Rightarrow> jsnum) \<Rightarrow> vector list \<Rightarrow> 'c list \<Rightarrow> int list \<Rightarrow> int list \<times> bool" where
  "assign_points dfun vectors cs asg =
     fold (\<lambda>i (a, changed).
             let dists = map (\<lambda>c. dfun (vectors ! i) c) cs;
                 closestCentroid = indexOf dists (Math_min dists)
             in if a ! i \<noteq> closestCentroid then (a[i := closestCentroid], True)
                else (a, changed))
          [0..<length vectors] (asg, False)"

text \<open>\<open>vectors.filter((_, i) => assignments[i] === j)\<close>.\<close>

definition assigned_to :: "vector list \<Rightarrow> int list \<Rightarrow> nat \<Rightarrow> vector list" where
  "assigned_to vectors asg j =
     map fst (filter (\<lambda>(v, a). a = int j) (zip vectors asg))"

definition update_centroids ::
  "(vector list \<Rightarrow> 'c) \<Rightarrow> vector list \<Rightarrow> nat \<Rightarrow> int list \<Rightarrow> 'c list \<Rightarrow> 'c list" where
  "update_centroids mean vectors k asg cs =
     fold (\<lambda>j cs'. let assignedVectors = assigned_to vectors asg j
                    in if length assignedVectors > 0 then cs'[j := mean assignedVectors]
                       else cs')
          [0..<k] cs"

definition kmeans_iteration ::
  "(vector \<Rightarrow> 'c \<Rightarrow> jsnum) \<Rightarrow> (vector list \<Rightarrow> 'c) \<Rightarrow> vector list \<Rightarrow> nat \<Rightarrow>
   'c kmeans_state \<Rightarrow> 'c kmeans_state" where
  "kmeans_iteration dfun mean vectors k s =
     (let (asg, changed) = assign_points dfun vectors (st_centroids s) (st_assignments s)
      in \<lparr>st_centroids = update_centroids mean vectors k asg (st_centroids s),
          st_assignments = asg,
          st_iterations = Suc (st_iterations s),
          st_changed = changed\<rparr>)"

text \<open>\<open>while (changed && iterations_count < iterations) { ... }\<close>.\<close>

function kmeans_loop ::
  "(vector \<Rightarrow> 'c \<Rightarrow> jsnum) \<Rightarrow> (vector list \<Rightarrow> 'c) \<Rightarrow> vector list \<Rightarrow> nat \<Rightarrow> nat \<Rightarrow>
   'c kmeans_state \<Rightarrow> 'c kmeans_state" where
  "kmeans_loop dfun mean vectors k iterations s =
     (if st_changed s \<and> st_iterations s < iterations
      then kmeans_loop dfun mean vectors k iterations (kmeans_iteration dfun mean vectors k s)
      else s)"
  by pat_completeness auto
termination
  by (relation "measure (\<lambda>(dfun, mean, vectors, k, iterations, s). iterations - st_iterations s)")
     (auto simp: kmeans_iteration_def split: prod.splits)

declare kmeans_loop.simps [simp del]

text \<open>
  \<open>let assignments = new Array(n).fill(0); let iterations_count = 0; let changed = true;\<close>
\<close>

definition kmeans_initial_state :: "'c list \<Rightarrow> nat \<Rightarrow> 'c kmeans_state" where
  "kmeans_initial_state cs n =
     \<lparr>st_centroids = cs, st_assignments = replicate n 0, st_iterations = 0, st_changed = True\<rparr>"

definition result_of :: "'c kmeans_state \<Rightarrow> 'c kmeans_result" where
  "result_of s = \<lparr>centroids = st_centroids s, assignments = st_assignments s\<rparr>"

subsection \<open>kMeansWithVectors (textClustering.js)\<close>

text \<open>\<open>euclideanDistance(a, b)\<close>; \<open>!b\<close> holds of an \<open>undefined\<close> centroid.\<close>

definition euclideanDistance :: "vector \<Rightarrow> vector option \<Rightarrow> jsnum" where
  "euclideanDistance a b =
     (case b of
        None \<Rightarrow> PInf
      | Some b' \<Rightarrow>
          if length a \<noteq> length b' then PInf
          else jsqrt (fold (\<lambda>i sum. let diff = jsub (elt a i) (elt b' i)
                                     in jadd sum (jmul diff diff))
                           [0..<length a] (Num 0)))"

text \<open>The new centroid: each member adds its share \<open>vector[d] / length\<close> to every axis.\<close>

fun average_vector :: "vector list \<Rightarrow> vector option" where
  "average_vector [] = None"
| "average_vector (v0 # vs) =
     (let assignedVectors = v0 # vs; dims = length v0
      in Some (map (\<lambda>d. fold (\<lambda>vector acc.
                                 jadd acc (jdiv (elt vector d)
                                                (Num (real (length assignedVectors)))))
                              assignedVectors (Num 0))
                   [0..<dims]))"

definition kMeansWithVectors_run ::
  "random_source \<Rightarrow> vector list \<Rightarrow> nat \<Rightarrow> nat \<Rightarrow> vector option kmeans_state" where
  "kMeansWithVectors_run rnd vectors k iterations =
     kmeans_loop euclideanDistance average_vector vectors k iterations
       (kmeans_initial_state
          (seed_centroids euclideanDistance (at_index vectors) rnd vectors k)
          (length vectors))"

definition kMeansWithVectors ::
  "random_source \<Rightarrow> vector list \<Rightarrow> nat \<Rightarrow> nat \<Rightarrow> error + vector option kmeans_result" where
  "kMeansWithVectors rnd vectors k iterations =
     (if length vectors < k
      then Inl (Error ''Not enough vectors for clustering'')
      else Inr (result_of (kMeansWithVectors_run rnd vectors k iterations)))"

subsection \<open>kmeans (dataProcessing.js)\<close>

text \<open>
  \<open>euclideanDist(a, b)\<close>:
  \<open>Math.sqrt(a.reduce((sum, val, i) => sum + Math.pow(val - b[i], 2), 0))\<close>.
\<close>

definition euclideanDist :: "vector \<Rightarrow> vector \<Rightarrow> jsnum" where
  "euclideanDist a b =
     jsqrt (fold (\<lambda>i sum. let diff = jsub (a ! i) (elt b i) in jadd sum (jmul diff diff))
                 [0..<length a] (Num 0))"

text \<open>
  The new centroid: on each axis \<open>d < dim\<close> the sum of the members' coordinates divided
  by their number.
\<close>

definition mean_point :: "nat \<Rightarrow> vector list \<Rightarrow> vector" where
  "mean_point dimn assignedPoints =
     map (\<lambda>d. jdiv (fold (\<lambda>p sum. jadd sum (elt p d)) assignedPoints (Num 0))
                    (Num (real (length assignedPoints))))
         [0..<dimn]"

text \<open>
  \<open>points[0].length\<close> raises a TypeError on an empty list. On a list of \<open>n > 0\<close> points
  both reads of the seeding, \<open>points[Math.floor(Math.random() * n)]\<close> and
  \<open>points[Math.min(j, n - 1)]\<close>, are within the list.
\<close>

definition kmeans_run ::
  "random_source \<Rightarrow> vector list \<Rightarrow> nat \<Rightarrow> nat \<Rightarrow> vector kmeans_state" where
  "kmeans_run rnd points k maxIterations =
     (let n = length points; dimn = length (points ! 0)
      in kmeans_loop euclideanDist (mean_point dimn) points k maxIterations
           (kmeans_initial_state
              (seed_centroids euclideanDist (\<lambda>i. points ! nat i) rnd points k) n))"

definition kmeans ::
  "random_source \<Rightarrow> vector list \<Rightarrow> nat \<Rightarrow> nat \<Rightarrow> error + vector kmeans_result" where
  "kmeans rnd points k maxIterations =
     (if points = [] then Inl TypeError
      else Inr (result_of (kmeans_run rnd points k maxIterations)))"

subsection \<open>Properties stated of k-means\<close>

text \<open>A vector of finite numbers, and the real number a finite entry stands for.\<close>

definition finite_vec :: "vector \<Rightarrow> bool" where
  "finite_vec v = (\<forall>x\<in>set v. isFinite x)"

fun the_real :: "jsnum \<Rightarrow> real" where
  "the_real (Num r) = r"
| "the_real _ = 0"

text \<open>Vectors of one space: finite numbers, \<open>d\<close> of them in each vector.\<close>

definition uniform_vectors :: "nat \<Rightarrow> vector list \<Rightarrow> bool" where
  "uniform_vectors d vectors = (\<forall>v\<in>set vectors. finite_vec v \<and> length v = d)"

text \<open>
  The invariant of the loop: \<open>k\<close> centroids that all satisfy \<open>I\<close>, one assignment per
  point, each the index of a centroid.
\<close>

definition kmeans_inv ::
  "('c \<Rightarrow> bool) \<Rightarrow> nat \<Rightarrow> nat \<Rightarrow> 'c kmeans_state \<Rightarrow> bool" where
  "kmeans_inv I n k s =
     (length (st_centroids s) = k \<and> (\<forall>c\<in>set (st_centroids s). I c) \<and>
      length (st_assignments s) = n \<and> (\<forall>a\<in>set (st_assignments s). 0 \<le> a \<and> a < int k))"

text \<open>
  The assignments partition the points among \<open>k\<close> clusters: one assignment per point,
  each an integer in \<open>[0, k)\<close>, and the member counts
  \<open>vectors.filter((_, i) => assignments[i] === j).length\<close> of the \<open>k\<close> clusters add up
  to the number of points.
\<close>

definition partitions :: "vector list \<Rightarrow> nat \<Rightarrow> int list \<Rightarrow> bool" where
  "partitions vectors k asg =
     (length asg = length vectors \<and> list_all (\<lambda>a. 0 \<le> a \<and> a < int k) asg \<and>
      (\<Sum>j<k. length (assigned_to vectors asg j)) = length vectors)"

text \<open>The call returns a result, and the assignments of the result are such a partition.\<close>

definition returns_partition ::
  "vector list \<Rightarrow> nat \<Rightarrow> error + 'c kmeans_result \<Rightarrow> bool" where
  "returns_partition vectors k outcome =
     (case outcome of Inl e \<Rightarrow> False | Inr r \<Rightarrow> partitions vectors k (assignments r))"

text \<open>
  The state of each function after \<open>i\<close> rounds of the loop body on the seeded initial
  state, whatever the loop condition says.
\<close>

definition kMeansWithVectors_rounds ::
  "random_source \<Rightarrow> vector list \<Rightarrow> nat \<Rightarrow> nat \<Rightarrow> vector option kmeans_state" where
  "kMeansWithVectors_rounds rnd vectors k i =
     (kmeans_iteration euclideanDistance average_vector vectors k ^^ i)
       (kmeans_initial_state
          (seed_centroids euclideanDistance (at_index vectors) rnd vectors k)
          (length vectors))"

definition kmeans_rounds ::
  "random_source \<Rightarrow> vector list \<Rightarrow> nat \<Rightarrow> nat \<Rightarrow> vector kmeans_state" where
  "kmeans_rounds rnd points k i =
     (kmeans_iteration euclideanDist (mean_point (length (points ! 0))) points k ^^ i)
       (kmeans_initial_state
          (seed_centroids euclideanDist (\<lambda>i. points ! nat i) rnd points k) (length points))"

text \<open>
  The loop stops after exactly \<open>m\<close> rounds: \<open>m\<close> is within the cap, every round before
  round \<open>m\<close> changed an assignment (the initial state counts as changed), and round
  \<open>m\<close>, unless it is the last one the cap allows, changed none.
\<close>

definition stops_after :: "(nat \<Rightarrow> 'c kmeans_state) \<Rightarrow> nat \<Rightarrow> nat \<Rightarrow> bool" where
  "stops_after rounds cap m =
     (m \<le> cap \<and> (\<forall>i<m. st_changed (rounds i)) \<and> (m < cap \<longrightarrow> \<not> st_changed (rounds m)))"

text \<open>The call returns the centroids and the assignments of the state \<open>s\<close>.\<close>

definition returned :: "error + 'c kmeans_result \<Rightarrow> 'c kmeans_state \<Rightarrow> bool" where
  "returned outcome s =
     (outcome = Inr \<lparr>centroids = st_centroids s, assignments = st_assignments s\<rparr>)"

text \<open>The coordinate-wise mean of vectors of finite numbers.\<close>

definition mean_of :: "vector list \<Rightarrow> vector" where
  "mean_of vectors =
     map (\<lambda>i. Num ((\<Sum>v\<leftarrow>vectors. the_real (v ! i)) / real (length vectors)))
         [0..<length (hd vectors)]"

section \<open>Doubles\<close>

text \<open>
  The numbers of the language are IEEE 754 doubles, and every arithmetic operation
  returns the double nearest to the exact result. The exact operations above are used
  where rounding does not decide what is stated (k-means, the MDS layout). Where it does
  (the cosine similarity, the t-SNE projection), the operations below are used: they
  round the exact result to 53 significant bits, ties to even, with gradual underflow
  below \<open>2^-1022\<close> and overflow to an infinity from \<open>2^1024\<close> on. The sign of zero is
  not modelled, and \<open>Math.exp\<close> and \<open>Math.log\<close> are taken to be correctly rounded.
\<close>

definition min_normal :: real where
  "min_normal = 2 powr (- 1022)"

definition unit_roundoff :: real where
  "unit_roundoff = 2 powr (- 53)"

definition overflow_threshold :: real where
  "overflow_threshold = 2 powr 1024"

text \<open>
  The exponent of the binade of \<open>x\<close>, not below that of the smallest normal number, and
  the distance \<open>ulp x\<close> between neighbouring doubles there.
\<close>

definition binade :: "real \<Rightarrow> int" where
  "binade x = max \<lfloor>log 2 \<bar>x\<bar>\<rfloor> (- 1022)"

definition ulp :: "real \<Rightarrow> real" where
  "ulp x = 2 powr (real_of_int (binade x) - 52)"

definition round_half_even :: "real \<Rightarrow> int" where
  "round_half_even z =
     (let f = \<lfloor>z\<rfloor>
      in if z - real_of_int f < 1 / 2 then f
         else if 1 / 2 < z - real_of_int f then f + 1
         else if even f then f else f + 1)"

definition round_double :: "real \<Rightarrow> real" where
  "round_double x = real_of_int (round_half_even (x / ulp x)) * ulp x"

text \<open>The double that an exact result becomes.\<close>

fun double :: "jsnum \<Rightarrow> jsnum" where
  "double (Num x) =
     (let y = round_double x
      in if overflow_threshold \<le> \<bar>y\<bar> then signed_inf (0 < x) else Num y)"
| "double PInf = PInf"
| "double NInf = NInf"
| "double NaN = NaN"

definition dadd :: "jsnum \<Rightarrow> jsnum \<Rightarrow> jsnum" where
  "dadd a b = double (jadd a b)"

definition dsub :: "jsnum \<Rightarrow> jsnum \<Rightarrow> jsnum" where
  "dsub a b = double (jsub a b)"

definition dmul :: "jsnum \<Rightarrow> jsnum \<Rightarrow> jsnum" where
  "dmul a b = double (jmul a b)"

definition ddiv :: "jsnum \<Rightarrow> jsnum \<Rightarrow> jsnum" where
  "ddiv a b = double (jdiv a b)"

definition dsqrt :: "jsnum \<Rightarrow> jsnum" where
  "dsqrt a = double (jsqrt a)"

section \<open>Text\<close>

text \<open>
  A string is a list of code units below 256. \<open>is_space\<close> is the class \<open>\s\<close> of
  regular expressions and of \<open>trim\<close> in that range; \<open>toLowerCase\<close> maps the capital
  letters of ASCII and of Latin-1.
\<close>

definition is_space :: "char \<Rightarrow> bool" where
  "is_space c = (of_char c \<in> {9, 10, 11, 12, 13, 32, 160 :: nat})"

definition toLowerCase_char :: "char \<Rightarrow> char" where
  "toLowerCase_char c =
     (let n = of_char c :: nat
      in if (65 \<le> n \<and> n \<le> 90) \<or> (192 \<le> n \<and> n \<le> 222 \<and> n \<noteq> 215)
         then char_of (n + 32) else c)"

definition toLowerCase :: "string \<Rightarrow> string" where
  "toLowerCase s = map toLowerCase_char s"

text \<open>\<open>s.replace(/\s+/g, ' ')\<close>: every maximal run of white space becomes one blank.\<close>

function replace_spaces :: "string \<Rightarrow> string" where
  "replace_spaces [] = []"
| "replace_spaces (c # cs) =
     (if is_space c then CHR '' '' # replace_spaces (dropWhile is_space cs)
      else c # replace_spaces cs)"
  by pat_completeness auto
termination
  by (relation "measure length") (auto simp: length_dropWhile_le less_Suc_eq_le)

definition trim :: "string \<Rightarrow> string" where
  "trim s = rev (dropWhile is_space (rev (dropWhile is_space s)))"

text \<open>
  \<open>s.split(re)\<close> for a regular expression \<open>re\<close> that matches the non-empty runs of
  the characters \<open>sep\<close>: the pieces between the runs, the empty pieces at both ends
  included. \<open>split_spaces\<close> is \<open>s.split(/\s+/)\<close>.
\<close>

function split_on :: "(char \<Rightarrow> bool) \<Rightarrow> string \<Rightarrow> string list" where
  "split_on sep s =
     (let piece = takeWhile (\<lambda>c. \<not> sep c) s;
          rest = dropWhile (\<lambda>c. \<not> sep c) s
      in if rest = [] then [piece] else piece # split_on sep (dropWhile sep rest))"
  by pat_completeness auto
termination
proof (relation "measure (\<lambda>(sep, s). length s)")
  show "wf (measure (\<lambda>(sep, s). length s))" by simp
next
  fix sep :: "char \<Rightarrow> bool" and s :: string and piece rest
  assume rest: "rest = dropWhile (\<lambda>c. \<not> sep c) s" and ne: "rest \<noteq> []"
  obtain c cs where r: "rest = c # cs" using ne by (cases rest) auto
  have "dropWhile (\<lambda>c. \<not> sep c) s \<noteq> []" using ne rest by simp
  then have "\<not> \<not> sep (hd (dropWhile (\<lambda>c. \<not> sep c) s))"
    by (rule hd_dropWhile)
  then have "sep c" using rest r by (metis list.sel(1))
  then have "length (dropWhile sep rest) \<le> length cs"
    by (simp add: r length_dropWhile_le)
  moreover have "length rest \<le> length s" by (simp add: rest length_dropWhile_le)
  ultimately show "((sep, dropWhile sep rest), (sep, s)) \<in> measure (\<lambda>(sep, s). length s)"
    using r by simp
qed

declare split_on.simps [simp del]

definition split_spaces :: "string \<Rightarrow> string list" where
  "split_spaces s = split_on is_space s"

text \<open>\<open>tokens.join(' ')\<close>.\<close>

fun join_spaces :: "string list \<Rightarrow> string" where
  "join_spaces [] = []"
| "join_spaces [t] = t"
| "join_spaces (t # ts) = t @ CHR '' '' # join_spaces ts"

text \<open>\<open>/^[a-z0-9]+$/i.test(token)\<close>.\<close>

definition is_alnum_char :: "char \<Rightarrow> bool" where
  "is_alnum_char c =
     (let n = of_char c :: nat
      in (48 \<le> n \<and> n \<le> 57) \<or> (65 \<le> n \<and> n \<le> 90) \<or> (97 \<le> n \<and> n \<le> 122))"

definition is_alnum :: "string \<Rightarrow> bool" where
  "is_alnum token = (token \<noteq> [] \<and> list_all is_alnum_char token)"

definition endsWith :: "string \<Rightarrow> string \<Rightarrow> bool" where
  "endsWith s suffix =
     (length suffix \<le> length s \<and> drop (length s - length suffix) s = suffix)"

section \<open>The wrapper around the natural library\<close>

text \<open>
  The tokenizer, the stemmer, the stop word list and the TF-IDF class come from the
  library \<open>natural\<close> when it loads and from the fallbacks of the wrapper otherwise, so
  they are parameters of the pipeline. \<open>listTerms lib docs i\<close> is
  \<open>tfidf.listTerms(i)\<close> after the documents \<open>docs\<close> have been added, as pairs of a
  term and its weight. A weight is a finite number: the pipeline drops a \<open>NaN\<close> weight,
  and the fallback computes none. No term is the name of a property that every object
  inherits (such as \<open>constructor\<close>).
\<close>

record natural_lib =
  tokenize :: "string \<Rightarrow> string list"
  stem :: "string \<Rightarrow> string"
  stopwords :: "string list"
  listTerms :: "string list \<Rightarrow> nat \<Rightarrow> (string \<times> real) list"

text \<open>\<open>MockTokenizer.tokenize\<close>: \<open>text.split(/\s+/).filter(Boolean)\<close>.\<close>

definition MockTokenizer_tokenize :: "string \<Rightarrow> string list" where
  "MockTokenizer_tokenize text =
     (if text = [] then [] else filter (\<lambda>w. w \<noteq> []) (split_spaces text))"

text \<open>\<open>mockPorterStemmer.stem\<close>: the first rule whose suffix ends the word applies.\<close>

definition simpleRules :: "(string \<times> string) list" where
  "simpleRules =
     [(''ing'', ''''), (''ed'', ''''), (''s'', ''''), (''es'', ''''), (''ly'', ''''),
      (''ies'', ''y'')]"

fun apply_rules :: "(string \<times> string) list \<Rightarrow> string \<Rightarrow> string" where
  "apply_rules [] result = result"
| "apply_rules ((suffix, replacement) # rules) result =
     (if endsWith result suffix
      then take (length result - length suffix) result @ replacement
      else apply_rules rules result)"

definition mockPorterStemmer_stem :: "string \<Rightarrow> string" where
  "mockPorterStemmer_stem word =
     (if word = [] then [] else apply_rules simpleRules (toLowerCase word))"

definition apostrophe :: string where
  "apostrophe = [char_of (39 :: nat)]"

definition defaultStopwords :: "string list" where
  "defaultStopwords =
     [''a'', ''about'', ''above'', ''after'', ''again'', ''against'', ''all'', ''am'', ''an'',
      ''and'', ''any'', ''are'', ''aren'' @ apostrophe @ ''t'', ''as'', ''at'', ''be'',
      ''because'', ''been'', ''before'', ''being'', ''below'', ''between'', ''both'', ''but'',
      ''by'', ''can'', ''can'' @ apostrophe @ ''t'', ''cannot'', ''could'',
      ''couldn'' @ apostrophe @ ''t'', ''did'', ''didn'' @ apostrophe @ ''t'', ''do'', ''does'',
      ''doesn'' @ apostrophe @ ''t'', ''doing'', ''don'' @ apostrophe @ ''t'', ''down'',
      ''during'', ''each'', ''few'', ''for'', ''from'', ''further'', ''had'',
      ''hadn'' @ apostrophe @ ''t'', ''has'', ''hasn'' @ apostrophe @ ''t'', ''have'',
      ''haven'' @ apostrophe @ ''t'', ''having'', ''he'', ''he'' @ apostrophe @ ''d'',
      ''he'' @ apostrophe @ ''ll'', ''he'' @ apostrophe @ ''s'', ''her'', ''here'',
      ''here'' @ apostrophe @ ''s'', ''hers'', ''herself'', ''him'', ''himself'', ''his'',
      ''how'', ''how'' @ apostrophe @ ''s'', ''i'', ''i'' @ apostrophe @ ''d'',
      ''i'' @ apostrophe @ ''ll'', ''i'' @ apostrophe @ ''m'', ''i'' @ apostrophe @ ''ve'',
      ''if'', ''in'', ''into'', ''is'', ''isn'' @ apostrophe @ ''t'', ''it'',
      ''it'' @ apostrophe @ ''s'', ''its'', ''itself'', ''let'' @ apostrophe @ ''s'', ''me'',
      ''more'', ''most'', ''mustn'' @ apostrophe @ ''t'', ''my'', ''myself'', ''no'', ''nor'',
      ''not'', ''of'', ''off'', ''on'', ''once'', ''only'', ''or'', ''other'', ''ought'',
      ''our'', ''ours'', ''ourselves'', ''out'', ''over'', ''own'', ''same'',
      ''shan'' @ apostrophe @ ''t'', ''she'', ''she'' @ apostrophe @ ''d'',
      ''she'' @ apostrophe @ ''ll'', ''she'' @ apostrophe @ ''s'', ''should'',
      ''shouldn'' @ apostrophe @ ''t'', ''so'', ''some'', ''such'', ''than'', ''that'',
      ''that'' @ apostrophe @ ''s'', ''the'', ''their'', ''theirs'', ''them'', ''themselves'',
      ''then'', ''there'', ''there'' @ apostrophe @ ''s'', ''these'', ''they'',
      ''they'' @ apostrophe @ ''d'', ''they'' @ apostrophe @ ''ll'',
      ''they'' @ apostrophe @ ''re'', ''they'' @ apostrophe @ ''ve'', ''this'', ''those'',
      ''through'', ''to'', ''too'', ''under'', ''until'', ''up'', ''very'', ''was'',
      ''wasn'' @ apostrophe @ ''t'', ''we'', ''we'' @ apostrophe @ ''d'',
      ''we'' @ apostrophe @ ''ll'', ''we'' @ apostrophe @ ''re'', ''we'' @ apostrophe @ ''ve'',
      ''were'', ''weren'' @ apostrophe @ ''t'', ''what'', ''what'' @ apostrophe @ ''s'',
      ''when'', ''when'' @ apostrophe @ ''s'', ''where'', ''where'' @ apostrophe @ ''s'',
      ''which'', ''while'', ''who'', ''who'' @ apostrophe @ ''s'', ''whom'', ''why'',
      ''why'' @ apostrophe @ ''s'', ''with'', ''won'' @ apostrophe @ ''t'', ''would'',
      ''wouldn'' @ apostrophe @ ''t'', ''you'', ''you'' @ apostrophe @ ''d'',
      ''you'' @ apostrophe @ ''ll'', ''you'' @ apostrophe @ ''re'',
      ''you'' @ apostrophe @ ''ve'', ''your'', ''yours'', ''yourself'', ''yourselves'']"

section \<open>preprocessText\<close>

text \<open>
  The argument is a string; for any other value, and for the empty string, the function
  returns the empty string.
\<close>

definition filteredTokens :: "natural_lib \<Rightarrow> string \<Rightarrow> string list" where
  "filteredTokens lib text =
     (let processed = trim (replace_spaces (toLowerCase text));
          tokens = tokenize lib processed
      in map (stem lib)
           (filter (\<lambda>token. length token > 2 \<and> token \<notin> set (stopwords lib) \<and> is_alnum token)
                   tokens))"

definition preprocessText :: "natural_lib \<Rightarrow> string \<Rightarrow> string" where
  "preprocessText lib text =
     (if text = [] then [] else join_spaces (filteredTokens lib text))"

section \<open>The fallback TF-IDF class\<close>

text \<open>
  \<open>MockTfIdf\<close> keeps the documents and, for each word, its count in each document. The
  state after \<open>addDocument\<close> of each of \<open>docs\<close> is determined by \<open>docs\<close>: the keys of
  \<open>this.terms\<close> are the words of the documents in the order of their first occurrence,
  except that keys that are array indices come first, in numeric order, when an object's
  keys are listed.
\<close>

definition words_of :: "string \<Rightarrow> string list" where
  "words_of text = filter (\<lambda>w. w \<noteq> []) (split_spaces text)"

definition digit_value :: "char \<Rightarrow> nat" where
  "digit_value c = of_char c - 48"

definition is_digit :: "char \<Rightarrow> bool" where
  "is_digit c = (48 \<le> (of_char c :: nat) \<and> (of_char c :: nat) \<le> 57)"

definition nat_of_digits :: "string \<Rightarrow> nat" where
  "nat_of_digits s = fold (\<lambda>c n. 10 * n + digit_value c) s 0"

text \<open>An array index as a property key: the decimal numeral of a number below \<open>2^32 - 1\<close>.\<close>

definition is_array_index :: "string \<Rightarrow> bool" where
  "is_array_index key =
     (key \<noteq> [] \<and> list_all is_digit key \<and> (key = ''0'' \<or> hd key \<noteq> CHR ''0'') \<and>
      length key \<le> 10 \<and> nat_of_digits key < 4294967295)"

text \<open>
  The order in which \<open>Object.keys\<close> and \<open>Object.entries\<close> list the keys of an object
  whose keys were created in the order \<open>keys\<close>.
\<close>

definition key_order :: "string list \<Rightarrow> string list" where
  "key_order keys =
     sort_key nat_of_digits (filter is_array_index keys) @
     filter (\<lambda>k. \<not> is_array_index k) keys"

definition MockTfIdf_listTerms :: "string list \<Rightarrow> nat \<Rightarrow> (string \<times> real) list" where
  "MockTfIdf_listTerms docs docIndex =
     (if docIndex \<ge> length docs then []
      else
        let doc_words = words_of (docs ! docIndex);
            pieces = length (split_spaces (docs ! docIndex));
            terms = key_order (rev (remdups (rev (concat (map words_of docs)))));
            result = map (\<lambda>term. (term, real (count_list doc_words term) / real pieces))
                         (filter (\<lambda>term. count_list doc_words term > 0) terms)
        in sort_key (\<lambda>(term, tfidf). - tfidf) result)"

definition mock_natural :: natural_lib where
  "mock_natural =
     \<lparr>tokenize = MockTokenizer_tokenize, stem = mockPorterStemmer_stem,
      stopwords = defaultStopwords, listTerms = MockTfIdf_listTerms\<rparr>"


section \<open>Cosine similarity\<close>

text \<open>
  The function is called with arrays of numbers (performTextClustering) and with plain
  objects that map a term to its weight (clusterTexts), so its argument is either. On an
  object, \<open>.length\<close> and \<open>[i]\<close> read the properties named \<open>length\<close> and the decimal
  numeral of \<open>i\<close>; a missing property is \<open>undefined\<close>. The sums, the square roots, the
  product and the quotient are those of doubles.
\<close>

datatype jsvec = Arr "jsnum list" | Obj "(string \<times> real) list"

fun string_of_nat :: "nat \<Rightarrow> string" where
  "string_of_nat n =
     (if n < 10 then [char_of (48 + n)]
      else string_of_nat (n div 10) @ [char_of (48 + n mod 10)])"

declare string_of_nat.simps [simp del]

text \<open>\<open>v.length\<close>, \<open>None\<close> standing for \<open>undefined\<close>.\<close>

definition vec_length :: "jsvec \<Rightarrow> real option" where
  "vec_length v =
     (case v of Arr xs \<Rightarrow> Some (real (length xs)) | Obj kvs \<Rightarrow> map_of kvs ''length'')"

text \<open>\<open>v[i]\<close> as arithmetic sees it.\<close>

definition vec_at :: "jsvec \<Rightarrow> nat \<Rightarrow> jsnum" where
  "vec_at v i =
     (case v of
        Arr xs \<Rightarrow> elt xs i
      | Obj kvs \<Rightarrow> (case map_of kvs (string_of_nat i) of Some w \<Rightarrow> Num w | None \<Rightarrow> NaN))"

text \<open>
  The number of rounds of \<open>for (let i = 0; i < vecA.length; i++)\<close>: none when the
  length is \<open>undefined\<close>, since \<open>0 < undefined\<close> is false.
\<close>

definition loop_rounds :: "jsvec \<Rightarrow> nat" where
  "loop_rounds v = (case vec_length v of None \<Rightarrow> 0 | Some w \<Rightarrow> nat \<lceil>w\<rceil>)"

text \<open>The three sums of the loop: \<open>dotProduct\<close>, \<open>normA\<close> and \<open>normB\<close>.\<close>

definition cosine_sums :: "jsvec \<Rightarrow> jsvec \<Rightarrow> jsnum \<times> jsnum \<times> jsnum" where
  "cosine_sums vecA vecB =
     fold (\<lambda>i (dotProduct, normA, normB).
             (dadd dotProduct (dmul (vec_at vecA i) (vec_at vecB i)),
              dadd normA (dmul (vec_at vecA i) (vec_at vecA i)),
              dadd normB (dmul (vec_at vecB i) (vec_at vecB i))))
          [0..<loop_rounds vecA] (Num 0, Num 0, Num 0)"

definition cosineSimilarity :: "jsvec \<Rightarrow> jsvec \<Rightarrow> jsnum" where
  "cosineSimilarity vecA vecB =
     (let (dotProduct, normA, normB) = cosine_sums vecA vecB
      in if strict_eq normA (Num 0) \<or> strict_eq normB (Num 0) then Num 0
         else ddiv dotProduct (dmul (dsqrt normA) (dsqrt normB)))"

section \<open>The similarity-driven projector\<close>

text \<open>
  \<open>simpleMDS(distanceMatrix, dimensions)\<close>. The initial coordinates take one result of
  \<open>Math.random()\<close> each, point by point. The quantities of the gradient step of a pair
  are named as in the code.
\<close>

definition mds_initial_points :: "random_source \<Rightarrow> nat \<Rightarrow> nat \<Rightarrow> jsnum list list" where
  "mds_initial_points rnd n dimensions =
     map (\<lambda>i. map (\<lambda>d. Num (draw rnd (i * dimensions + d) * 2 - 1)) [0..<dimensions]) [0..<n]"

definition embeddingDist :: "jsnum list list \<Rightarrow> nat \<Rightarrow> nat \<Rightarrow> nat \<Rightarrow> jsnum" where
  "embeddingDist points dimensions i j =
     jsqrt (fold (\<lambda>d sum. let diff = jsub (points ! i ! d) (points ! j ! d)
                            in jadd sum (jmul diff diff))
                 [0..<dimensions] (Num 0))"

definition targetDist :: "jsnum list list \<Rightarrow> nat \<Rightarrow> nat \<Rightarrow> jsnum" where
  "targetDist distanceMatrix i j = jsub (Num 1) (elt (distanceMatrix ! i) j)"

definition mds_diff :: "jsnum list list \<Rightarrow> jsnum list list \<Rightarrow> nat \<Rightarrow> nat \<Rightarrow> nat \<Rightarrow> jsnum" where
  "mds_diff distanceMatrix points dimensions i j =
     jsub (embeddingDist points dimensions i j) (targetDist distanceMatrix i j)"

definition mds_pair ::
  "jsnum list list \<Rightarrow> nat \<Rightarrow> nat \<Rightarrow> nat \<Rightarrow> jsnum list list \<Rightarrow> jsnum list list" where
  "mds_pair distanceMatrix dimensions i j points =
     (let dst = embeddingDist points dimensions i j;
          diff = mds_diff distanceMatrix points dimensions i j
      in if jlt dst (Num (1 / 1000000)) then points
         else fold (\<lambda>d pts.
                      let grad = jdiv (jmul (jmul (Num (1 / 10)) diff)
                                            (jsub (pts ! i ! d) (pts ! j ! d))) dst
                      in (pts[i := (pts ! i)[d := jsub (pts ! i ! d) grad]])
                            [j := (pts ! j)[d := jadd (pts ! j ! d) grad]])
                   [0..<dimensions] points)"

definition mds_sweep :: "jsnum list list \<Rightarrow> nat \<Rightarrow> jsnum list list \<Rightarrow> jsnum list list" where
  "mds_sweep distanceMatrix dimensions points =
     (let n = length distanceMatrix
      in fold (\<lambda>i pts. fold (\<lambda>j pts'. mds_pair distanceMatrix dimensions i j pts')
                             [i + 1..<n] pts)
              [0..<n] points)"

definition simpleMDS :: "random_source \<Rightarrow> jsnum list list \<Rightarrow> nat \<Rightarrow> jsnum list list" where
  "simpleMDS rnd distanceMatrix dimensions =
     (let n = length distanceMatrix;
          iterations = 50
      in fold (\<lambda>iter pts. mds_sweep distanceMatrix dimensions pts) [0..<iterations]
              (mds_initial_points rnd n dimensions))"


section \<open>The result of a clustering\<close>

record point =
  pt_id :: nat
  pt_text :: string
  coordinates :: "jsnum list"
  cluster :: int

text \<open>A cluster summary; only the mock data give a cluster a name.\<close>

record cluster_summary =
  cl_id :: nat
  cl_name :: "string option"
  cl_size :: nat
  keyTerms :: "string list"
  example :: string

record clusterData =
  points :: "point list"
  clusters :: "cluster_summary list"
  clusterCount :: nat

section \<open>The mock clustering data\<close>

definition clusterDefinitions :: "(string \<times> string list) list" where
  "clusterDefinitions =
     [(''User Interface Experience'',
       [''interface'', ''design'', ''navigation'', ''usability'', ''responsive'']),
      (''Performance Optimization'',
       [''speed'', ''latency'', ''optimization'', ''efficiency'', ''throughput'']),
      (''Security Protocols'',
       [''security'', ''encryption'', ''authentication'', ''vulnerability'', ''protection'']),
      (''Data Management'',
       [''database'', ''storage'', ''queries'', ''retrieval'', ''collection'']),
      (''System Architecture'',
       [''architecture'', ''infrastructure'', ''framework'', ''integration'', ''microservice''])]"

definition mockClusterTexts :: "string list list" where
  "mockClusterTexts =
     [[''The user interface needs better navigation elements to guide users through the checkout process.'',
       ''We need to overhaul the design of the dashboard to make key metrics more visible at a glance.'',
       ''The responsive design breaks on certain tablet devices when switching from portrait to landscape.'',
       ''Users have reported confusion with the current menu structure during usability testing.'',
       ''The latest interface update has significantly improved the overall user experience according to satisfaction scores.'',
       ''The navigation drawer should contain the most frequently accessed items based on our analytics.'',
       ''Consider implementing more intuitive design patterns for first-time users of the application.''],
      [''The API request latency has increased by 15% since the last deployment.'',
       ''We need to optimize the database queries that are causing performance bottlenecks during peak hours.'',
       ''After implementing the caching layer, we saw a 30% improvement in response times.'',
       ''The new efficiency algorithms have reduced CPU utilization while maintaining throughput.'',
       ''Performance testing indicates we can handle twice the current load after the optimization work.'',
       ''The image processing pipeline needs optimization to reduce the processing time for large files.'',
       ''Resource utilization is suboptimal during the data aggregation process.''],
      [''The security audit revealed potential vulnerabilities in the authentication process.'',
       ''We need to implement stronger encryption for sensitive user data in transit and at rest.'',
       ''The protection mechanisms for API endpoints need to be enhanced with rate limiting.'',
       ''Additional security protocols are required for compliance with the new regulations.'',
       ''The vulnerability assessment identified several issues in the third-party libraries we'' @ apostrophe @ ''re using.'',
       ''Two-factor authentication implementation should be prioritized for admin accounts.'',
       ''The security team recommended implementing certificate pinning for the mobile application.''],
      [''The database schema requires normalization to improve query performance.'',
       ''Data retrieval operations are taking too long when filtering across multiple collections.'',
       ''We need to implement more efficient storage solutions for the increasing volume of user data.'',
       ''The current database architecture doesn'' @ apostrophe @ ''t scale well with our growing user base.'',
       ''Implementing proper indexing strategies could significantly improve our query performance.'',
       ''Data integrity issues have been identified in the customer information tables.'',
       ''We should consider implementing a data caching layer to reduce database load.''],
      [''The current system architecture needs to be refactored to support the new features.'',
       ''We should consider moving to a microservice architecture for better scalability.'',
       ''The integration points between systems are creating single points of failure.'',
       ''The framework we'' @ apostrophe @ ''re using doesn'' @ apostrophe @ ''t provide adequate support for our use cases.'',
       ''Our infrastructure needs to be more resilient to handle regional outages.'',
       ''The service mesh implementation has improved communication between microservices.'',
       ''We need to redesign the system to accommodate the new regulatory requirements.'']]"

text \<open>
  \<open>generateMockClusteringData()\<close>. The first five results of \<open>Math.random()\<close> size the
  clusters; then each cluster takes two for its centre and each of its points six for
  its offsets. \<open>mock_cluster\<close> is one round of the loop that creates the points, from the
  position \<open>pos\<close> in the random source and the next point id.
\<close>

definition mock_size :: "random_source \<Rightarrow> nat \<Rightarrow> nat" where
  "mock_size rnd i = nat \<lfloor>draw rnd i * 10\<rfloor> + 5"

definition mock_cluster ::
  "random_source \<Rightarrow> nat \<Rightarrow> nat \<times> nat \<times> point list \<Rightarrow> nat \<times> nat \<times> point list" where
  "mock_cluster rnd i = (\<lambda>(pos, pointId, pts).
     let centerX = draw rnd pos * 4 - 2;
         centerY = draw rnd (pos + 1) * 4 - 2;
         numPoints = mock_size rnd i;
         new = map (\<lambda>j.
                 let base = pos + 2 + 6 * j;
                     offsetX = (draw rnd base + draw rnd (base + 1) + draw rnd (base + 2) - 3 / 2) * (1 / 2);
                     offsetY = (draw rnd (base + 3) + draw rnd (base + 4) + draw rnd (base + 5) - 3 / 2)
                               * (1 / 2);
                     textIndex = j mod length (mockClusterTexts ! i)
                 in \<lparr>pt_id = pointId + j, pt_text = mockClusterTexts ! i ! textIndex,
                     coordinates = [Num (centerX + offsetX), Num (centerY + offsetY)],
                     cluster = int i\<rparr>)
               [0..<numPoints]
     in (pos + 2 + 6 * numPoints, pointId + numPoints, pts @ new))"

definition mock_points :: "random_source \<Rightarrow> point list" where
  "mock_points rnd = snd (snd (fold (mock_cluster rnd) [0..<5] (5, 0, [])))"

definition generateMockClusteringData :: "random_source \<Rightarrow> clusterData" where
  "generateMockClusteringData rnd =
     (let k = 5;
          pts = mock_points rnd;
          cls = map (\<lambda>i. \<lparr>cl_id = i, cl_name = Some (fst (clusterDefinitions ! i)),
                           cl_size = length (filter (\<lambda>p. cluster p = int i) pts),
                           keyTerms = snd (clusterDefinitions ! i),
                           example = mockClusterTexts ! i ! 0\<rparr>)
                    [0..<k]
      in \<lparr>points = pts, clusters = cls, clusterCount = k\<rparr>)"

section \<open>clusterTexts\<close>

text \<open>
  An element of the input array is an object with the fields \<open>content\<close> and \<open>text\<close>,
  or something that is not an object. A field is missing (or another falsy value), a
  string, or a truthy value that is not a string and has no \<open>trim\<close> method, on which
  \<open>text.trim()\<close> raises a TypeError.
\<close>

datatype field = Missing | Str string | Other

datatype item = NotObject | Item field field

definition truthy :: "field \<Rightarrow> bool" where
  "truthy f = (case f of Missing \<Rightarrow> False | Str s \<Rightarrow> s \<noteq> [] | Other \<Rightarrow> True)"

text \<open>\<open>item.content || item.text || ''\<close>.\<close>

definition text_of :: "field \<Rightarrow> field \<Rightarrow> field" where
  "text_of content txt = (if truthy content then content else if truthy txt then txt else Str [])"

fun extract_texts :: "item list \<Rightarrow> string list \<Rightarrow> error + string list" where
  "extract_texts [] texts = Inr texts"
| "extract_texts (NotObject # items) texts = extract_texts items texts"
| "extract_texts (Item content txt # items) texts =
     (case text_of content txt of
        Str s \<Rightarrow> extract_texts items (if trim s \<noteq> [] then texts @ [s] else texts)
      | _ \<Rightarrow> Inl TypeError)"

text \<open>The processed texts: \<open>if (processed && processed.trim() !== '') push\<close>.\<close>

definition processTexts :: "natural_lib \<Rightarrow> string list \<Rightarrow> string list" where
  "processTexts lib texts =
     filter (\<lambda>processed. processed \<noteq> [] \<and> trim processed \<noteq> [])
            (map (preprocessText lib) texts)"

text \<open>\<open>Array.from(allTerms)\<close>: the terms of all documents, each once, in the order met.\<close>

definition collectTerms :: "natural_lib \<Rightarrow> string list \<Rightarrow> string list" where
  "collectTerms lib processedTexts =
     rev (remdups (rev (concat
       (map (\<lambda>i. filter (\<lambda>term. term \<noteq> []) (map fst (listTerms lib processedTexts i)))
            [0..<length processedTexts]))))"

text \<open>\<open>vector[key] = value\<close> on a plain object whose keys are listed in creation order.\<close>

fun obj_set :: "(string \<times> 'v) list \<Rightarrow> string \<Rightarrow> 'v \<Rightarrow> (string \<times> 'v) list" where
  "obj_set [] key v = [(key, v)]"
| "obj_set ((k, w) # kvs) key v = (if k = key then (k, v) # kvs else (k, w) # obj_set kvs key v)"

definition docVector :: "natural_lib \<Rightarrow> string list \<Rightarrow> nat \<Rightarrow> (string \<times> real) list" where
  "docVector lib processedTexts i =
     fold (\<lambda>(term, tfidf) vector. if term \<noteq> [] then obj_set vector term tfidf else vector)
          (listTerms lib processedTexts i) []"

text \<open>Only the vectors with at least one key are kept.\<close>

definition buildDocVectors :: "natural_lib \<Rightarrow> string list \<Rightarrow> (string \<times> real) list list" where
  "buildDocVectors lib processedTexts =
     filter (\<lambda>vector. length vector > 0)
            (map (docVector lib processedTexts) [0..<length processedTexts])"

text \<open>
  The similarity matrix: the cosine similarity of each pair of document vectors, a
  \<open>NaN\<close> or infinite value replaced by 1 on the diagonal and by 0 elsewhere.
\<close>

definition similarityMatrix :: "(string \<times> real) list list \<Rightarrow> jsnum list list" where
  "similarityMatrix docVectors =
     map (\<lambda>i. map (\<lambda>j. let sim = cosineSimilarity (Obj (docVectors ! i)) (Obj (docVectors ! j))
                         in if isNaN sim \<or> \<not> isFinite sim
                            then (if i = j then Num 1 else Num 0) else sim)
                   [0..<length docVectors])
         [0..<length docVectors]"

text \<open>\<open>similarityMatrix.map(row => row.map(sim => 1 - sim))\<close>.\<close>

definition distanceMatrix :: "jsnum list list \<Rightarrow> jsnum list list" where
  "distanceMatrix sims = map (\<lambda>row. map (\<lambda>sim. jsub (Num 1) sim) row) sims"

definition validCoordinates :: "jsnum list list \<Rightarrow> jsnum list list" where
  "validCoordinates mdsCoordinates =
     map (\<lambda>coords. if list_ex (\<lambda>c. isNaN c \<or> \<not> isFinite c) coords then [Num 0, Num 0]
                     else coords)
         mdsCoordinates"

text \<open>\<open>Math.min(5, Math.max(2, Math.floor(n / 10)))\<close>.\<close>

definition cluster_count :: "nat \<Rightarrow> nat" where
  "cluster_count n = min 5 (max 2 (n div 10))"

text \<open>The random source after \<open>m\<close> results have been taken.\<close>

definition after_draws :: "nat \<Rightarrow> random_source \<Rightarrow> random_source" where
  "after_draws m rnd = (\<lambda>i. rnd (i + m))"

text \<open>
  The cluster assignments: those of \<open>kmeans\<close>, or random ones should it raise.
\<close>

definition clusterAssignments ::
  "random_source \<Rightarrow> jsnum list list \<Rightarrow> nat \<Rightarrow> nat \<Rightarrow> int list" where
  "clusterAssignments rnd coords k n =
     (case kmeans rnd coords k 10 of
        Inr kmeansResult \<Rightarrow> assignments kmeansResult
      | Inl e \<Rightarrow> map (\<lambda>i. \<lfloor>draw rnd i * real k\<rfloor>) [0..<n])"

definition makePoints ::
  "string list \<Rightarrow> string list \<Rightarrow> jsnum list list \<Rightarrow> int list \<Rightarrow> point list" where
  "makePoints texts processedTexts coords assigned =
     map (\<lambda>i. \<lparr>pt_id = i, pt_text = texts ! i, coordinates = coords ! i, cluster = assigned ! i\<rparr>)
         (filter (\<lambda>i. i < length texts \<and> i < length coords \<and> i < length assigned)
                 [0..<length processedTexts])"

text \<open>\<open>clusterTerms[term] = (clusterTerms[term] || 0) + 1\<close>.\<close>

definition tally :: "(string \<times> nat) list \<Rightarrow> string \<Rightarrow> (string \<times> nat) list" where
  "tally counts term =
     obj_set counts term (case map_of counts term of None \<Rightarrow> 1 | Some c \<Rightarrow> c + 1)"

text \<open>\<open>Object.entries(counts).sort((a, b) => b[1] - a[1])\<close>, the sort being stable.\<close>

definition entries_by_count :: "(string \<times> nat) list \<Rightarrow> (string \<times> nat) list" where
  "entries_by_count counts =
     sort_key (\<lambda>(term, c). - int c)
       (map (\<lambda>key. (key, the (map_of counts key))) (key_order (map fst counts)))"

text \<open>The summary of cluster \<open>i\<close> of clusterTexts.\<close>

definition clusterSummary :: "natural_lib \<Rightarrow> string list \<Rightarrow> point list \<Rightarrow> nat \<Rightarrow> cluster_summary" where
  "clusterSummary lib processedTexts pts i =
     (let clusterPoints = filter (\<lambda>p. cluster p = int i) pts;
          clusterTexts = map pt_text clusterPoints
      in if length clusterTexts = 0
         then \<lparr>cl_id = i, cl_name = None, cl_size = 0, keyTerms = [''Empty cluster''],
               example = []\<rparr>
         else
           let clusterTerms =
                 fold (\<lambda>p counts.
                         let docIndex = pt_id p
                         in if docIndex \<ge> length processedTexts then counts
                            else fold (\<lambda>(term, tfidf) counts'.
                                         if term \<noteq> [] then tally counts' term else counts')
                                      (take 5 (listTerms lib processedTexts docIndex)) counts)
                      clusterPoints [];
               terms = map fst (take 5 (entries_by_count clusterTerms))
           in \<lparr>cl_id = i, cl_name = None, cl_size = length clusterPoints,
               keyTerms = (if length terms > 0 then terms else [''No key terms found'']),
               example = hd clusterTexts\<rparr>)"

definition clusterSummaries ::
  "natural_lib \<Rightarrow> string list \<Rightarrow> point list \<Rightarrow> nat \<Rightarrow> cluster_summary list" where
  "clusterSummaries lib processedTexts pts k =
     map (clusterSummary lib processedTexts pts) [0..<k]"

text \<open>
  The pipeline once at least two document vectors exist. \<open>simpleMDS\<close> takes two results
  of \<open>Math.random()\<close> for each document vector, \<open>kmeans\<close> the following ones.
\<close>

definition clusterPipeline ::
  "natural_lib \<Rightarrow> random_source \<Rightarrow> string list \<Rightarrow> string list \<Rightarrow>
   (string \<times> real) list list \<Rightarrow> clusterData" where
  "clusterPipeline lib rnd texts processedTexts docVectors =
     (let sims = similarityMatrix docVectors;
          mdsCoordinates = simpleMDS rnd (distanceMatrix sims) 2;
          coords = validCoordinates mdsCoordinates;
          k = cluster_count (length processedTexts);
          assigned = clusterAssignments (after_draws (2 * length docVectors) rnd) coords k
                       (length processedTexts);
          pts = makePoints texts processedTexts coords assigned
      in \<lparr>points = pts, clusters = clusterSummaries lib processedTexts pts k,
          clusterCount = k\<rparr>)"

text \<open>
  \<open>clusterTexts(data)\<close>; \<open>None\<close> is an argument that is not an array. Every exception
  is caught and answered with the mock data, as is every input with too few documents,
  texts, terms or vectors.
\<close>

definition clusterTexts :: "natural_lib \<Rightarrow> random_source \<Rightarrow> item list option \<Rightarrow> clusterData" where
  "clusterTexts lib rnd data =
     (case data of
        None \<Rightarrow> generateMockClusteringData rnd
      | Some items \<Rightarrow>
          if length items = 0 then generateMockClusteringData rnd
          else
            (case extract_texts items [] of
               Inl e \<Rightarrow> generateMockClusteringData rnd
             | Inr texts \<Rightarrow>
                 if length texts < 2 then generateMockClusteringData rnd
                 else
                   let processedTexts = processTexts lib texts
                   in if length processedTexts < 2 then generateMockClusteringData rnd
                      else if length (collectTerms lib processedTexts) = 0
                      then generateMockClusteringData rnd
                      else
                        let docVectors = buildDocVectors lib processedTexts
                        in if length docVectors < 2 then generateMockClusteringData rnd
                           else clusterPipeline lib rnd texts processedTexts docVectors))"


section \<open>The vector-driven projector (textClustering.js)\<close>

text \<open>
  \<open>Math.exp\<close>, \<open>Math.log\<close> and \<open>Math.abs\<close> on exact numbers, and the first two as
  doubles. A decimal literal of the source is the double nearest to it.
\<close>

fun jexp :: "jsnum \<Rightarrow> jsnum" where
  "jexp (Num x) = Num (exp x)"
| "jexp PInf = PInf"
| "jexp NInf = Num 0"
| "jexp NaN = NaN"

fun jlog :: "jsnum \<Rightarrow> jsnum" where
  "jlog (Num x) = (if x < 0 then NaN else if x = 0 then NInf else Num (ln x))"
| "jlog PInf = PInf"
| "jlog NInf = NaN"
| "jlog NaN = NaN"

fun jabs :: "jsnum \<Rightarrow> jsnum" where
  "jabs (Num x) = Num \<bar>x\<bar>"
| "jabs PInf = PInf"
| "jabs NInf = PInf"
| "jabs NaN = NaN"

definition dexp :: "jsnum \<Rightarrow> jsnum" where
  "dexp a = double (jexp a)"

definition dlog :: "jsnum \<Rightarrow> jsnum" where
  "dlog a = double (jlog a)"

definition lit :: "real \<Rightarrow> jsnum" where
  "lit x = double (Num x)"

text \<open>\<open>xs.reduce((a, b) => a + b, 0)\<close>.\<close>

definition dsum :: "jsnum list \<Rightarrow> jsnum" where
  "dsum xs = fold (\<lambda>b a. dadd a b) xs (Num 0)"

text \<open>
  \<open>Math.exp(-d * d / (2 * sigma * sigma))\<close>, the Gaussian kernel of a distance \<open>d\<close>
  at bandwidth \<open>sigma\<close>, and row \<open>i\<close> of the kernel in \<open>findSigma\<close>.
\<close>

definition kernel :: "jsnum \<Rightarrow> jsnum \<Rightarrow> jsnum" where
  "kernel d sigma = dexp (ddiv (dmul (jneg d) d) (dmul (dmul (Num 2) sigma) sigma))"

definition kernel_row :: "jsnum list \<Rightarrow> jsnum \<Rightarrow> nat \<Rightarrow> jsnum list" where
  "kernel_row distances sigma i =
     map (\<lambda>j. if i = j then Num 0 else kernel (distances ! j) sigma) [0..<length distances]"

text \<open>The entropy of the normalized kernel, leaving out the terms up to \<open>1e-10\<close>.\<close>

definition row_entropy :: "jsnum list \<Rightarrow> jsnum" where
  "row_entropy probs =
     (let sum = dsum probs
      in fold (\<lambda>p entropy.
                 let q = ddiv p sum
                 in if jgt q (lit (1 / 10000000000)) then dsub entropy (dmul q (dlog q))
                    else entropy)
              probs (Num 0))"

text \<open>
  The bisection of \<open>findSigma\<close>: at most \<open>rounds\<close> further rounds from the bounds and
  the current \<open>sigma\<close>; a round within 0.01 of the target breaks out.
\<close>

fun findSigma_loop ::
  "nat \<Rightarrow> jsnum list \<Rightarrow> jsnum \<Rightarrow> nat \<Rightarrow> jsnum \<Rightarrow> jsnum \<Rightarrow> jsnum \<Rightarrow> jsnum" where
  "findSigma_loop 0 distances target i sigmaMin sigmaMax sigma = sigma"
| "findSigma_loop (Suc rounds) distances target i sigmaMin sigmaMax sigma =
     (let entropy = row_entropy (kernel_row distances sigma i)
      in if jlt (jabs (dsub entropy target)) (lit (1 / 100)) then sigma
         else if jlt entropy target
         then findSigma_loop rounds distances target i sigma sigmaMax
                (ddiv (dadd sigma sigmaMax) (Num 2))
         else findSigma_loop rounds distances target i sigmaMin sigma
                (ddiv (dadd sigma sigmaMin) (Num 2)))"

definition findSigma :: "jsnum list \<Rightarrow> nat \<Rightarrow> nat \<Rightarrow> jsnum" where
  "findSigma distances perplexity i =
     findSigma_loop 50 distances (dlog (Num (real perplexity))) i (lit (1 / 10000)) (Num 1000)
       (Num 1)"

text \<open>
  Row \<open>i\<close> of the probabilities of \<open>convertDistancesToProbabilities\<close> before they
  are made symmetric: the kernel at the bandwidth found for the row, divided by its sum.
\<close>

definition probability_row :: "jsnum list list \<Rightarrow> nat \<Rightarrow> nat \<Rightarrow> jsnum list" where
  "probability_row distances perplexity i =
     (let n = length distances;
          sigma = findSigma (distances ! i) perplexity i;
          row = map (\<lambda>j. if i \<noteq> j then kernel (distances ! i ! j) sigma else Num 0) [0..<n];
          sum = dsum row
      in map (\<lambda>p. ddiv p sum) row)"

definition convertDistancesToProbabilities :: "jsnum list list \<Rightarrow> nat \<Rightarrow> jsnum list list" where
  "convertDistancesToProbabilities distances perplexity =
     (let n = length distances;
          probs = map (probability_row distances perplexity) [0..<n]
      in map (\<lambda>i. map (\<lambda>j. ddiv (dadd (probs ! i ! j) (probs ! j ! i))
                                   (dmul (Num 2) (Num (real n))))
                        [0..<n])
             [0..<n])"

text \<open>
  \<open>calculateGradient(points, probs, exaggeration)\<close>: the affinity \<open>1 / (1 + dist)\<close> of
  two points of the layout, the sum \<open>qSum\<close> of the affinities of all pairs, and the
  gradient of point \<open>i\<close> on axis \<open>d\<close>. \<open>Math.pow(x, 2)\<close> is the product of \<open>x\<close> with
  itself.
\<close>

definition sq_dist2 :: "jsnum list list \<Rightarrow> nat \<Rightarrow> nat \<Rightarrow> jsnum" where
  "sq_dist2 pts i j =
     dadd (dmul (dsub (pts ! i ! 0) (pts ! j ! 0)) (dsub (pts ! i ! 0) (pts ! j ! 0)))
          (dmul (dsub (pts ! i ! 1) (pts ! j ! 1)) (dsub (pts ! i ! 1) (pts ! j ! 1)))"

definition affinity :: "jsnum list list \<Rightarrow> nat \<Rightarrow> nat \<Rightarrow> jsnum" where
  "affinity pts i j = (if i \<noteq> j then ddiv (Num 1) (dadd (Num 1) (sq_dist2 pts i j)) else Num 0)"

definition affinity_sum :: "jsnum list list \<Rightarrow> jsnum" where
  "affinity_sum pts =
     (let n = length pts
      in fold (\<lambda>i s. fold (\<lambda>j s'. if i \<noteq> j then dadd s' (affinity pts i j) else s') [0..<n] s)
              [0..<n] (Num 0))"

definition gradient_entry ::
  "jsnum list list \<Rightarrow> jsnum list list \<Rightarrow> real \<Rightarrow> jsnum \<Rightarrow> nat \<Rightarrow> nat \<Rightarrow> jsnum" where
  "gradient_entry pts probs exaggeration qSum i d =
     fold (\<lambda>j g.
             if i \<noteq> j
             then let pij = dmul (elt (probs ! i) j) (Num exaggeration);
                      qij_val = ddiv (affinity pts i j) qSum;
                      factor = dmul (dmul (Num 4) (dsub pij qij_val)) qij_val
                  in dadd g (dmul factor (dsub (pts ! i ! d) (pts ! j ! d)))
             else g)
          [0..<length pts] (Num 0)"

definition calculateGradient ::
  "jsnum list list \<Rightarrow> jsnum list list \<Rightarrow> real \<Rightarrow> jsnum list list" where
  "calculateGradient pts probs exaggeration =
     (let qSum = affinity_sum pts
      in map (\<lambda>i. map (\<lambda>d. gradient_entry pts probs exaggeration qSum i d) [0..<2])
             [0..<length pts])"

text \<open>
  \<open>normalizePoints(points)\<close>, which changes the points in place; the model returns
  them. \<open>std[d] || 1\<close> is 1 when the deviation is 0 or \<open>NaN\<close>.
\<close>

definition axis_mean :: "jsnum list list \<Rightarrow> nat \<Rightarrow> jsnum" where
  "axis_mean pts d =
     fold (\<lambda>point m. dadd m (ddiv (point ! d) (Num (real (length pts))))) pts (Num 0)"

definition axis_variance :: "jsnum list list \<Rightarrow> nat \<Rightarrow> jsnum" where
  "axis_variance pts d =
     (let mean = axis_mean pts d
      in fold (\<lambda>point v. dadd v (ddiv (dmul (dsub (point ! d) mean) (dsub (point ! d) mean))
                                       (Num (real (length pts)))))
              pts (Num 0))"

definition or_one :: "jsnum \<Rightarrow> jsnum" where
  "or_one x = (if x = Num 0 \<or> x = NaN then Num 1 else x)"

definition normalizePoints :: "jsnum list list \<Rightarrow> jsnum list list" where
  "normalizePoints pts =
     (if length pts = 0 then pts
      else
        let mean = [axis_mean pts 0, axis_mean pts 1];
            std = [dsqrt (axis_variance pts 0), dsqrt (axis_variance pts 1)]
        in map (\<lambda>point. point[0 := ddiv (dsub (point ! 0) (mean ! 0)) (or_one (std ! 0)),
                               1 := ddiv (dsub (point ! 1) (mean ! 1)) (or_one (std ! 1))])
               pts)"

text \<open>One round of the optimization loop of \<open>tSNEProjection\<close>.\<close>

definition tsne_step ::
  "jsnum list list \<Rightarrow> nat \<Rightarrow> nat \<Rightarrow> jsnum list list \<Rightarrow> jsnum list list" where
  "tsne_step probs iterations iter pts =
     (let learningRate = 100;
          earlyExaggeration = 12;
          gradient = calculateGradient pts probs
                       (if real iter < real iterations / 5 then earlyExaggeration else 1);
          moved = map (\<lambda>i. map (\<lambda>d. dsub (pts ! i ! d)
                                          (dmul (Num learningRate) (gradient ! i ! d)))
                                [0..<2])
                      [0..<length pts]
      in if iter mod 50 = 0 then normalizePoints moved else moved)"

definition tsne_initial_points :: "random_source \<Rightarrow> nat \<Rightarrow> jsnum list list" where
  "tsne_initial_points rnd n =
     map (\<lambda>i. [dmul (Num (draw rnd (2 * i))) (lit (1 / 10000)),
               dmul (Num (draw rnd (2 * i + 1))) (lit (1 / 10000))])
         [0..<n]"

text \<open>
  The pairwise distances, by the \<open>euclideanDistance\<close> that \<open>kMeansWithVectors\<close> uses
  too.
\<close>

definition tsne_distances :: "vector list \<Rightarrow> jsnum list list" where
  "tsne_distances vectors =
     map (\<lambda>i. map (\<lambda>j. euclideanDistance (vectors ! i) (Some (vectors ! j)))
                   [0..<length vectors])
         [0..<length vectors]"

text \<open>
  The layout at the start of round \<open>k\<close> of the optimization loop, and the layout the
  loop ends with.
\<close>

definition tsne_layout_at ::
  "random_source \<Rightarrow> vector list \<Rightarrow> nat \<Rightarrow> nat \<Rightarrow> jsnum list list" where
  "tsne_layout_at rnd vectors iterations k =
     (let perplexity = min 30 (max 5 (length vectors div 5));
          probs = convertDistancesToProbabilities (tsne_distances vectors) perplexity
      in fold (tsne_step probs iterations) [0..<k] (tsne_initial_points rnd (length vectors)))"

definition tsne_optimized :: "random_source \<Rightarrow> vector list \<Rightarrow> nat \<Rightarrow> jsnum list list" where
  "tsne_optimized rnd vectors iterations = tsne_layout_at rnd vectors iterations iterations"

definition tSNEProjection :: "random_source \<Rightarrow> vector list \<Rightarrow> nat \<Rightarrow> jsnum list list" where
  "tSNEProjection rnd vectors iterations =
     (if length vectors = 0 then []
      else normalizePoints (tsne_optimized rnd vectors iterations))"

section \<open>processVectorData\<close>

text \<open>
  A data point carries its text and its vector. \<open>data\<close> is \<open>None\<close> when the argument or
  its \<open>points\<close> are missing; \<open>requestedCount\<close> is \<open>data.clusterCount\<close>, 0 when
  that is missing.
\<close>

record vector_point =
  vp_text :: string
  vp_vector :: vector

record placed_point =
  pp_text :: string
  pp_vector :: vector
  pp_coordinates :: "jsnum list option"
  pp_cluster :: int

record vector_cluster =
  vc_id :: nat
  vc_size :: nat
  vc_keyTerms :: "string list"
  samples :: "string list"

record vector_result =
  vr_points :: "placed_point list"
  vr_clusters :: "vector_cluster list"
  vr_clusterCount :: nat

text \<open>A character of \<open>\W\<close>: neither a letter of ASCII, nor a digit, nor the underscore.\<close>

definition is_nonword :: "char \<Rightarrow> bool" where
  "is_nonword c = (\<not> is_alnum_char c \<and> c \<noteq> CHR ''_'')"

text \<open>
  The summary of cluster \<open>c\<close>, \<open>None\<close> for a cluster without points, which the loop
  skips.
\<close>

definition vectorClusterSummary :: "placed_point list \<Rightarrow> nat \<Rightarrow> vector_cluster option" where
  "vectorClusterSummary updatedPoints c =
     (let clusterPoints = filter (\<lambda>p. pp_cluster p = int c) updatedPoints
      in if length clusterPoints = 0 then None
         else
           let sampleTexts = map pp_text (take 5 clusterPoints);
               wordCounts =
                 fold (\<lambda>point counts.
                         fold (\<lambda>word counts'. tally counts' word)
                              (filter (\<lambda>w. length w > 3)
                                      (split_on is_nonword (toLowerCase (pp_text point))))
                              counts)
                      clusterPoints [];
               terms = map fst (take 10 (entries_by_count wordCounts))
           in Some \<lparr>vc_id = c, vc_size = length clusterPoints, vc_keyTerms = terms,
                     samples = sampleTexts\<rparr>)"

definition vectorClusterSummaries :: "placed_point list \<Rightarrow> nat \<Rightarrow> vector_cluster list" where
  "vectorClusterSummaries updatedPoints k =
     List.map_filter (vectorClusterSummary updatedPoints) [0..<k]"

text \<open>The data points with their coordinates and cluster assignments.\<close>

definition updatePoints ::
  "vector_point list \<Rightarrow> jsnum list list \<Rightarrow> int list \<Rightarrow> placed_point list" where
  "updatePoints pts coords assigned =
     map (\<lambda>i. \<lparr>pp_text = vp_text (pts ! i), pp_vector = vp_vector (pts ! i),
                pp_coordinates = at_index coords (int i), pp_cluster = assigned ! i\<rparr>)
         [0..<length pts]"

definition processVectorData ::
  "random_source \<Rightarrow> vector_point list option \<Rightarrow> nat \<Rightarrow> error + vector_result" where
  "processVectorData rnd data requestedCount =
     (case data of
        None \<Rightarrow> Inl (Error ''Invalid data for vector processing'')
      | Some pts \<Rightarrow>
          if length pts = 0 then Inl (Error ''Invalid data for vector processing'')
          else
            let vectors = map vp_vector pts;
                coords = tSNEProjection rnd vectors 1000;
                k = (if requestedCount = 0 then 5 else requestedCount)
            in (case kMeansWithVectors (after_draws (2 * length vectors) rnd) vectors k 50 of
                  Inl e \<Rightarrow> Inl e
                | Inr res \<Rightarrow>
                    let updatedPoints = updatePoints pts coords (assignments res);
                        summaries = vectorClusterSummaries updatedPoints k
                    in Inr \<lparr>vr_points = updatedPoints, vr_clusters = summaries,
                            vr_clusterCount = length summaries\<rparr>))"


section \<open>Properties stated of the pipeline\<close>

text \<open>Two arrays of one space: finite numbers, as many in each.\<close>

definition same_space :: "jsnum list \<Rightarrow> jsnum list \<Rightarrow> bool" where
  "same_space a b = (finite_vec a \<and> finite_vec b \<and> length a = length b)"

text \<open>
  The sum of squares of an array as the loop of \<open>cosineSimilarity\<close> computes it, that
  is the value of \<open>normA\<close>; the arrays for which it is a double between \<open>2^-1000\<close> and
  \<open>2^1000\<close>; the arrays of zeros; the results within \<open>2^-50\<close> of 1.
\<close>

definition scale_min :: real where
  "scale_min = 2 powr (- 1000)"

definition scale_max :: real where
  "scale_max = 2 powr 1000"

definition sum_of_squares :: "jsnum list \<Rightarrow> jsnum" where
  "sum_of_squares v = fold (\<lambda>x s. dadd s (dmul x x)) v (Num 0)"

definition well_scaled :: "jsnum list \<Rightarrow> bool" where
  "well_scaled v =
     (case sum_of_squares v of
        Num s \<Rightarrow> scale_min \<le> s \<and> s \<le> scale_max
      | _ \<Rightarrow> False)"

definition all_zero :: "jsnum list \<Rightarrow> bool" where
  "all_zero v = list_all (\<lambda>x. x = Num 0) v"

definition near_one :: "jsnum \<Rightarrow> bool" where
  "near_one c = (case c of Num x \<Rightarrow> \<bar>x - 1\<bar> \<le> 8 * unit_roundoff | _ \<Rightarrow> False)"

text \<open>A document vector without a term named \<open>length\<close>.\<close>

definition no_length_term :: "(string \<times> real) list \<Rightarrow> bool" where
  "no_length_term vector = (map_of vector ''length'' = None)"

text \<open>
  A token that a second pass of \<open>preprocessText\<close> leaves alone: it passes the filter
  (longer than 2, no stop word, made of digits and small ASCII letters) and the stemmer
  returns it unchanged. Tokens are stable when each is and the tokenizer reads their
  joined text back as the same tokens.
\<close>

definition is_lower_alnum_char :: "char \<Rightarrow> bool" where
  "is_lower_alnum_char c =
     (let n = of_char c :: nat in (48 \<le> n \<and> n \<le> 57) \<or> (97 \<le> n \<and> n \<le> 122))"

definition stable_token :: "natural_lib \<Rightarrow> string \<Rightarrow> bool" where
  "stable_token lib t =
     (length t > 2 \<and> t \<notin> set (stopwords lib) \<and> list_all is_lower_alnum_char t \<and>
      stem lib t = t)"

definition stable_tokens :: "natural_lib \<Rightarrow> string list \<Rightarrow> bool" where
  "stable_tokens lib ts =
     (list_all (stable_token lib) ts \<and> tokenize lib (join_spaces ts) = ts)"

text \<open>A non-empty token of digits and small letters.\<close>

definition plain :: "string \<Rightarrow> bool" where
  "plain t = (t \<noteq> [] \<and> list_all is_lower_alnum_char t)"

text \<open>
  The inputs that clusterTexts answers with the mock data: no array, an element it
  cannot read, fewer than two texts, processed texts or document vectors, or no term.
\<close>

definition degenerate_input :: "natural_lib \<Rightarrow> item list option \<Rightarrow> bool" where
  "degenerate_input lib data =
     (case data of
        None \<Rightarrow> True
      | Some items \<Rightarrow>
          (case extract_texts items [] of
             Inl e \<Rightarrow> True
           | Inr texts \<Rightarrow>
               length texts < 2 \<or> length (processTexts lib texts) < 2 \<or>
               collectTerms lib (processTexts lib texts) = [] \<or>
               length (buildDocVectors lib (processTexts lib texts)) < 2))"

text \<open>The placeholder summary of a cluster without members.\<close>

definition placeholder :: "nat \<Rightarrow> cluster_summary" where
  "placeholder i =
     \<lparr>cl_id = i, cl_name = None, cl_size = 0, keyTerms = [''Empty cluster''], example = []\<rparr>"

text \<open>
  What is claimed of the summaries of a result of clusterTexts: one for each cluster id
  below \<open>clusterCount\<close>, in order, with the number of the cluster's points as its size,
  and the placeholder for a cluster without points.
\<close>

definition summaries_complete :: "clusterData \<Rightarrow> bool" where
  "summaries_complete r =
     (length (clusters r) = clusterCount r \<and>
      (\<forall>i<clusterCount r.
         cl_id (clusters r ! i) = i \<and>
         cl_size (clusters r ! i) = length (filter (\<lambda>p. cluster p = int i) (points r)) \<and>
         (cl_size (clusters r ! i) = 0 \<longrightarrow> clusters r ! i = placeholder i)))"

text \<open>
  What holds of the summaries of processVectorData for \<open>k\<close> clusters: one for each
  non-empty cluster, in order of the ids, and their number as \<open>clusterCount\<close>.
\<close>

definition summaries_of_nonempty :: "nat \<Rightarrow> vector_result \<Rightarrow> bool" where
  "summaries_of_nonempty k r =
     (vr_clusterCount r = length (vr_clusters r) \<and>
      map vc_id (vr_clusters r)
        = filter (\<lambda>c. \<exists>p\<in>set (vr_points r). pp_cluster p = int c) [0..<k] \<and>
      (\<forall>s\<in>set (vr_clusters r).
         vc_size s = length (filter (\<lambda>p. pp_cluster p = int (vc_id s)) (vr_points r)) \<and>
         0 < vc_size s))"

text \<open>The number of summaries in the outcome of processVectorData, if it is a result.\<close>

definition summary_count :: "error + vector_result \<Rightarrow> nat option" where
  "summary_count outcome =
     (case outcome of Inl e \<Rightarrow> None | Inr r \<Rightarrow> Some (length (vr_clusters r)))"

text \<open>The same, of an outcome of processVectorData that is a result.\<close>

definition outcome_of_nonempty :: "nat \<Rightarrow> error + vector_result \<Rightarrow> bool" where
  "outcome_of_nonempty k outcome =
     (case outcome of Inl e \<Rightarrow> True | Inr r \<Rightarrow> summaries_of_nonempty k r)"






section \<open>Facts about doubles\<close>

lemma ulp_pos: "0 < ulp x"
  by (simp add: ulp_def)

lemma round_half_even_error: "\<bar>real_of_int (round_half_even z) - z\<bar> \<le> 1 / 2"
proof -
  have "real_of_int \<lfloor>z\<rfloor> \<le> z" "z < real_of_int \<lfloor>z\<rfloor> + 1" by linarith+
  then show ?thesis unfolding round_half_even_def Let_def
    by (cases "z - real_of_int \<lfloor>z\<rfloor> < 1 / 2"; cases "1 / 2 < z - real_of_int \<lfloor>z\<rfloor>";
        cases "even \<lfloor>z\<rfloor>") (simp_all add: abs_if, linarith+)
qed

lemma round_half_even_near:
  assumes "\<bar>z - real_of_int m\<bar> < 1 / 2"
  shows "round_half_even z = m"
proof -
  have "\<bar>real_of_int (round_half_even z) - real_of_int m\<bar> < 1"
    using round_half_even_error [of z] assms by linarith
  then have "\<bar>real_of_int (round_half_even z - m)\<bar> < 1" by simp
  then have "\<bar>round_half_even z - m\<bar> < 1" by linarith
  then show ?thesis by linarith
qed

lemma round_half_even_int [simp]: "round_half_even (real_of_int m) = m"
  by (rule round_half_even_near) simp

lemma round_double_error: "\<bar>round_double x - x\<bar> \<le> ulp x / 2"
proof -
  have "round_double x - x = (real_of_int (round_half_even (x / ulp x)) - x / ulp x) * ulp x"
    using ulp_pos [of x] by (simp add: round_double_def left_diff_distrib)
  then have "\<bar>round_double x - x\<bar> = \<bar>real_of_int (round_half_even (x / ulp x)) - x / ulp x\<bar> * ulp x"
    using ulp_pos [of x] by (simp add: abs_mult)
  also have "\<dots> \<le> 1 / 2 * ulp x"
    using round_half_even_error [of "x / ulp x"] ulp_pos [of x]
    by (intro mult_right_mono) simp_all
  finally show ?thesis by simp
qed

lemma min_normal_pos: "0 < min_normal"
  by (simp only: min_normal_def powr_gt_zero)

lemma binade_eq:
  assumes "2 powr real_of_int k \<le> \<bar>x\<bar>" "\<bar>x\<bar> < 2 powr (real_of_int k + 1)" "- 1022 \<le> k"
  shows "binade x = k"
proof -
  have "(0 :: real) < 2 powr real_of_int k" by simp
  then have "0 < \<bar>x\<bar>" using assms(1) by linarith
  then have "\<lfloor>log 2 \<bar>x\<bar>\<rfloor> = k"
    using assms(1,2) floor_log_eq_powr_iff [of "\<bar>x\<bar>" 2 k] by simp
  then show ?thesis using assms(3) by (simp add: binade_def)
qed

lemma binade_normal:
  assumes "min_normal \<le> \<bar>x\<bar>"
  shows "2 powr real_of_int (binade x) \<le> \<bar>x\<bar>"
proof -
  have p: "0 < \<bar>x\<bar>" using assms min_normal_pos by linarith
  have "2 powr real_of_int (- 1022) \<le> \<bar>x\<bar>" using assms unfolding min_normal_def by simp
  then have "real_of_int (- 1022) \<le> log 2 \<bar>x\<bar>"
    using p le_log_iff [of 2 "\<bar>x\<bar>" "real_of_int (- 1022)"] by simp
  then have "- 1022 \<le> \<lfloor>log 2 \<bar>x\<bar>\<rfloor>" by (simp add: le_floor_iff)
  then have b: "binade x = \<lfloor>log 2 \<bar>x\<bar>\<rfloor>" by (simp add: binade_def)
  have "real_of_int \<lfloor>log 2 \<bar>x\<bar>\<rfloor> \<le> log 2 \<bar>x\<bar>" by simp
  then show "2 powr real_of_int (binade x) \<le> \<bar>x\<bar>"
    unfolding b using p le_log_iff [of 2 "\<bar>x\<bar>" "real_of_int \<lfloor>log 2 \<bar>x\<bar>\<rfloor>"] by simp
qed

lemma round_double_relative:
  assumes "min_normal \<le> \<bar>x\<bar>"
  shows "\<bar>round_double x - x\<bar> \<le> unit_roundoff * \<bar>x\<bar>"
proof -
  have h: "(2 :: real) powr (- 52) / 2 = 2 powr (- 53)"
    using powr_add [of "2 :: real" "- 53" 1] by simp
  have "ulp x = 2 powr real_of_int (binade x) * 2 powr (- 52)"
    using powr_add [of "2 :: real" "real_of_int (binade x)" "- 52"] by (simp add: ulp_def)
  also have "\<dots> \<le> \<bar>x\<bar> * 2 powr (- 52)"
    using binade_normal [OF assms] by (rule mult_right_mono) simp
  finally have "ulp x / 2 \<le> \<bar>x\<bar> * (2 powr (- 52) / 2)" by simp
  then have "ulp x / 2 \<le> unit_roundoff * \<bar>x\<bar>"
    unfolding h unit_roundoff_def by (simp add: mult.commute)
  then show ?thesis using round_double_error [of x] by linarith
qed

lemma round_double_zero [simp]: "round_double 0 = 0"
  using round_half_even_int [of 0] by (simp add: round_double_def)

lemma round_double_near:
  assumes "2 powr real_of_int k \<le> \<bar>x\<bar>" "\<bar>x\<bar> < 2 powr (real_of_int k + 1)" "- 1022 \<le> k"
    and "\<bar>x / 2 powr (real_of_int k - 52) - real_of_int m\<bar> < 1 / 2"
  shows "round_double x = real_of_int m * 2 powr (real_of_int k - 52)"
  using assms(4) by (simp add: round_double_def ulp_def binade_eq [OF assms(1-3)] round_half_even_near)

lemma round_double_bound:
  assumes "min_normal \<le> \<bar>x\<bar>"
  shows "\<bar>round_double x\<bar> \<le> (1 + unit_roundoff) * \<bar>x\<bar>"
    and "(1 - unit_roundoff) * \<bar>x\<bar> \<le> \<bar>round_double x\<bar>"
  using round_double_relative [OF assms] by (simp_all add: algebra_simps abs_if split: if_splits)

lemma overflow_threshold_pos: "0 < overflow_threshold"
  by (simp only: overflow_threshold_def powr_gt_zero)

lemma double_zero [simp]: "double (Num 0) = Num 0"
  using overflow_threshold_pos by simp

lemma double_normal:
  assumes "min_normal \<le> \<bar>x\<bar>" "(1 + unit_roundoff) * \<bar>x\<bar> < overflow_threshold"
  shows "\<exists>y. double (Num x) = Num y \<and> \<bar>y - x\<bar> \<le> unit_roundoff * \<bar>x\<bar>"
proof -
  have "\<bar>round_double x\<bar> < overflow_threshold"
    using round_double_bound(1) [OF assms(1)] assms(2) by linarith
  then show ?thesis using round_double_relative [OF assms(1)] by simp
qed

lemma round_double_exact:
  assumes "x = real_of_int m * 2 powr real_of_int e" "\<bar>m\<bar> < 2 ^ 53" "- 1074 \<le> e"
  shows "round_double x = x"
proof (cases "m = 0")
  case True
  then show ?thesis using assms(1) by simp
next
  case False
  have x: "\<bar>x\<bar> = real_of_int \<bar>m\<bar> * 2 powr real_of_int e"
    by (simp add: assms(1) abs_mult)
  have m1: "1 \<le> real_of_int \<bar>m\<bar>" using False by linarith
  have m2: "real_of_int \<bar>m\<bar> < 2 powr 53"
  proof -
    have "real_of_int \<bar>m\<bar> < real_of_int (2 ^ 53)" using assms(2) by linarith
    then show ?thesis by simp
  qed
  have pos: "0 < \<bar>x\<bar>" using m1 by (simp add: x)
  have "\<bar>x\<bar> < 2 powr 53 * 2 powr real_of_int e"
    unfolding x using m2 by (intro mult_strict_right_mono) simp_all
  also have "\<dots> = 2 powr (real_of_int (e + 53))" by (simp add: powr_add)
  finally have "log 2 \<bar>x\<bar> < real_of_int (e + 53)"
    using pos by (simp add: log_less_iff)
  then have "\<lfloor>log 2 \<bar>x\<bar>\<rfloor> < e + 53" by (simp add: floor_less_iff)
  then have b: "binade x - 52 \<le> e" using assms(3) by (simp add: binade_def)
  define u where "u = ulp x"
  define c where "c = binade x"
  define n where "n = nat (e - (c - 52))"
  have u: "u = 2 powr (real_of_int c - 52)" "0 < u" by (simp_all add: u_def c_def ulp_def)
  have n: "real_of_int e = real_of_int c - 52 + real n"
    using b by (simp add: n_def c_def)
  have "2 powr real_of_int e = u * 2 powr real n"
    unfolding u n by (rule powr_add)
  then have "2 powr real_of_int e = u * 2 ^ n" by (simp add: powr_realpow)
  then have q: "x = real_of_int (m * 2 ^ n) * u"
    by (simp add: assms(1))
  then have "x / u = real_of_int (m * 2 ^ n)" using u(2) by simp
  then have "round_half_even (x / u) = m * 2 ^ n" by (simp only: round_half_even_int)
  then have "real_of_int (round_half_even (x / u)) * u = x" using q by simp
  then show ?thesis by (simp add: round_double_def u_def)
qed

lemma double_exact:
  assumes "x = real_of_int m * 2 powr real_of_int e" "\<bar>m\<bar> < 2 ^ 53" "- 1074 \<le> e"
    "\<bar>x\<bar> < overflow_threshold"
  shows "double (Num x) = Num x"
  using round_double_exact [OF assms(1-3)] assms(4) by simp

lemma double_int:
  assumes "\<bar>m\<bar> < 2 ^ 53"
  shows "double (Num (real_of_int m)) = Num (real_of_int m)"
proof (rule double_exact [of _ m 0])
  have "\<bar>real_of_int m\<bar> < real_of_int (2 ^ 53)" using assms by linarith
  also have "\<dots> = 2 powr 53" by simp
  also have "\<dots> \<le> overflow_threshold"
    unfolding overflow_threshold_def by (rule powr_mono) simp_all
  finally show "\<bar>real_of_int m\<bar> < overflow_threshold" .
qed (use assms in simp_all)

lemma double_numeral [simp]:
  "numeral n < (2 :: int) ^ 53 \<Longrightarrow> double (Num (numeral n)) = Num (numeral n)"
  using double_int [of "numeral n"] by simp

lemma double_one [simp]: "double (Num 1) = Num 1"
  using double_int [of 1] by simp

lemma cube_bounds:
  fixes u :: real
  assumes "0 < u" "u \<le> 1 / 8"
  shows "1 + u \<le> (1 + 8 * u) * (1 - u) ^ 3" and "(1 - 8 * u) * (1 + u) ^ 3 \<le> 1 - u"
proof -
  have u2: "0 \<le> u * u" "u * u \<le> u / 8"
    using assms by (simp_all add: mult_left_le)
  have u3: "0 \<le> u * u * u" "u * u * u \<le> u * u"
    using assms u2 by (simp_all add: mult_left_le)
  have u4: "0 \<le> u * u * u * u" "u * u * u * u \<le> u * u * u"
    using assms u3 by (simp_all add: mult_left_le)
  have "(1 + 8 * u) * (1 - u) ^ 3 - (1 + u) = 4 * u - 21 * (u * u) + 23 * (u * u * u) - 8 * (u * u * u * u)"
    by (simp add: power3_eq_cube algebra_simps)
  then show "1 + u \<le> (1 + 8 * u) * (1 - u) ^ 3" using u2 u3 u4 assms by linarith
  have "(1 - u) - (1 - 8 * u) * (1 + u) ^ 3 = 4 * u + 21 * (u * u) + 23 * (u * u * u) + 8 * (u * u * u * u)"
    by (simp add: power3_eq_cube algebra_simps)
  then show "(1 - 8 * u) * (1 + u) ^ 3 \<le> 1 - u" using u2 u3 u4 assms by linarith
qed

lemma self_quotient:
  fixes s r p c u :: real
  assumes u: "0 < u" "u \<le> 1 / 8" and s: "0 < s"
    and r: "\<bar>r - sqrt s\<bar> \<le> u * sqrt s"
    and p: "\<bar>p - r * r\<bar> \<le> u * (r * r)"
    and c: "\<bar>c - s / p\<bar> \<le> u * \<bar>s / p\<bar>"
  shows "\<bar>c - 1\<bar> \<le> 8 * u"
proof -
  define q where "q = sqrt s"
  have q: "0 < q" "q * q = s" using s by (simp_all add: q_def)
  have lo: "0 < 1 - u" and hi: "0 < 1 + u" using u by simp_all
  have r1: "(1 - u) * q \<le> r" "r \<le> (1 + u) * q"
    using r unfolding q_def [symmetric] by (simp_all add: abs_le_iff algebra_simps)
  have rpos: "0 < r" using r1(1) lo q(1) by (smt (verit) mult_pos_pos)
  have rr1: "(1 - u) ^ 2 * s \<le> r * r"
  proof -
    have "0 \<le> (1 - u) * q" using lo q(1) by simp
    then have "((1 - u) * q) * ((1 - u) * q) \<le> r * r"
      using r1(1) rpos by (intro mult_mono) simp_all
    moreover have "((1 - u) * q) * ((1 - u) * q) = (1 - u) ^ 2 * s"
      unfolding q(2) [symmetric] by (simp add: power2_eq_square)
    ultimately show ?thesis by simp
  qed
  have rr2: "r * r \<le> (1 + u) ^ 2 * s"
  proof -
    have "r * r \<le> ((1 + u) * q) * ((1 + u) * q)"
      using r1(2) rpos by (intro mult_mono) simp_all
    moreover have "((1 + u) * q) * ((1 + u) * q) = (1 + u) ^ 2 * s"
      unfolding q(2) [symmetric] by (simp add: power2_eq_square)
    ultimately show ?thesis by simp
  qed
  have rrpos: "0 < r * r" using rpos by simp
  have p1: "(1 - u) * (r * r) \<le> p" "p \<le> (1 + u) * (r * r)"
    using p by (simp_all add: abs_le_iff algebra_simps)
  have p2: "(1 - u) ^ 3 * s \<le> p"
  proof -
    have "(1 - u) * ((1 - u) ^ 2 * s) \<le> (1 - u) * (r * r)"
      using rr1 lo by (intro mult_left_mono) simp_all
    then show ?thesis using p1(1) by (simp add: power3_eq_cube power2_eq_square algebra_simps)
  qed
  have p3: "p \<le> (1 + u) ^ 3 * s"
  proof -
    have "(1 + u) * (r * r) \<le> (1 + u) * ((1 + u) ^ 2 * s)"
      using rr2 hi by (intro mult_left_mono) simp_all
    then show ?thesis using p1(2) by (simp add: power3_eq_cube power2_eq_square algebra_simps)
  qed
  have ppos: "0 < p" using p2 lo s by (smt (verit) mult_pos_pos zero_less_power)
  define t where "t = s / p"
  have tpos: "0 < t" using s ppos by (simp add: t_def)
  have t1: "t * (1 - u) ^ 3 \<le> 1"
  proof -
    have "s * (1 - u) ^ 3 \<le> p" using p2 by (simp add: mult.commute)
    then show ?thesis using ppos by (simp add: t_def field_simps)
  qed
  have t2: "1 \<le> t * (1 + u) ^ 3"
  proof -
    have "p \<le> s * (1 + u) ^ 3" using p3 by (simp add: mult.commute)
    then show ?thesis using ppos by (simp add: t_def field_simps)
  qed
  have c1: "(1 - u) * t \<le> c" "c \<le> (1 + u) * t"
    using c tpos unfolding t_def [symmetric] by (simp_all add: abs_le_iff algebra_simps)
  have k1: "0 < (1 - u) ^ 3" and k2: "0 < (1 + u) ^ 3" using lo hi by simp_all
  have "c * (1 - u) ^ 3 \<le> (1 + u) * (t * (1 - u) ^ 3)"
    using c1(2) k1 by (simp add: mult.assoc [symmetric] mult_right_mono)
  also have "\<dots> \<le> 1 + u" using t1 hi by (simp add: mult_left_le)
  also have "\<dots> \<le> (1 + 8 * u) * (1 - u) ^ 3" using cube_bounds(1) [OF u] .
  finally have up: "c \<le> 1 + 8 * u" using k1 by simp
  have "(1 - 8 * u) * (1 + u) ^ 3 \<le> 1 - u" using cube_bounds(2) [OF u] .
  also have "\<dots> \<le> (1 - u) * (t * (1 + u) ^ 3)" using t2 lo by simp
  also have "\<dots> \<le> c * (1 + u) ^ 3"
    using c1(1) k2 by (simp add: mult.assoc [symmetric] mult_right_mono)
  finally have "1 - 8 * u \<le> c" using k2 by simp
  then show ?thesis using up by (simp add: abs_le_iff)
qed

lemma unit_roundoff_bounds: "0 < unit_roundoff" "unit_roundoff \<le> 1 / 8"
proof -
  show "0 < unit_roundoff" by (simp add: unit_roundoff_def)
  have "(2 :: real) powr (- 53) \<le> 2 powr (- 3)" by (rule powr_mono) simp_all
  also have "\<dots> = 1 / 8" by (simp add: powr_minus_divide)
  finally show "unit_roundoff \<le> 1 / 8" by (simp only: unit_roundoff_def)
qed

lemma double_mid:
  assumes "2 powr (- 1003) \<le> x" "x \<le> 2 powr 1003"
  shows "\<exists>y. double (Num x) = Num y \<and> \<bar>y - x\<bar> \<le> unit_roundoff * x"
proof -
  have "(0 :: real) < 2 powr (- 1003)" by simp
  then have x: "0 < x" using assms(1) by linarith
  have "min_normal \<le> 2 powr (- 1003)"
    unfolding min_normal_def by (rule powr_mono) simp_all
  then have 1: "min_normal \<le> \<bar>x\<bar>" using assms(1) x by linarith
  have "(1 + unit_roundoff) * x \<le> 2 * 2 powr 1003"
    using unit_roundoff_bounds assms(2) x by (intro mult_mono) simp_all
  also have "\<dots> = 2 powr 1004" using powr_add [of "2 :: real" 1 1003] by simp
  also have "\<dots> < overflow_threshold"
    unfolding overflow_threshold_def by (rule powr_less_mono) simp_all
  finally have 2: "(1 + unit_roundoff) * \<bar>x\<bar> < overflow_threshold" using x by simp
  from double_normal [OF 1 2] show ?thesis using x by simp
qed

lemma sqrt_between:
  assumes "a \<le> 1" "1 \<le> b" "a \<le> s" "s \<le> b" "0 < a"
  shows "a \<le> sqrt s" "sqrt s \<le> b"
proof -
  have s: "0 < s" using assms by linarith
  show "a \<le> sqrt s"
  proof (cases "1 \<le> s")
    case True
    then have "1 \<le> sqrt s" by simp
    then show ?thesis using assms(1) by linarith
  next
    case False
    then have "sqrt s \<le> 1" by simp
    then have "s \<le> sqrt s" using mult_left_le [of "sqrt s" "sqrt s"] s by simp
    then show ?thesis using assms(3) by linarith
  qed
  show "sqrt s \<le> b"
  proof (cases "1 \<le> s")
    case True
    then have "1 \<le> sqrt s" by simp
    then have "sqrt s \<le> s" using mult_left_mono [of 1 "sqrt s" "sqrt s"] s by simp
    then show ?thesis using assms(4) by linarith
  next
    case False
    then have "sqrt s \<le> 1" by simp
    then show ?thesis using assms(2) by linarith
  qed
qed

lemma powr_steps:
  "(2 :: real) powr (- 1000) \<le> 1" "(1 :: real) \<le> 2 powr 1000"
  "(2 :: real) powr (- 1003) = 2 powr (- 1000) / 8" "(2 :: real) powr 1003 = 8 * 2 powr 1000"
  "(2 :: real) powr (- 1003) \<le> 1 / 8" "(8 :: real) \<le> 2 powr 1003"
proof -
  show a: "(2 :: real) powr (- 1000) \<le> 1" using powr_mono [of "- 1000" 0 "2 :: real"] by simp
  show b: "(1 :: real) \<le> 2 powr 1000" using powr_mono [of 0 1000 "2 :: real"] by simp
  have e: "(2 :: real) powr 3 = 8" "(2 :: real) powr (- 3) = 1 / 8"
    by (simp_all add: powr_minus_divide)
  show c: "(2 :: real) powr (- 1003) = 2 powr (- 1000) / 8"
    using powr_add [of "2 :: real" "- 1000" "- 3"] e by simp
  show d: "(2 :: real) powr 1003 = 8 * 2 powr 1000"
    using powr_add [of "2 :: real" 3 1000] e by simp
  show "(2 :: real) powr (- 1003) \<le> 1 / 8" using a c by simp
  show "(8 :: real) \<le> 2 powr 1003" using b d by simp
qed

lemma double_near:
  assumes "2 powr real_of_int k \<le> \<bar>x\<bar>" "\<bar>x\<bar> < 2 powr (real_of_int k + 1)"
    "- 1022 \<le> k" "k < 1022"
    and "\<bar>x / 2 powr (real_of_int k - 52) - real_of_int m\<bar> < 1 / 2"
  shows "double (Num x) = Num (real_of_int m * 2 powr (real_of_int k - 52))"
proof -
  define w :: real where "w = 2 powr (real_of_int k - 52)"
  have w: "0 < w" by (simp add: w_def)
  have e: "2 powr (real_of_int k + 1) = 2 powr 53 * w"
    unfolding w_def using powr_add [of "2 :: real" 53 "real_of_int k - 52"]
    by (simp add: add.commute)
  have r: "round_double x = real_of_int m * w"
    unfolding w_def using assms(1,2,3,5) by (rule round_double_near)
  have "\<bar>x\<bar> / w < 2 powr 53" using assms(2) w unfolding e by (simp add: field_simps)
  moreover have "\<bar>x / w - real_of_int m\<bar> < 1 / 2" using assms(5) by (simp add: w_def)
  moreover have "\<bar>x / w\<bar> = \<bar>x\<bar> / w" using w by simp
  ultimately have "\<bar>real_of_int m\<bar> < 2 powr 53 + 1 / 2" by linarith
  then have "\<bar>real_of_int m\<bar> * w \<le> (2 powr 53 + 1 / 2) * w"
    using w by (intro mult_right_mono) simp_all
  also have "\<dots> \<le> (2 powr 53 + 2 powr 53) * w"
    using w by (intro mult_right_mono add_left_mono) simp_all
  also have "\<dots> = 2 powr (real_of_int k + 2)"
    unfolding w_def using powr_add [of "2 :: real" 54 "real_of_int k - 52"]
    by (simp add: add.commute)
  also have "\<dots> < overflow_threshold"
    unfolding overflow_threshold_def using assms(4) by (intro powr_less_mono) simp_all
  finally have "\<bar>real_of_int m * w\<bar> < overflow_threshold" using w by (simp add: abs_mult)
  then show ?thesis using r by (simp add: w_def)
qed

lemma double_of_NaN [simp]:
  "dadd NaN b = NaN" "dadd a NaN = NaN" "dsub NaN b = NaN" "dsub a NaN = NaN"
  "dmul NaN b = NaN" "dmul a NaN = NaN" "ddiv NaN b = NaN" "ddiv a NaN = NaN"
  "dsqrt NaN = NaN"
  by (cases a; simp add: dadd_def dsub_def dmul_def ddiv_def dsqrt_def jsub_def)+

section \<open>Facts about k-means\<close>

lemma upt_1_3: "[Suc 0..<3] = [1, 2]"
  by code_simp

lemma upt_0_2: "[0..<2] = [0, 1]"
  by code_simp

lemma upt_0_3: "[0..<3] = [0, 1, 2]"
  by code_simp

lemma draw_range: "0 \<le> draw rnd i \<and> draw rnd i < 1"
  unfolding draw_def using Rep_unit_interval [of "rnd i"] by simp

lemma draw_rnd_const [simp]: "draw (rnd_const c) i = (if 0 \<le> c \<and> c < 1 then c else 0)"
  by (simp add: draw_def rnd_const_def unit_of.rep_eq)

lemma draw_rnd_list [simp]:
  "draw (rnd_list cs) i = (if i < length cs \<and> 0 \<le> cs ! i \<and> cs ! i < 1 then cs ! i else 0)"
  by (simp add: draw_def rnd_list_def unit_of.rep_eq)

lemma random_index_in_range:
  assumes "0 < n"
  shows "0 \<le> \<lfloor>draw rnd i * real n\<rfloor> \<and> \<lfloor>draw rnd i * real n\<rfloor> < int n"
proof -
  have r: "0 \<le> draw rnd i" "draw rnd i < 1" using draw_range by auto
  have "0 \<le> draw rnd i * real n" using r by simp
  moreover have "draw rnd i * real n < real n" using r assms by simp
  ultimately show ?thesis by (simp add: floor_less_iff)
qed

lemma jmin2_PInf: "x \<noteq> NaN \<Longrightarrow> jmin2 PInf x = x"
  by (cases x) (simp_all add: jmin2_def)

lemma jmin2_cases: "a \<noteq> NaN \<Longrightarrow> b \<noteq> NaN \<Longrightarrow> jmin2 a b = a \<or> jmin2 a b = b"
  by (simp add: jmin2_def)

lemma fold_jmin2_mem:
  "m \<noteq> NaN \<Longrightarrow> NaN \<notin> set xs \<Longrightarrow> fold (\<lambda>x m. jmin2 m x) xs m \<in> insert m (set xs)"
proof (induction xs arbitrary: m)
  case Nil
  then show ?case by simp
next
  case (Cons x xs)
  have "jmin2 m x = m \<or> jmin2 m x = x" using Cons.prems by (intro jmin2_cases) auto
  moreover have "jmin2 m x \<noteq> NaN" using Cons.prems calculation by auto
  ultimately show ?case using Cons.IH [of "jmin2 m x"] Cons.prems by auto
qed

lemma Math_min_mem: "xs \<noteq> [] \<Longrightarrow> NaN \<notin> set xs \<Longrightarrow> Math_min xs \<in> set xs"
proof (cases xs)
  case Nil
  then show "xs \<noteq> [] \<Longrightarrow> ?thesis" by simp
next
  case (Cons x ys)
  assume n: "NaN \<notin> set xs"
  then have "x \<noteq> NaN" using Cons by auto
  then have "Math_min xs = fold (\<lambda>x m. jmin2 m x) ys x"
    by (simp add: Math_min_def Cons jmin2_PInf)
  moreover have "fold (\<lambda>x m. jmin2 m x) ys x \<in> insert x (set ys)"
    using n Cons \<open>x \<noteq> NaN\<close> by (intro fold_jmin2_mem) auto
  ultimately show ?thesis using Cons by simp
qed

lemma indexOf_from_range:
  "x \<in> set xs \<Longrightarrow> x \<noteq> NaN \<Longrightarrow> i \<le> indexOf_from i xs x \<and> indexOf_from i xs x < i + int (length xs)"
proof (induction xs arbitrary: i)
  case Nil
  then show ?case by simp
next
  case (Cons y ys)
  show ?case
  proof (cases "strict_eq y x")
    case True
    then show ?thesis by simp
  next
    case False
    then have "x \<in> set ys" using Cons.prems by (auto simp: strict_eq_def)
    from Cons.IH [OF this Cons.prems(2), of "i + 1"] False show ?thesis by simp
  qed
qed

lemma closest_in_range:
  assumes "xs \<noteq> []" "NaN \<notin> set xs"
  shows "0 \<le> indexOf xs (Math_min xs) \<and> indexOf xs (Math_min xs) < int (length xs)"
proof -
  have "Math_min xs \<in> set xs" using assms by (rule Math_min_mem)
  moreover have "Math_min xs \<noteq> NaN" using calculation assms by auto
  ultimately show ?thesis using indexOf_from_range [of "Math_min xs" xs 0] by (simp add: indexOf_def)
qed

lemma isFinite_Num: "isFinite x \<longleftrightarrow> (\<exists>r. x = Num r)"
  by (cases x) (simp_all add: isFinite_def)

lemma finite_vec_elt: "finite_vec v \<Longrightarrow> i < length v \<Longrightarrow> \<exists>r. elt v i = Num r"
  by (simp add: finite_vec_def elt_def isFinite_Num)

lemma finite_vec_nth: "finite_vec v \<Longrightarrow> i < length v \<Longrightarrow> \<exists>r. v ! i = Num r"
  by (simp add: finite_vec_def isFinite_Num)

lemma fold_squares_Num:
  assumes "\<And>i. i \<in> set is \<Longrightarrow> \<exists>r. f i = Num r" "0 \<le> s"
  shows "\<exists>t. 0 \<le> t \<and> fold (\<lambda>i sum. let diff = f i in jadd sum (jmul diff diff)) is (Num s) = Num t"
  using assms
proof (induction "is" arbitrary: s)
  case Nil
  then show ?case by simp
next
  case (Cons i "is")
  obtain r where r: "f i = Num r" using Cons.prems(1) by auto
  have "0 \<le> s + r * r" using Cons.prems(2) by simp
  from Cons.IH [OF _ this] Cons.prems(1) r show ?case by (simp add: Let_def)
qed

lemma euclideanDistance_not_NaN:
  assumes "finite_vec a" "\<And>b'. b = Some b' \<Longrightarrow> finite_vec b'"
  shows "euclideanDistance a b \<noteq> NaN"
proof (cases b)
  case None
  then show ?thesis by (simp add: euclideanDistance_def)
next
  case (Some b')
  show ?thesis
  proof (cases "length a = length b'")
    case False
    then show ?thesis by (simp add: euclideanDistance_def Some)
  next
    case True
    have "\<And>i. i \<in> set [0..<length a] \<Longrightarrow> \<exists>r. jsub (elt a i) (elt b' i) = Num r"
    proof -
      fix i assume "i \<in> set [0..<length a]"
      then have i: "i < length a" "i < length b'" using True by auto
      obtain x y where "elt a i = Num x" "elt b' i = Num y"
        using finite_vec_elt [OF assms(1) i(1)] finite_vec_elt [OF assms(2) [OF Some] i(2)] by auto
      then show "\<exists>r. jsub (elt a i) (elt b' i) = Num r" by (simp add: jsub_def)
    qed
    from fold_squares_Num [of "[0..<length a]" "\<lambda>i. jsub (elt a i) (elt b' i)" 0, OF this]
    obtain t where "0 \<le> t"
      "fold (\<lambda>i sum. let diff = jsub (elt a i) (elt b' i) in jadd sum (jmul diff diff))
            [0..<length a] (Num 0) = Num t" by auto
    then show ?thesis by (simp add: euclideanDistance_def Some True)
  qed
qed

lemma euclideanDist_not_NaN:
  assumes "finite_vec a" "finite_vec b" "length a \<le> length b"
  shows "euclideanDist a b \<noteq> NaN"
proof -
  have "\<And>i. i \<in> set [0..<length a] \<Longrightarrow> \<exists>r. jsub (a ! i) (elt b i) = Num r"
  proof -
    fix i assume "i \<in> set [0..<length a]"
    then have i: "i < length a" "i < length b" using assms(3) by auto
    obtain x y where "a ! i = Num x" "elt b i = Num y"
      using finite_vec_nth [OF assms(1) i(1)] finite_vec_elt [OF assms(2) i(2)] by auto
    then show "\<exists>r. jsub (a ! i) (elt b i) = Num r" by (simp add: jsub_def)
  qed
  from fold_squares_Num [of "[0..<length a]" "\<lambda>i. jsub (a ! i) (elt b i)" 0, OF this]
  obtain t where "0 \<le> t"
    "fold (\<lambda>i sum. let diff = jsub (a ! i) (elt b i) in jadd sum (jmul diff diff))
          [0..<length a] (Num 0) = Num t" by auto
  then show ?thesis by (simp add: euclideanDist_def)
qed

lemma assign_points_range:
  assumes cs: "cs \<noteq> []"
    and nn: "\<And>i c. i < length vectors \<Longrightarrow> c \<in> set cs \<Longrightarrow> dfun (vectors ! i) c \<noteq> NaN"
    and len: "length asg = length vectors"
    and rng: "\<forall>a\<in>set asg. 0 \<le> a \<and> a < int (length cs)"
  shows "length (fst (assign_points dfun vectors cs asg)) = length vectors \<and>
         (\<forall>a\<in>set (fst (assign_points dfun vectors cs asg)). 0 \<le> a \<and> a < int (length cs))"
  unfolding assign_points_def
proof (rule fold_invariant [where Q = "\<lambda>i. i < length vectors"
        and P = "\<lambda>s. length (fst s) = length vectors \<and> (\<forall>a\<in>set (fst s). 0 \<le> a \<and> a < int (length cs))"])
  show "\<And>x. x \<in> set [0..<length vectors] \<Longrightarrow> x < length vectors" by simp
  show "length (fst (asg, False)) = length vectors \<and>
        (\<forall>a\<in>set (fst (asg, False)). 0 \<le> a \<and> a < int (length cs))"
    using len rng by simp
next
  fix i and s :: "int list \<times> bool"
  assume i: "i < length vectors"
    and P: "length (fst s) = length vectors \<and> (\<forall>a\<in>set (fst s). 0 \<le> a \<and> a < int (length cs))"
  let ?dists = "map (\<lambda>c. dfun (vectors ! i) c) cs"
  have "?dists \<noteq> []" using cs by simp
  moreover have "NaN \<notin> set ?dists" using nn [OF i] by (auto simp: image_iff) metis
  ultimately have c: "0 \<le> indexOf ?dists (Math_min ?dists) \<and>
                     indexOf ?dists (Math_min ?dists) < int (length cs)"
    using closest_in_range [of ?dists] by simp
  obtain a ch where s: "s = (a, ch)" by (cases s)
  have "\<forall>x\<in>set (a[i := indexOf ?dists (Math_min ?dists)]). 0 \<le> x \<and> x < int (length cs)"
    using P c s by (auto dest!: set_update_subset_insert [THEN subsetD])
  then show "length (fst (case s of (a, changed) \<Rightarrow>
                 let dists = map (dfun (vectors ! i)) cs; closestCentroid = indexOf dists (Math_min dists)
                 in if a ! i \<noteq> closestCentroid then (a[i := closestCentroid], True) else (a, changed)))
             = length vectors \<and>
        (\<forall>a\<in>set (fst (case s of (a, changed) \<Rightarrow>
                 let dists = map (dfun (vectors ! i)) cs; closestCentroid = indexOf dists (Math_min dists)
                 in if a ! i \<noteq> closestCentroid then (a[i := closestCentroid], True) else (a, changed))).
            0 \<le> a \<and> a < int (length cs))"
    using P s by (simp add: Let_def)
qed

lemma update_centroids_length [simp]:
  "length (update_centroids mean vectors k asg cs) = length cs"
  unfolding update_centroids_def
  by (rule fold_invariant [where Q = "\<lambda>_. True"]) (simp_all add: Let_def)

lemma assigned_to_subset: "set (assigned_to vectors asg j) \<subseteq> set vectors"
  by (auto simp: assigned_to_def dest: set_zip_leftD)

lemma update_centroids_inv:
  assumes "\<forall>c\<in>set cs. I c"
    and "\<And>vs. vs \<noteq> [] \<Longrightarrow> set vs \<subseteq> set vectors \<Longrightarrow> I (mean vs)"
  shows "\<forall>c\<in>set (update_centroids mean vectors k asg cs). I c"
  unfolding update_centroids_def
proof (rule fold_invariant [where Q = "\<lambda>_. True"])
  show "\<forall>c\<in>set cs. I c" by fact
next
  fix j and cs' :: "'a list"
  assume P: "\<forall>c\<in>set cs'. I c"
  have "assigned_to vectors asg j \<noteq> [] \<Longrightarrow> I (mean (assigned_to vectors asg j))"
    using assms(2) assigned_to_subset by blast
  then show "\<forall>c\<in>set (let assignedVectors = assigned_to vectors asg j
                    in if 0 < length assignedVectors then cs'[j := mean assignedVectors] else cs'). I c"
    using P by (auto simp: Let_def dest!: set_update_subset_insert [THEN subsetD])
qed simp

lemma next_index_range:
  "0 < length vectors \<Longrightarrow>
   0 \<le> next_index dfun u vectors cs \<and> next_index dfun u vectors cs < int (length vectors)"
  by (simp add: next_index_def Let_def min_def)

lemma seed_centroids_fold:
  assumes "\<And>i. 0 \<le> i \<Longrightarrow> i < int (length vectors) \<Longrightarrow> I (pickv i)" "0 < length vectors"
    and "\<forall>c\<in>set cs0. I c"
  shows "length (fold (\<lambda>i cs. cs @ [pickv (next_index dfun (draw rnd i) vectors cs)]) is cs0)
           = length cs0 + length is \<and>
         (\<forall>c\<in>set (fold (\<lambda>i cs. cs @ [pickv (next_index dfun (draw rnd i) vectors cs)]) is cs0). I c)"
  using assms(3)
proof (induction "is" arbitrary: cs0)
  case Nil
  then show ?case by simp
next
  case (Cons i "is")
  have "I (pickv (next_index dfun (draw rnd i) vectors cs0))"
    using next_index_range [OF assms(2)] assms(1) by blast
  then have "\<forall>c\<in>set (cs0 @ [pickv (next_index dfun (draw rnd i) vectors cs0)]). I c"
    using Cons.prems by auto
  from Cons.IH [OF this] show ?case by simp
qed

lemma seed_centroids_inv:
  assumes "\<And>i. 0 \<le> i \<Longrightarrow> i < int (length vectors) \<Longrightarrow> I (pickv i)" "0 < length vectors"
  shows "length (seed_centroids dfun pickv rnd vectors k) = max 1 k \<and>
         (\<forall>c\<in>set (seed_centroids dfun pickv rnd vectors k). I c)"
proof -
  have "I (pickv \<lfloor>draw rnd 0 * real (length vectors)\<rfloor>)"
    using random_index_in_range [OF assms(2)] assms(1) by blast
  then have "\<forall>c\<in>set [pickv \<lfloor>draw rnd 0 * real (length vectors)\<rfloor>]. I c" by simp
  from seed_centroids_fold [of vectors I pickv, OF assms(1) assms(2) this, of dfun rnd "[1..<k]"]
  show ?thesis unfolding seed_centroids_def by auto
qed

lemma kmeans_iteration_inv:
  assumes inv: "kmeans_inv I (length vectors) k s" and k: "0 < k"
    and nn: "\<And>i c. i < length vectors \<Longrightarrow> I c \<Longrightarrow> dfun (vectors ! i) c \<noteq> NaN"
    and mean: "\<And>vs. vs \<noteq> [] \<Longrightarrow> set vs \<subseteq> set vectors \<Longrightarrow> I (mean vs)"
  shows "kmeans_inv I (length vectors) k (kmeans_iteration dfun mean vectors k s)"
proof -
  obtain asg ch where a: "assign_points dfun vectors (st_centroids s) (st_assignments s) = (asg, ch)"
    by (cases "assign_points dfun vectors (st_centroids s) (st_assignments s)")
  have cs: "st_centroids s \<noteq> []" using inv k by (auto simp: kmeans_inv_def)
  have "length (fst (assign_points dfun vectors (st_centroids s) (st_assignments s))) = length vectors \<and>
        (\<forall>a\<in>set (fst (assign_points dfun vectors (st_centroids s) (st_assignments s))).
           0 \<le> a \<and> a < int (length (st_centroids s)))"
    using inv nn by (intro assign_points_range [OF cs]) (auto simp: kmeans_inv_def)
  then have asg: "length asg = length vectors" "\<forall>a\<in>set asg. 0 \<le> a \<and> a < int k"
    using a inv by (auto simp: kmeans_inv_def)
  have "\<forall>c\<in>set (update_centroids mean vectors k asg (st_centroids s)). I c"
    using inv mean by (intro update_centroids_inv) (auto simp: kmeans_inv_def)
  then show ?thesis using asg inv by (simp add: kmeans_iteration_def a kmeans_inv_def)
qed

lemma kmeans_iteration_count [simp]:
  "st_iterations (kmeans_iteration dfun mean vectors k s) = Suc (st_iterations s)"
  by (simp add: kmeans_iteration_def split: prod.splits)

lemma kmeans_loop_inv:
  assumes "kmeans_inv I (length vectors) k s" "0 < k"
    and "\<And>i c. i < length vectors \<Longrightarrow> I c \<Longrightarrow> dfun (vectors ! i) c \<noteq> NaN"
    and "\<And>vs. vs \<noteq> [] \<Longrightarrow> set vs \<subseteq> set vectors \<Longrightarrow> I (mean vs)"
  shows "kmeans_inv I (length vectors) k (kmeans_loop dfun mean vectors k iterations s)"
  using assms
proof (induction dfun mean vectors k iterations s rule: kmeans_loop.induct)
  case (1 dfun mean vectors k iterations s)
  show ?case
  proof (cases "st_changed s \<and> st_iterations s < iterations")
    case True
    have "kmeans_inv I (length vectors) k (kmeans_iteration dfun mean vectors k s)"
      using "1.prems" by (intro kmeans_iteration_inv) auto
    from "1.IH" [OF True this "1.prems"(2-)] True show ?thesis
      by (subst kmeans_loop.simps) simp
  next
    case False
    then show ?thesis using "1.prems"(1) by (subst kmeans_loop.simps) auto
  qed
qed

lemma length_assigned_to:
  "length asg = length vectors \<Longrightarrow>
   length (assigned_to vectors asg j) = length (filter (\<lambda>a. a = int j) asg)"
  unfolding assigned_to_def
  by (induction asg vectors rule: list_induct2) auto

lemma sum_cluster_sizes:
  assumes "\<forall>a\<in>set asg. 0 \<le> a \<and> a < int k"
  shows "(\<Sum>j<k. length (filter (\<lambda>a. a = int j) asg)) = length asg"
  using assms
proof (induction asg)
  case Nil
  then show ?case by simp
next
  case (Cons a asg)
  then have a: "0 \<le> a" "a < int k" by auto
  have "(\<Sum>j<k. length (filter (\<lambda>b. b = int j) (a # asg)))
        = (\<Sum>j<k. (if j = nat a then 1 else 0) + length (filter (\<lambda>b. b = int j) asg))"
    using a by (intro sum.cong) auto
  also have "\<dots> = (\<Sum>j<k. (if j = nat a then 1 else 0)) + (\<Sum>j<k. length (filter (\<lambda>b. b = int j) asg))"
    by (simp add: sum.distrib)
  also have "(\<Sum>j<k. (if j = nat a then 1 else 0 :: nat)) = 1"
    using a by simp
  finally show ?case using Cons by simp
qed

lemma fold_jadd_Num:
  "fold (\<lambda>v acc. jadd acc (Num (f v))) vs (Num s) = Num (s + (\<Sum>v\<leftarrow>vs. f v))"
  by (induction vs arbitrary: s) (simp_all add: add.assoc)

lemma fold_jadd_cong:
  "(\<And>v. v \<in> set vs \<Longrightarrow> g v = h v) \<Longrightarrow>
   fold (\<lambda>v acc. jadd acc (g v)) vs a = fold (\<lambda>v acc. jadd acc (h v)) vs a"
  by (induction vs arbitrary: a) simp_all

lemma finite_vec_elt_eq: "finite_vec v \<Longrightarrow> i < length v \<Longrightarrow> elt v i = Num (the_real (v ! i))"
  using finite_vec_nth [of v i] by (auto simp: elt_def)

lemma average_vector_uniform:
  assumes "vs \<noteq> []" "\<forall>v\<in>set vs. finite_vec v \<and> length v = d"
  shows "average_vector vs =
           Some (map (\<lambda>i. Num ((\<Sum>v\<leftarrow>vs. the_real (v ! i)) / real (length vs))) [0..<d])"
proof -
  obtain v0 vs' where vs: "vs = v0 # vs'" using assms(1) by (cases vs) auto
  have d: "length v0 = d" using assms(2) vs by simp
  have "\<And>i. i < d \<Longrightarrow>
          fold (\<lambda>vector acc. jadd acc (jdiv (elt vector i) (Num (real (length vs))))) vs (Num 0)
          = Num ((\<Sum>v\<leftarrow>vs. the_real (v ! i)) / real (length vs))"
  proof -
    fix i assume i: "i < d"
    have "fold (\<lambda>vector acc. jadd acc (jdiv (elt vector i) (Num (real (length vs))))) vs (Num 0)
          = fold (\<lambda>vector acc. jadd acc (Num (the_real (vector ! i) / real (length vs)))) vs (Num 0)"
      using assms i by (intro fold_jadd_cong) (simp add: finite_vec_elt_eq)
    also have "\<dots> = Num (0 + (\<Sum>v\<leftarrow>vs. the_real (v ! i) / real (length vs)))"
      by (rule fold_jadd_Num)
    also have "(\<Sum>v\<leftarrow>vs. the_real (v ! i) / real (length vs))
               = (\<Sum>v\<leftarrow>vs. the_real (v ! i)) / real (length vs)"
      using sum_list_mult_const [of "\<lambda>v. the_real (v ! i)" "inverse (real (length vs))" vs]
      by (simp add: divide_inverse)
    finally show "fold (\<lambda>vector acc. jadd acc (jdiv (elt vector i) (Num (real (length vs))))) vs (Num 0)
          = Num ((\<Sum>v\<leftarrow>vs. the_real (v ! i)) / real (length vs))" by simp
  qed
  then show ?thesis unfolding vs [symmetric]
    by (subst vs, simp only: average_vector.simps Let_def d, unfold vs [symmetric]) simp
qed

lemma mean_point_uniform:
  assumes "vs \<noteq> []" "\<forall>v\<in>set vs. finite_vec v \<and> length v = d"
  shows "mean_point d vs =
           map (\<lambda>i. Num ((\<Sum>v\<leftarrow>vs. the_real (v ! i)) / real (length vs))) [0..<d]"
proof -
  have "\<And>i. i < d \<Longrightarrow>
          jdiv (fold (\<lambda>p sum. jadd sum (elt p i)) vs (Num 0)) (Num (real (length vs)))
          = Num ((\<Sum>v\<leftarrow>vs. the_real (v ! i)) / real (length vs))"
  proof -
    fix i assume i: "i < d"
    have "fold (\<lambda>p sum. jadd sum (elt p i)) vs (Num 0)
          = fold (\<lambda>p sum. jadd sum (Num (the_real (p ! i)))) vs (Num 0)"
      using assms i by (intro fold_jadd_cong) (simp add: finite_vec_elt_eq)
    also have "\<dots> = Num (0 + (\<Sum>v\<leftarrow>vs. the_real (v ! i)))" by (rule fold_jadd_Num)
    finally show "jdiv (fold (\<lambda>p sum. jadd sum (elt p i)) vs (Num 0)) (Num (real (length vs)))
          = Num ((\<Sum>v\<leftarrow>vs. the_real (v ! i)) / real (length vs))"
      using assms(1) by simp
  qed
  then show ?thesis by (simp add: mean_point_def)
qed

lemma finite_vec_map_Num [simp]: "finite_vec (map (\<lambda>i. Num (f i)) xs)"
  by (simp add: finite_vec_def isFinite_def)

lemma kMeansWithVectors_run_inv:
  assumes "0 < k" "k \<le> length vectors" "\<forall>v\<in>set vectors. finite_vec v \<and> length v = d"
  shows "kmeans_inv (\<lambda>c. \<forall>c'. c = Some c' \<longrightarrow> finite_vec c') (length vectors) k
           (kMeansWithVectors_run rnd vectors k iterations)"
  unfolding kMeansWithVectors_run_def
proof (rule kmeans_loop_inv)
  let ?I = "\<lambda>c. \<forall>c'. c = Some c' \<longrightarrow> finite_vec c'"
  have n: "0 < length vectors" using assms(1,2) by linarith
  have "\<And>i. 0 \<le> i \<Longrightarrow> i < int (length vectors) \<Longrightarrow> ?I (at_index vectors i)"
    using assms(3) by (auto simp: at_index_def)
  from seed_centroids_inv [of vectors ?I "at_index vectors", OF this n, of euclideanDistance rnd k]
  show "kmeans_inv ?I (length vectors) k
          (kmeans_initial_state (seed_centroids euclideanDistance (at_index vectors) rnd vectors k)
             (length vectors))"
    using assms(1) by (simp add: kmeans_inv_def kmeans_initial_state_def max_def)
  show "0 < k" by fact
  show "\<And>i c. i < length vectors \<Longrightarrow> ?I c \<Longrightarrow> euclideanDistance (vectors ! i) c \<noteq> NaN"
    using assms(3) by (intro euclideanDistance_not_NaN) auto
  show "\<And>vs. vs \<noteq> [] \<Longrightarrow> set vs \<subseteq> set vectors \<Longrightarrow> ?I (average_vector vs)"
  proof -
    fix vs :: "vector list" assume vs: "vs \<noteq> []" "set vs \<subseteq> set vectors"
    then have "\<forall>v\<in>set vs. finite_vec v \<and> length v = d" using assms(3) by auto
    from average_vector_uniform [OF vs(1) this] show "?I (average_vector vs)" by simp
  qed
qed

lemma kmeans_run_inv:
  assumes "0 < k" "k \<le> length pts" "\<forall>v\<in>set pts. finite_vec v \<and> length v = d"
  shows "kmeans_inv (\<lambda>c. finite_vec c \<and> length c = d) (length pts) k
           (kmeans_run rnd pts k maxIterations)"
proof -
  let ?I = "\<lambda>c. finite_vec c \<and> length c = d"
  have n: "0 < length pts" using assms(1,2) by linarith
  then have d: "length (pts ! 0) = d" using assms(3) by simp
  have "kmeans_inv ?I (length pts) k
          (kmeans_loop euclideanDist (mean_point d) pts k maxIterations
            (kmeans_initial_state
              (seed_centroids euclideanDist (\<lambda>i. pts ! nat i) rnd pts k) (length pts)))"
  proof (rule kmeans_loop_inv)
    have "\<And>i. 0 \<le> i \<Longrightarrow> i < int (length pts) \<Longrightarrow> ?I (pts ! nat i)"
      using assms(3) by simp
    from seed_centroids_inv [of pts ?I "\<lambda>i. pts ! nat i", OF this n, of euclideanDist rnd k]
    show "kmeans_inv ?I (length pts) k
            (kmeans_initial_state (seed_centroids euclideanDist (\<lambda>i. pts ! nat i) rnd pts k)
               (length pts))"
      using assms(1) by (simp add: kmeans_inv_def kmeans_initial_state_def max_def)
    show "0 < k" by fact
    show "\<And>i c. i < length pts \<Longrightarrow> ?I c \<Longrightarrow> euclideanDist (pts ! i) c \<noteq> NaN"
      using assms(3) by (intro euclideanDist_not_NaN) auto
    show "\<And>vs. vs \<noteq> [] \<Longrightarrow> set vs \<subseteq> set pts \<Longrightarrow> ?I (mean_point d vs)"
    proof -
      fix vs :: "vector list" assume vs: "vs \<noteq> []" "set vs \<subseteq> set pts"
      then have "\<forall>v\<in>set vs. finite_vec v \<and> length v = d" using assms(3) by auto
      from mean_point_uniform [OF vs(1) this] show "?I (mean_point d vs)" by simp
    qed
  qed
  then show ?thesis by (simp add: kmeans_run_def Let_def d)
qed

lemma kmeans_loop_rounds:
  "st_iterations s \<le> cap \<Longrightarrow>
   \<exists>m. st_iterations s + m \<le> cap \<and>
       kmeans_loop dfun mean vectors k cap s = (kmeans_iteration dfun mean vectors k ^^ m) s \<and>
       (\<forall>i<m. st_changed ((kmeans_iteration dfun mean vectors k ^^ i) s)) \<and>
       (st_iterations s + m < cap \<longrightarrow>
          \<not> st_changed ((kmeans_iteration dfun mean vectors k ^^ m) s))"
proof (induction dfun mean vectors k cap s rule: kmeans_loop.induct)
  case (1 dfun mean vectors k cap s)
  let ?step = "kmeans_iteration dfun mean vectors k"
  show ?case
  proof (cases "st_changed s \<and> st_iterations s < cap")
    case True
    then have "st_iterations (?step s) \<le> cap" by simp
    from "1.IH" [OF True this] obtain m where m:
      "st_iterations (?step s) + m \<le> cap"
      "kmeans_loop dfun mean vectors k cap (?step s) = (?step ^^ m) (?step s)"
      "\<forall>i<m. st_changed ((?step ^^ i) (?step s))"
      "st_iterations (?step s) + m < cap \<longrightarrow> \<not> st_changed ((?step ^^ m) (?step s))"
      by blast
    have l: "kmeans_loop dfun mean vectors k cap s = (?step ^^ Suc m) s"
      using True m(2) by (subst kmeans_loop.simps) (simp add: funpow_swap1)
    have a: "\<forall>i<Suc m. st_changed ((?step ^^ i) s)"
    proof (intro allI impI)
      fix i assume "i < Suc m"
      then show "st_changed ((?step ^^ i) s)"
        using True m(3) by (cases i) (simp_all add: funpow_swap1)
    qed
    have "st_iterations s + Suc m \<le> cap" using m(1) by simp
    moreover have "st_iterations s + Suc m < cap \<longrightarrow> \<not> st_changed ((?step ^^ Suc m) s)"
      using m(4) by (simp add: funpow_swap1)
    ultimately show ?thesis using l a by blast
  next
    case False
    have "kmeans_loop dfun mean vectors k cap s = (?step ^^ 0) s"
      using False by (subst kmeans_loop.simps) auto
    moreover have "st_iterations s + 0 < cap \<longrightarrow> \<not> st_changed ((?step ^^ 0) s)"
      using False by auto
    ultimately show ?thesis using "1.prems" by (intro exI [of _ 0]) simp
  qed
qed

lemma kMeansWithVectors_stops:
  "\<exists>m. stops_after (kMeansWithVectors_rounds rnd vectors k) cap m \<and>
       kMeansWithVectors_run rnd vectors k cap = kMeansWithVectors_rounds rnd vectors k m"
proof -
  let ?s0 = "kmeans_initial_state
          (seed_centroids euclideanDistance (at_index vectors) rnd vectors k) (length vectors)"
  have "st_iterations ?s0 \<le> cap" by (simp add: kmeans_initial_state_def)
  from kmeans_loop_rounds [OF this, of euclideanDistance average_vector vectors k]
  show ?thesis
    by (auto simp: stops_after_def kMeansWithVectors_rounds_def kMeansWithVectors_run_def
                   kmeans_initial_state_def)
qed

lemma kmeans_stops:
  "\<exists>m. stops_after (kmeans_rounds rnd pts k) cap m \<and>
       kmeans_run rnd pts k cap = kmeans_rounds rnd pts k m"
proof -
  let ?s0 = "kmeans_initial_state
          (seed_centroids euclideanDist (\<lambda>i. pts ! nat i) rnd pts k) (length pts)"
  have "st_iterations ?s0 \<le> cap" by (simp add: kmeans_initial_state_def)
  from kmeans_loop_rounds [OF this, of euclideanDist "mean_point (length (pts ! 0))" pts k]
  show ?thesis
    by (auto simp: stops_after_def kmeans_rounds_def kmeans_run_def Let_def
                   kmeans_initial_state_def)
qed

lemma partitions_from_inv:
  assumes "kmeans_inv I (length vectors) k s"
  shows "partitions vectors k (st_assignments s)"
proof -
  have len: "length (st_assignments s) = length vectors"
    and rng: "\<forall>a\<in>set (st_assignments s). 0 \<le> a \<and> a < int k"
    using assms(1) by (auto simp: kmeans_inv_def)
  have "(\<Sum>j<k. length (assigned_to vectors (st_assignments s) j))
        = (\<Sum>j<k. length (filter (\<lambda>a. a = int j) (st_assignments s)))"
    using len by (simp add: length_assigned_to)
  also have "\<dots> = length (st_assignments s)" using rng by (rule sum_cluster_sizes)
  finally show ?thesis using len rng by (simp add: partitions_def list_all_iff)
qed


lemma sqrt_squares: "sqrt 9 = 3" "sqrt 16 = 4" "sqrt 49 = 7"
  by (rule real_sqrt_unique; simp)+

lemma distances_1d:
  "euclideanDistance [Num x] (Some [Num y]) = Num \<bar>x - y\<bar>"
  "euclideanDist [Num x] [Num y] = Num \<bar>x - y\<bar>"
  by (simp_all add: euclideanDistance_def euclideanDist_def elt_def jsub_def Let_def not_less)

lemma seed_two:
  "seed_centroids euclideanDistance (at_index [[Num 0], [Num 3], [Num 4]])
     (rnd_list [0, 1 / 2]) [[Num 0], [Num 3], [Num 4]] 2 = [Some [Num 0], Some [Num 4]]"
  "seed_centroids euclideanDist (\<lambda>i. [[Num 0], [Num 3], [Num 4]] ! nat i)
     (rnd_list [0, 1 / 2]) [[Num 0], [Num 3], [Num 4]] 2 = [[Num 0], [Num 4]]"
proof -
  have u: "[1..<2] = [1]" by code_simp
  show "seed_centroids euclideanDistance (at_index [[Num 0], [Num 3], [Num 4]])
     (rnd_list [0, 1 / 2]) [[Num 0], [Num 3], [Num 4]] 2 = [Some [Num 0], Some [Num 4]]"
    unfolding seed_centroids_def u
    by (simp add: next_index_def at_index_def distances_1d Math_min_def jmin2_def jgt_def jsub_def)
  show "seed_centroids euclideanDist (\<lambda>i. [[Num 0], [Num 3], [Num 4]] ! nat i)
     (rnd_list [0, 1 / 2]) [[Num 0], [Num 3], [Num 4]] 2 = [[Num 0], [Num 4]]"
    unfolding seed_centroids_def u
    by (simp add: next_index_def distances_1d Math_min_def jmin2_def jgt_def jsub_def)
qed

lemma assign_first:
  "assign_points euclideanDistance [[Num 0], [Num 3], [Num 4]] [Some [Num 0], Some [Num 4]] [0, 0, 0]
     = ([0, 1, 1], True)"
  "assign_points euclideanDist [[Num 0], [Num 3], [Num 4]] [[Num 0], [Num 4]] [0, 0, 0]
     = ([0, 1, 1], True)"
  by (simp_all add: assign_points_def upt_0_3 distances_1d Math_min_def jmin2_def indexOf_def
        strict_eq_def Let_def)

lemma assign_second:
  "assign_points euclideanDistance [[Num 0], [Num 3], [Num 4]] [Some [Num 0], Some [Num (7 / 2)]]
     [0, 1, 1] = ([0, 1, 1], False)"
  "assign_points euclideanDist [[Num 0], [Num 3], [Num 4]] [[Num 0], [Num (7 / 2)]] [0, 1, 1]
     = ([0, 1, 1], False)"
  by (simp_all add: assign_points_def upt_0_3 distances_1d Math_min_def jmin2_def indexOf_def
        strict_eq_def Let_def)

lemma update_two:
  "update_centroids average_vector [[Num 0], [Num 3], [Num 4]] 2 [0, 1, 1] [c0, c1]
     = [Some [Num 0], Some [Num (7 / 2)]]"
  "update_centroids (mean_point (Suc 0)) [[Num 0], [Num 3], [Num 4]] 2 [0, 1, 1] [d0, d1]
     = [[Num 0], [Num (7 / 2)]]"
  by (simp_all add: update_centroids_def upt_0_2 assigned_to_def mean_point_def elt_def Let_def)

lemma rounds_two:
  fixes vs :: "vector list" and rnd :: random_source
  defines "vs \<equiv> [[Num 0], [Num 3], [Num 4]]"
  defines "rnd \<equiv> rnd_list [0, 1 / 2]"
  shows "kMeansWithVectors_rounds rnd vs 2 0
         = \<lparr>st_centroids = [Some [Num 0], Some [Num 4]], st_assignments = [0, 0, 0],
            st_iterations = 0, st_changed = True\<rparr>"
    and "kMeansWithVectors_rounds rnd vs 2 (Suc 0)
         = \<lparr>st_centroids = [Some [Num 0], Some [Num (7 / 2)]], st_assignments = [0, 1, 1],
            st_iterations = 1, st_changed = True\<rparr>"
    and "kMeansWithVectors_rounds rnd vs 2 (Suc (Suc 0))
         = \<lparr>st_centroids = [Some [Num 0], Some [Num (7 / 2)]], st_assignments = [0, 1, 1],
            st_iterations = 2, st_changed = False\<rparr>"
    and "kmeans_rounds rnd vs 2 0
         = \<lparr>st_centroids = [[Num 0], [Num 4]], st_assignments = [0, 0, 0],
            st_iterations = 0, st_changed = True\<rparr>"
    and "kmeans_rounds rnd vs 2 (Suc 0)
         = \<lparr>st_centroids = [[Num 0], [Num (7 / 2)]], st_assignments = [0, 1, 1],
            st_iterations = 1, st_changed = True\<rparr>"
    and "kmeans_rounds rnd vs 2 (Suc (Suc 0))
         = \<lparr>st_centroids = [[Num 0], [Num (7 / 2)]], st_assignments = [0, 1, 1],
            st_iterations = 2, st_changed = False\<rparr>"
  unfolding vs_def rnd_def kMeansWithVectors_rounds_def kmeans_rounds_def
  by (simp_all add: seed_two kmeans_initial_state_def kmeans_iteration_def
        assign_first assign_second update_two)

lemma stops_after_unique:
  assumes "stops_after rounds cap m" "stops_after rounds cap m'"
  shows "m = m'"
proof (rule ccontr)
  assume "m \<noteq> m'"
  then consider "m < m'" | "m' < m" by linarith
  then show False
  proof cases
    case 1
    then have "st_changed (rounds m)" "m < cap" using assms(2) by (auto simp: stops_after_def)
    then show False using assms(1) by (simp add: stops_after_def)
  next
    case 2
    then have "st_changed (rounds m')" "m' < cap" using assms(1) by (auto simp: stops_after_def)
    then show False using assms(2) by (simp add: stops_after_def)
  qed
qed

lemma runs_two:
  fixes vs :: "vector list" and rnd :: random_source
  defines "vs \<equiv> [[Num 0], [Num 3], [Num 4]]"
  defines "rnd \<equiv> rnd_list [0, 1 / 2]"
  shows "stops_after (kMeansWithVectors_rounds rnd vs 2) 10 2"
    and "stops_after (kmeans_rounds rnd vs 2) 10 2"
    and "kMeansWithVectors_run rnd vs 2 10 = kMeansWithVectors_rounds rnd vs 2 2"
    and "kmeans_run rnd vs 2 10 = kmeans_rounds rnd vs 2 2"
proof -
  have two: "i < 2 \<longleftrightarrow> i = 0 \<or> i = Suc 0" for i :: nat by auto
  have e: "kMeansWithVectors_rounds r v k 2 = kMeansWithVectors_rounds r v k (Suc (Suc 0))"
    "kmeans_rounds r v k 2 = kmeans_rounds r v k (Suc (Suc 0))" for r v k
    by (simp_all add: numeral_2_eq_2)
  show s1: "stops_after (kMeansWithVectors_rounds rnd vs 2) 10 2"
    unfolding stops_after_def two vs_def rnd_def e
    by (simp add: rounds_two(1,2,3))
  show s2: "stops_after (kmeans_rounds rnd vs 2) 10 2"
    unfolding stops_after_def two vs_def rnd_def e
    by (simp add: rounds_two(4,5,6))
  obtain m where m: "stops_after (kMeansWithVectors_rounds rnd vs 2) 10 m"
    "kMeansWithVectors_run rnd vs 2 10 = kMeansWithVectors_rounds rnd vs 2 m"
    using kMeansWithVectors_stops by blast
  have "m = 2" using m(1) s1 by (rule stops_after_unique)
  then show "kMeansWithVectors_run rnd vs 2 10 = kMeansWithVectors_rounds rnd vs 2 2"
    using m(2) by simp
  obtain m' where m': "stops_after (kmeans_rounds rnd vs 2) 10 m'"
    "kmeans_run rnd vs 2 10 = kmeans_rounds rnd vs 2 m'"
    using kmeans_stops by blast
  have "m' = 2" using m'(1) s2 by (rule stops_after_unique)
  then show "kmeans_run rnd vs 2 10 = kmeans_rounds rnd vs 2 2"
    using m'(2) by simp
qed

text \<open>
  Claim C3. On \<open>n\<close> vectors of finite numbers of one dimension and \<open>1 \<le> k \<le> n\<close>,
  both k-means functions return a result whose assignments are one integer in
  \<open>[0, k)\<close> per point, with member counts of the \<open>k\<close> clusters that sum to \<open>n\<close>. The
  result is the state after exactly \<open>m\<close> rounds of the loop, for an \<open>m\<close> within the
  cap: every earlier round changed an assignment, and round \<open>m\<close> changed none unless it
  is round number \<open>cap\<close>.
\<close>

theorem kmeans_terminates_and_partitions:
  assumes "0 < k" "k \<le> length vectors" "uniform_vectors d vectors"
  shows "returns_partition vectors k (kMeansWithVectors rnd vectors k cap) \<and>
         (\<exists>m. stops_after (kMeansWithVectors_rounds rnd vectors k) cap m \<and>
              returned (kMeansWithVectors rnd vectors k cap)
                       (kMeansWithVectors_rounds rnd vectors k m)) \<and>
         returns_partition vectors k (kmeans rnd vectors k cap) \<and>
         (\<exists>m. stops_after (kmeans_rounds rnd vectors k) cap m \<and>
              returned (kmeans rnd vectors k cap) (kmeans_rounds rnd vectors k m))"
proof -
  have u: "\<forall>v\<in>set vectors. finite_vec v \<and> length v = d"
    using assms(3) by (simp add: uniform_vectors_def)
  have ne: "vectors \<noteq> []" using assms(1,2) by auto
  have p1: "partitions vectors k (st_assignments (kMeansWithVectors_run rnd vectors k cap))"
    using kMeansWithVectors_run_inv [OF assms(1,2) u] by (rule partitions_from_inv)
  have p2: "partitions vectors k (st_assignments (kmeans_run rnd vectors k cap))"
    using kmeans_run_inv [OF assms(1,2) u] by (rule partitions_from_inv)
  have r1: "returns_partition vectors k (kMeansWithVectors rnd vectors k cap)"
    using p1 assms(2) by (simp add: returns_partition_def kMeansWithVectors_def result_of_def)
  have r2: "returns_partition vectors k (kmeans rnd vectors k cap)"
    using p2 ne by (simp add: returns_partition_def kmeans_def result_of_def)
  obtain m1 where m1: "stops_after (kMeansWithVectors_rounds rnd vectors k) cap m1"
    "kMeansWithVectors_run rnd vectors k cap = kMeansWithVectors_rounds rnd vectors k m1"
    using kMeansWithVectors_stops by blast
  obtain m2 where m2: "stops_after (kmeans_rounds rnd vectors k) cap m2"
    "kmeans_run rnd vectors k cap = kmeans_rounds rnd vectors k m2"
    using kmeans_stops by blast
  have "returned (kMeansWithVectors rnd vectors k cap) (kMeansWithVectors_rounds rnd vectors k m1)"
    using assms(2) m1(2) by (simp add: returned_def kMeansWithVectors_def result_of_def)
  moreover have "returned (kmeans rnd vectors k cap) (kmeans_rounds rnd vectors k m2)"
    using ne m2(2) by (simp add: returned_def kmeans_def result_of_def)
  ultimately show ?thesis using r1 r2 m1(1) m2(1) by blast
qed

theorem kmeans_terminates_and_partitions_witness:
  "0 < (2 :: nat) \<and> 2 \<le> length [[Num 0], [Num 3], [Num 4]] \<and>
   uniform_vectors 1 [[Num 0], [Num 3], [Num 4]] \<and>
   returns_partition [[Num 0], [Num 3], [Num 4]] 2
     (kMeansWithVectors (rnd_list [0, 1 / 2]) [[Num 0], [Num 3], [Num 4]] 2 10) \<and>
   returns_partition [[Num 0], [Num 3], [Num 4]] 2
     (kmeans (rnd_list [0, 1 / 2]) [[Num 0], [Num 3], [Num 4]] 2 10) \<and>
   stops_after (kMeansWithVectors_rounds (rnd_list [0, 1 / 2]) [[Num 0], [Num 3], [Num 4]] 2) 10 2 \<and>
   stops_after (kmeans_rounds (rnd_list [0, 1 / 2]) [[Num 0], [Num 3], [Num 4]] 2) 10 2 \<and>
   kMeansWithVectors (rnd_list [0, 1 / 2]) [[Num 0], [Num 3], [Num 4]] 2 10
     = Inr \<lparr>centroids = [Some [Num 0], Some [Num (7 / 2)]], assignments = [0, 1, 1]\<rparr> \<and>
   kmeans (rnd_list [0, 1 / 2]) [[Num 0], [Num 3], [Num 4]] 2 10
     = Inr \<lparr>centroids = [[Num 0], [Num (7 / 2)]], assignments = [0, 1, 1]\<rparr>"
proof -
  let ?vs = "[[Num 0], [Num 3], [Num 4]] :: vector list"
  let ?rnd = "rnd_list [0, 1 / 2]"
  have h: "0 < (2 :: nat)" "2 \<le> length ?vs" "uniform_vectors 1 ?vs"
    by (simp_all add: uniform_vectors_def finite_vec_def isFinite_def)
  note t = kmeans_terminates_and_partitions [OF h, of ?rnd 10]
  obtain m where m: "stops_after (kMeansWithVectors_rounds ?rnd ?vs 2) 10 m"
    "returned (kMeansWithVectors ?rnd ?vs 2 10) (kMeansWithVectors_rounds ?rnd ?vs 2 m)"
    using t by blast
  obtain m' where m': "stops_after (kmeans_rounds ?rnd ?vs 2) 10 m'"
    "returned (kmeans ?rnd ?vs 2 10) (kmeans_rounds ?rnd ?vs 2 m')"
    using t by blast
  have e: "kMeansWithVectors_rounds r v k 2 = kMeansWithVectors_rounds r v k (Suc (Suc 0))"
    "kmeans_rounds r v k 2 = kmeans_rounds r v k (Suc (Suc 0))" for r v k
    by (simp_all add: numeral_2_eq_2)
  have "m = 2" using m(1) runs_two(1) by (rule stops_after_unique)
  then have r1: "kMeansWithVectors ?rnd ?vs 2 10
     = Inr \<lparr>centroids = [Some [Num 0], Some [Num (7 / 2)]], assignments = [0, 1, 1]\<rparr>"
    using m(2) by (simp add: returned_def e rounds_two(3))
  have "m' = 2" using m'(1) runs_two(2) by (rule stops_after_unique)
  then have r2: "kmeans ?rnd ?vs 2 10
     = Inr \<lparr>centroids = [[Num 0], [Num (7 / 2)]], assignments = [0, 1, 1]\<rparr>"
    using m'(2) by (simp add: returned_def e rounds_two(6))
  show ?thesis using h t r1 r2 runs_two(1,2) by blast
qed

lemma assign_points_single:
  assumes "\<And>i. i < length vectors \<Longrightarrow> dfun (vectors ! i) c0 \<noteq> NaN"
  shows "assign_points dfun vectors [c0] (replicate (length vectors) 0)
           = (replicate (length vectors) 0, False)"
  unfolding assign_points_def
proof (rule fold_invariant [where Q = "\<lambda>i. i < length vectors"
        and P = "\<lambda>s. s = (replicate (length vectors) 0, False)"])
  fix i and s :: "int list \<times> bool"
  assume i: "i < length vectors" and s: "s = (replicate (length vectors) 0, False)"
  let ?dists = "map (\<lambda>c. dfun (vectors ! i) c) [c0]"
  have "0 \<le> indexOf ?dists (Math_min ?dists) \<and> indexOf ?dists (Math_min ?dists) < int (length ?dists)"
    using assms [OF i] by (intro closest_in_range) auto
  then have "indexOf ?dists (Math_min ?dists) = 0" by simp
  then show "(case s of (a, changed) \<Rightarrow>
                 let dists = map (dfun (vectors ! i)) [c0]; closestCentroid = indexOf dists (Math_min dists)
                 in if a ! i \<noteq> closestCentroid then (a[i := closestCentroid], True) else (a, changed))
             = (replicate (length vectors) 0, False)"
    using i s by (simp add: Let_def)
qed simp_all

lemma assigned_to_all: "assigned_to vectors (replicate (length vectors) 0) 0 = vectors"
proof -
  have "\<And>n. n = length vectors \<Longrightarrow>
          map fst (filter (\<lambda>(v, a). a = 0) (zip vectors (replicate n (0::int)))) = vectors"
    by (induction vectors) auto
  then show ?thesis by (simp add: assigned_to_def)
qed

lemma kmeans_loop_single_cluster:
  assumes "vectors \<noteq> []" "0 < iterations"
    "\<And>i. i < length vectors \<Longrightarrow> dfun (vectors ! i) c0 \<noteq> NaN"
  shows "kmeans_loop dfun mean vectors 1 iterations (kmeans_initial_state [c0] (length vectors))
         = \<lparr>st_centroids = [mean vectors], st_assignments = replicate (length vectors) 0,
            st_iterations = 1, st_changed = False\<rparr>"
proof -
  have ap: "assign_points dfun vectors [c0] (replicate (length vectors) 0)
           = (replicate (length vectors) 0, False)"
    using assms(3) by (rule assign_points_single)
  have it: "kmeans_iteration dfun mean vectors 1 (kmeans_initial_state [c0] (length vectors))
        = \<lparr>st_centroids = [mean vectors], st_assignments = replicate (length vectors) 0,
            st_iterations = 1, st_changed = False\<rparr>"
    using assms(1)
    by (simp add: kmeans_iteration_def kmeans_initial_state_def ap
                  update_centroids_def assigned_to_all)
  let ?s0 = "kmeans_initial_state [c0] (length vectors)"
  let ?s1 = "\<lparr>st_centroids = [mean vectors], st_assignments = replicate (length vectors) 0,
            st_iterations = 1, st_changed = False\<rparr>"
  have go: "st_changed ?s0 \<and> st_iterations ?s0 < iterations"
    using assms(2) by (simp add: kmeans_initial_state_def)
  have "kmeans_loop dfun mean vectors 1 iterations ?s0
        = kmeans_loop dfun mean vectors 1 iterations (kmeans_iteration dfun mean vectors 1 ?s0)"
    using go by (subst kmeans_loop.simps) simp
  also have "\<dots> = kmeans_loop dfun mean vectors 1 iterations ?s1" by (simp only: it)
  also have "\<dots> = ?s1" by (subst kmeans_loop.simps) simp
  finally show ?thesis .
qed

lemma seed_centroids_single:
  "seed_centroids dfun pickv rnd vectors 1 = [pickv \<lfloor>draw rnd 0 * real (length vectors)\<rfloor>]"
  by (simp add: seed_centroids_def)

lemma single_cluster_results:
  assumes "vectors \<noteq> []" "\<forall>v\<in>set vectors. finite_vec v \<and> length v = d" "0 < iterations"
  shows "kMeansWithVectors rnd vectors 1 iterations
           = Inr \<lparr>centroids = [Some (mean_of vectors)],
                  assignments = replicate (length vectors) 0\<rparr>"
    and "kmeans rnd vectors 1 iterations
           = Inr \<lparr>centroids = [mean_of vectors], assignments = replicate (length vectors) 0\<rparr>"
    and "\<exists>v\<in>set vectors. seed_centroids euclideanDistance (at_index vectors) rnd vectors 1 = [Some v]"
proof -
  have n: "0 < length vectors" using assms(1) by simp
  let ?idx = "\<lfloor>draw rnd 0 * real (length vectors)\<rfloor>"
  have idx: "0 \<le> ?idx" "?idx < int (length vectors)" using random_index_in_range [OF n] by auto
  then have seed: "at_index vectors ?idx = Some (vectors ! nat ?idx)" by (simp add: at_index_def)
  have "nat ?idx < length vectors" using idx by linarith
  then have mem: "vectors ! nat ?idx \<in> set vectors" by (rule nth_mem)
  have hd: "length (hd vectors) = d" using assms(1,2) by simp
  have "length (pts ! 0) = d" if "pts = vectors" for pts using that assms(1,2) by simp
  then have d0: "length (vectors ! 0) = d" by simp
  have 1: "\<And>i. i < length vectors \<Longrightarrow>
             euclideanDistance (vectors ! i) (Some (vectors ! nat ?idx)) \<noteq> NaN"
    using assms(2) mem by (intro euclideanDistance_not_NaN) auto
  have 2: "\<And>i. i < length vectors \<Longrightarrow> euclideanDist (vectors ! i) (vectors ! nat ?idx) \<noteq> NaN"
    using assms(2) mem by (intro euclideanDist_not_NaN) auto
  have run1: "kMeansWithVectors_run rnd vectors 1 iterations
        = \<lparr>st_centroids = [average_vector vectors], st_assignments = replicate (length vectors) 0,
            st_iterations = 1, st_changed = False\<rparr>"
    unfolding kMeansWithVectors_run_def seed_centroids_single seed
    using assms(1,3) 1 by (rule kmeans_loop_single_cluster)
  have run2: "kmeans_run rnd vectors 1 iterations
        = \<lparr>st_centroids = [mean_point d vectors], st_assignments = replicate (length vectors) 0,
            st_iterations = 1, st_changed = False\<rparr>"
    unfolding kmeans_run_def seed_centroids_single Let_def d0
    using assms(1,3) 2 by (rule kmeans_loop_single_cluster)
  show "kMeansWithVectors rnd vectors 1 iterations
           = Inr \<lparr>centroids = [Some (mean_of vectors)],
                  assignments = replicate (length vectors) 0\<rparr>"
    unfolding kMeansWithVectors_def run1 result_of_def using n
    by (simp add: average_vector_uniform [OF assms(1,2)] mean_of_def hd)
  show "kmeans rnd vectors 1 iterations
           = Inr \<lparr>centroids = [mean_of vectors], assignments = replicate (length vectors) 0\<rparr>"
    unfolding kmeans_def run2 result_of_def using assms(1)
    by (simp add: mean_point_uniform [OF assms(1,2)] mean_of_def hd)
  show "\<exists>v\<in>set vectors. seed_centroids euclideanDistance (at_index vectors) rnd vectors 1 = [Some v]"
    unfolding seed_centroids_single seed using mem by blast
qed

text \<open>
  Claim C8, as amended. With \<open>k = 1\<close>, at least one iteration and a non-empty list of
  vectors of finite numbers of one dimension, both k-means functions return exactly one
  centroid, the coordinate-wise mean of all the vectors, and assign every point to it;
  the k-means++ seed the loop starts from is one of the input vectors.
\<close>

theorem single_cluster_centroid_is_mean:
  assumes "vectors \<noteq> []" "uniform_vectors d vectors" "0 < iterations"
  shows "kMeansWithVectors rnd vectors 1 iterations
           = Inr \<lparr>centroids = [Some (mean_of vectors)],
                  assignments = replicate (length vectors) 0\<rparr> \<and>
         kmeans rnd vectors 1 iterations
           = Inr \<lparr>centroids = [mean_of vectors], assignments = replicate (length vectors) 0\<rparr> \<and>
         (\<exists>v\<in>set vectors.
            seed_centroids euclideanDistance (at_index vectors) rnd vectors 1 = [Some v])"
  using single_cluster_results [of vectors d iterations rnd] assms
  by (simp add: uniform_vectors_def)

theorem single_cluster_centroid_is_mean_witness:
  "[[Num 0], [Num 2]] \<noteq> [] \<and> uniform_vectors 1 [[Num 0], [Num 2]] \<and>
   0 < (50::nat) \<and>
   kMeansWithVectors (rnd_const 0) [[Num 0], [Num 2]] 1 50
     = Inr \<lparr>centroids = [Some [Num 1]], assignments = [0, 0]\<rparr> \<and>
   kmeans (rnd_const 0) [[Num 0], [Num 2]] 1 50
     = Inr \<lparr>centroids = [[Num 1]], assignments = [0, 0]\<rparr>"
  using single_cluster_centroid_is_mean [of "[[Num 0], [Num 2]]" 1 50 "rnd_const 0"]
  by (simp add: uniform_vectors_def finite_vec_def isFinite_def mean_of_def numeral_2_eq_2)

text \<open>
  Claim C8 as stated fails: for the vectors \<open>[0]\<close> and \<open>[2]\<close> the centroid returned
  is \<open>[1]\<close>, which is neither of them.
\<close>

theorem single_cluster_centroid_counterexample:
  "kMeansWithVectors (rnd_const 0) [[Num 0], [Num 2]] 1 50
     = Inr \<lparr>centroids = [Some [Num 1]], assignments = [0, 0]\<rparr> \<and>
   kmeans (rnd_const 0) [[Num 0], [Num 2]] 1 50
     = Inr \<lparr>centroids = [[Num 1]], assignments = [0, 0]\<rparr> \<and>
   [Num 1] \<notin> set [[Num 0], [Num 2]]"
  using single_cluster_results (1,2) [of "[[Num 0], [Num 2]]" 1 50 "rnd_const 0"]
  by (simp add: uniform_vectors_def finite_vec_def isFinite_def mean_of_def numeral_2_eq_2)

lemma seed3: "seed_centroids euclideanDist (\<lambda>i. [[Num 0, Num 0]] ! nat i) (rnd_const 0) [[Num 0, Num 0]] 3
   = [[Num 0, Num 0], [Num 0, Num 0], [Num 0, Num 0]]"
  by (simp add: seed_centroids_def upt_1_3 next_index_def Math_min_def jmin2_def euclideanDist_def
       elt_def jsub_def jgt_def Let_def upt_0_2)

text \<open>
  Claim C4. One vector and \<open>k = 3\<close>: \<open>kMeansWithVectors\<close> reports the error, while
  \<open>kmeans\<close> of dataProcessing.js, which has no such guard, returns three centroids and
  an assignment.
\<close>

theorem kmeans_without_guard:
  "kMeansWithVectors (rnd_const 0) [[Num 0, Num 0]] 3 50
     = Inl (Error ''Not enough vectors for clustering'') \<and>
   kmeans (rnd_const 0) [[Num 0, Num 0]] 3 10
     = Inr \<lparr>centroids = [[Num 0, Num 0], [Num 0, Num 0], [Num 0, Num 0]], assignments = [0]\<rparr>"
proof -
  let ?pts = "[[Num 0, Num 0]] :: vector list"
  let ?cs = "[[Num 0, Num 0], [Num 0, Num 0], [Num 0, Num 0]] :: vector list"
  let ?s0 = "kmeans_initial_state ?cs 1"
  let ?s1 = "\<lparr>st_centroids = ?cs, st_assignments = [0], st_iterations = 1, st_changed = False\<rparr>"
  have ap: "assign_points euclideanDist ?pts ?cs [0] = ([0], False)"
    by (simp add: assign_points_def Math_min_def jmin2_def euclideanDist_def indexOf_def strict_eq_def
          elt_def jsub_def Let_def upt_0_2)
  have up: "update_centroids (mean_point 2) ?pts 3 [0] ?cs = ?cs"
    by (simp add: update_centroids_def assigned_to_def mean_point_def elt_def Let_def upt_0_2 upt_0_3)
  have it: "kmeans_iteration euclideanDist (mean_point 2) ?pts 3 ?s0 = ?s1"
    by (simp add: kmeans_iteration_def kmeans_initial_state_def ap up)
  have "kmeans_loop euclideanDist (mean_point 2) ?pts 3 10 ?s0
        = kmeans_loop euclideanDist (mean_point 2) ?pts 3 10
            (kmeans_iteration euclideanDist (mean_point 2) ?pts 3 ?s0)"
    by (subst kmeans_loop.simps) (simp add: kmeans_initial_state_def)
  also have "\<dots> = kmeans_loop euclideanDist (mean_point 2) ?pts 3 10 ?s1" by (simp only: it)
  also have "\<dots> = ?s1" by (subst kmeans_loop.simps) simp
  finally have loop: "kmeans_loop euclideanDist (mean_point 2) ?pts 3 10 ?s0 = ?s1" .
  have dimn: "length (?pts ! 0) = 2" and len: "length ?pts = 1" by simp_all
  have "kmeans_run (rnd_const 0) ?pts 3 10 = ?s1"
    unfolding kmeans_run_def Let_def dimn len seed3 by (rule loop)
  then show ?thesis by (simp add: kmeans_def kMeansWithVectors_def result_of_def)
qed

section \<open>Facts about the cosine similarity\<close>

lemma loop_rounds_Arr [simp]: "loop_rounds (Arr a) = length a"
  by (simp add: loop_rounds_def vec_length_def)

lemma cosine_sums_self:
  "cosine_sums (Arr v) (Arr v) = (sum_of_squares v, sum_of_squares v, sum_of_squares v)"
proof -
  have "fold (\<lambda>i (dotProduct, normA, normB).
             (dadd dotProduct (dmul (vec_at (Arr v) i) (vec_at (Arr v) i)),
              dadd normA (dmul (vec_at (Arr v) i) (vec_at (Arr v) i)),
              dadd normB (dmul (vec_at (Arr v) i) (vec_at (Arr v) i)))) is (s, s, s)
        = (fold (\<lambda>i s. dadd s (dmul (vec_at (Arr v) i) (vec_at (Arr v) i))) is s,
           fold (\<lambda>i s. dadd s (dmul (vec_at (Arr v) i) (vec_at (Arr v) i))) is s,
           fold (\<lambda>i s. dadd s (dmul (vec_at (Arr v) i) (vec_at (Arr v) i))) is s)" for "is" s
    by (induction "is" arbitrary: s) simp_all
  moreover have "fold (\<lambda>i s. dadd s (dmul (vec_at (Arr v) i) (vec_at (Arr v) i))) [0..<length v] s
        = fold (\<lambda>x s. dadd s (dmul x x)) v s" for s
  proof -
    have "fold (\<lambda>i s. dadd s (dmul (vec_at (Arr v) i) (vec_at (Arr v) i))) [0..<length v] s
          = fold (\<lambda>x s. dadd s (dmul x x)) (map (\<lambda>i. v ! i) [0..<length v]) s"
      unfolding fold_map comp_def
      by (rule fold_cong) (simp_all add: vec_at_def elt_def)
    then show ?thesis by (simp add: map_nth)
  qed
  ultimately show ?thesis by (simp add: cosine_sums_def sum_of_squares_def)
qed

lemma quotient_near_one:
  assumes "2 powr (- 1000) \<le> s" "s \<le> 2 powr 1000"
  shows "near_one (ddiv (Num s) (dmul (dsqrt (Num s)) (dsqrt (Num s))))"
proof -
  define u where "u = unit_roundoff"
  define lo :: real where "lo = 2 powr (- 1000)"
  define hi :: real where "hi = 2 powr 1000"
  have u: "0 < u" "u \<le> 1 / 8" unfolding u_def by (rule unit_roundoff_bounds)+
  have lohi: "0 < lo" "lo \<le> 1" "1 \<le> hi" "2 powr (- 1003) = lo / 8" "2 powr 1003 = 8 * hi"
    unfolding lo_def hi_def by (simp, (rule powr_steps)+)
  have sl: "lo \<le> s" "s \<le> hi" using assms by (simp_all add: lo_def hi_def)
  have s: "0 < s" using sl lohi by linarith
  have q: "lo \<le> sqrt s" "sqrt s \<le> hi"
    using sqrt_between [OF lohi(2,3) sl lohi(1)] by simp_all
  have "\<exists>y. double (Num (sqrt s)) = Num y \<and> \<bar>y - sqrt s\<bar> \<le> unit_roundoff * sqrt s"
    using q lohi by (intro double_mid) simp_all
  then obtain r where r: "double (Num (sqrt s)) = Num r" "\<bar>r - sqrt s\<bar> \<le> u * sqrt s"
    unfolding u_def by blast
  have qpos: "0 < sqrt s" using s by simp
  have r1: "sqrt s / 2 \<le> r" "r \<le> 2 * sqrt s"
  proof -
    have "u * sqrt s \<le> 1 / 8 * sqrt s" using u(2) qpos by (intro mult_right_mono) simp_all
    then show "sqrt s / 2 \<le> r" "r \<le> 2 * sqrt s" using r(2) by (simp_all add: abs_le_iff)
  qed
  have rpos: "0 < r" using r1(1) qpos by linarith
  have rr: "s / 4 \<le> r * r" "r * r \<le> 4 * s"
  proof -
    have "(sqrt s / 2) * (sqrt s / 2) \<le> r * r" using r1(1) qpos rpos by (intro mult_mono) simp_all
    then show "s / 4 \<le> r * r" using s by simp
    have "r * r \<le> (2 * sqrt s) * (2 * sqrt s)" using r1(2) qpos rpos by (intro mult_mono) simp_all
    then show "r * r \<le> 4 * s" using s by simp
  qed
  have "\<exists>y. double (Num (r * r)) = Num y \<and> \<bar>y - r * r\<bar> \<le> unit_roundoff * (r * r)"
    using rr sl lohi by (intro double_mid) simp_all
  then obtain p where p: "double (Num (r * r)) = Num p" "\<bar>p - r * r\<bar> \<le> u * (r * r)"
    unfolding u_def by blast
  have rrpos: "0 < r * r" using rpos by simp
  have p1: "s / 8 \<le> p" "p \<le> 8 * s"
  proof -
    have "u * (r * r) \<le> 1 / 8 * (r * r)" using u(2) rrpos by (intro mult_right_mono) simp_all
    then show "s / 8 \<le> p" "p \<le> 8 * s" using p(2) rr by (simp_all add: abs_le_iff)
  qed
  have ppos: "0 < p" using p1(1) s by linarith
  have t: "1 / 8 \<le> s / p" "s / p \<le> 8"
    using p1 ppos s by (simp_all add: field_simps)
  have t': "2 powr (- 1003) \<le> s / p" "s / p \<le> 2 powr 1003"
    using t powr_steps(5,6) by linarith+
  have "\<exists>y. double (Num (s / p)) = Num y \<and> \<bar>y - s / p\<bar> \<le> unit_roundoff * (s / p)"
    using t' by (rule double_mid)
  then obtain c where c: "double (Num (s / p)) = Num c" "\<bar>c - s / p\<bar> \<le> u * (s / p)"
    unfolding u_def by blast
  have "\<bar>c - s / p\<bar> \<le> u * \<bar>s / p\<bar>" using c(2) s ppos by simp
  from self_quotient [OF u s r(2) p(2) this] have "\<bar>c - 1\<bar> \<le> 8 * unit_roundoff"
    by (simp add: u_def)
  moreover have "ddiv (Num s) (dmul (dsqrt (Num s)) (dsqrt (Num s))) = Num c"
    using s ppos by (simp add: ddiv_def dmul_def dsqrt_def r(1) p(1) c(1) del: double.simps)
  ultimately show ?thesis by (simp add: near_one_def)
qed

lemma sqrt_2_double:
  "double (Num (sqrt 2)) = Num (6369051672525773 / 4503599627370496)"
proof -
  have lo: "6369051672525772.5 / 4503599627370496 < sqrt 2"
    by (rule real_less_rsqrt) (simp add: power2_eq_square)
  have hi: "sqrt 2 < 6369051672525773.5 / 4503599627370496"
    by (rule real_less_lsqrt) (simp_all add: power2_eq_square)
  have "double (Num (sqrt 2))
        = Num (real_of_int 6369051672525773 * 2 powr (real_of_int 0 - 52))"
  proof (rule double_near)
    show "2 powr real_of_int 0 \<le> \<bar>sqrt 2\<bar>" by simp
    show "\<bar>sqrt 2\<bar> < 2 powr (real_of_int 0 + 1)"
      using real_less_lsqrt [of 2 2] by simp
    have "6369051672525773 - 1 / 2 < sqrt 2 * 4503599627370496"
      "sqrt 2 * 4503599627370496 < 6369051672525773 + 1 / 2"
      using lo hi by (simp_all add: field_simps)
    then have "\<bar>sqrt 2 * 4503599627370496 - 6369051672525773\<bar> < 1 / 2" by linarith
    then show "\<bar>sqrt 2 / 2 powr (real_of_int 0 - 52) - real_of_int 6369051672525773\<bar> < 1 / 2"
      by (simp add: powr_minus_divide)
  qed simp_all
  then show ?thesis by (simp add: powr_minus_divide)
qed

lemma square_double:
  "double (Num (6369051672525773 / 4503599627370496 * (6369051672525773 / 4503599627370496)))
   = Num (4503599627370497 / 2251799813685248)"
proof -
  let ?x = "6369051672525773 / 4503599627370496 * (6369051672525773 / 4503599627370496) :: real"
  have "double (Num ?x) = Num (real_of_int 4503599627370497 * 2 powr (real_of_int 1 - 52))"
  proof (rule double_near)
    show "2 powr real_of_int 1 \<le> \<bar>?x\<bar>" by simp
    show "\<bar>?x\<bar> < 2 powr (real_of_int 1 + 1)" by simp
    show "\<bar>?x / 2 powr (real_of_int 1 - 52) - real_of_int 4503599627370497\<bar> < 1 / 2"
      by (simp add: powr_minus_divide)
  qed simp_all
  then show ?thesis by (simp add: powr_minus_divide)
qed

lemma quotient_double:
  "double (Num (2 / (4503599627370497 / 2251799813685248)))
   = Num (4503599627370495 / 4503599627370496)"
proof -
  let ?x = "2 / (4503599627370497 / 2251799813685248) :: real"
  have "double (Num ?x) = Num (real_of_int 9007199254740990 * 2 powr (real_of_int (- 1) - 52))"
  proof (rule double_near)
    show "2 powr real_of_int (- 1) \<le> \<bar>?x\<bar>" by (simp add: powr_minus_divide)
    show "\<bar>?x\<bar> < 2 powr (real_of_int (- 1) + 1)" by simp
    show "\<bar>?x / 2 powr (real_of_int (- 1) - 52) - real_of_int 9007199254740990\<bar> < 1 / 2"
      by (simp add: powr_minus_divide)
  qed simp_all
  then show ?thesis by (simp add: powr_minus_divide)
qed

lemma sum_of_squares_ones: "sum_of_squares [Num 1, Num 1] = Num 2"
  by (simp add: sum_of_squares_def dadd_def dmul_def del: double.simps)

lemma cosineSimilarity_ones:
  "cosineSimilarity (Arr [Num 1, Num 1]) (Arr [Num 1, Num 1])
   = Num (4503599627370495 / 4503599627370496)"
proof -
  let ?r = "6369051672525773 / 4503599627370496 :: real"
  let ?p = "4503599627370497 / 2251799813685248 :: real"
  have 1: "dsqrt (Num 2) = Num ?r" by (simp add: dsqrt_def sqrt_2_double del: double.simps)
  have 2: "dmul (Num ?r) (Num ?r) = Num ?p" by (simp only: dmul_def jmul.simps square_double)
  have d: "jdiv (Num 2) (Num P) = Num (2 / P)" if "P \<noteq> 0" for P using that by simp
  have "?p \<noteq> 0" by simp
  then have "jdiv (Num 2) (Num ?p) = Num (2 / ?p)" by (rule d)
  then have 3: "ddiv (Num 2) (Num ?p) = Num (4503599627370495 / 4503599627370496)"
    by (simp only: ddiv_def quotient_double)
  have g: "\<not> strict_eq (Num 2) (Num 0)" by (simp add: strict_eq_def)
  show ?thesis
    unfolding cosineSimilarity_def cosine_sums_self sum_of_squares_ones
    by (simp only: prod.case Let_def g 1 2 3 if_False simp_thms)
qed

lemma cosine_sums_components:
  "cosine_sums vecA vecB
   = (fold (\<lambda>i s. dadd s (dmul (vec_at vecA i) (vec_at vecB i))) [0..<loop_rounds vecA] (Num 0),
      fold (\<lambda>i s. dadd s (dmul (vec_at vecA i) (vec_at vecA i))) [0..<loop_rounds vecA] (Num 0),
      fold (\<lambda>i s. dadd s (dmul (vec_at vecB i) (vec_at vecB i))) [0..<loop_rounds vecA] (Num 0))"
proof -
  have "fold (\<lambda>i (dotProduct, normA, normB).
             (dadd dotProduct (dmul (vec_at vecA i) (vec_at vecB i)),
              dadd normA (dmul (vec_at vecA i) (vec_at vecA i)),
              dadd normB (dmul (vec_at vecB i) (vec_at vecB i)))) is (d, a, b)
        = (fold (\<lambda>i s. dadd s (dmul (vec_at vecA i) (vec_at vecB i))) is d,
           fold (\<lambda>i s. dadd s (dmul (vec_at vecA i) (vec_at vecA i))) is a,
           fold (\<lambda>i s. dadd s (dmul (vec_at vecB i) (vec_at vecB i))) is b)" for "is" d a b
    by (induction "is" arbitrary: d a b) simp_all
  then show ?thesis by (simp add: cosine_sums_def)
qed

lemma fold_zero_squares:
  assumes "\<And>i. i \<in> set is \<Longrightarrow> f i = Num 0"
  shows "fold (\<lambda>i s. dadd s (dmul (f i) (f i))) is (Num 0) = Num 0"
  using assms by (induction "is") (simp_all add: dadd_def dmul_def del: double.simps)

lemma all_zero_at: "all_zero v \<Longrightarrow> i < length v \<Longrightarrow> vec_at (Arr v) i = Num 0"
  by (simp add: all_zero_def vec_at_def elt_def list_all_length)

lemma cosineSimilarity_zero:
  assumes "length a = length b" "all_zero a \<or> all_zero b"
  shows "cosineSimilarity (Arr a) (Arr b) = Num 0"
proof -
  obtain d x y where s: "cosine_sums (Arr a) (Arr b) = (d, x, y)"
    by (cases "cosine_sums (Arr a) (Arr b)")
  have "x = Num 0 \<or> y = Num 0"
  proof (rule disjE [OF assms(2)])
    assume "all_zero a"
    then have "fold (\<lambda>i s. dadd s (dmul (vec_at (Arr a) i) (vec_at (Arr a) i))) [0..<length a] (Num 0)
               = Num 0"
      by (intro fold_zero_squares) (simp add: all_zero_at)
    then show ?thesis using s by (simp add: cosine_sums_components)
  next
    assume "all_zero b"
    then have "fold (\<lambda>i s. dadd s (dmul (vec_at (Arr b) i) (vec_at (Arr b) i))) [0..<length a] (Num 0)
               = Num 0"
      using assms(1) by (intro fold_zero_squares) (simp add: all_zero_at)
    then show ?thesis using s by (simp add: cosine_sums_components)
  qed
  then show ?thesis by (auto simp: cosineSimilarity_def s strict_eq_def)
qed

lemma scale_of_small: "1 \<le> x \<Longrightarrow> x \<le> 32 \<Longrightarrow> scale_min \<le> x \<and> x \<le> scale_max"
proof -
  assume x: "1 \<le> x" "x \<le> 32"
  have "(32 :: real) = 2 powr 5" by simp
  also have "\<dots> \<le> 2 powr 1000" by (rule powr_mono) simp_all
  finally have "x \<le> scale_max" using x(2) by (simp only: scale_max_def)
  moreover have "scale_min \<le> x" unfolding scale_min_def using powr_steps(1) x(1) by linarith
  ultimately show ?thesis by simp
qed

lemma well_scaled_3_4: "well_scaled [Num 3, Num 4]"
proof -
  have "sum_of_squares [Num 3, Num 4] = Num 25"
    by (simp add: sum_of_squares_def dadd_def dmul_def del: double.simps)
  then show ?thesis using scale_of_small [of 25] by (simp add: well_scaled_def)
qed

text \<open>
  Claim C2, as amended. For arrays of finite numbers of the same length: the similarity
  of an array with itself is within \<open>2^-50\<close> of 1 when the sum of its squares, as the
  loop computes it, is a double between \<open>2^-1000\<close> and \<open>2^1000\<close>; and the similarity
  is 0 when either array holds zeros only.
\<close>

theorem cosineSimilarity_on_arrays:
  assumes "same_space a b"
  shows "(well_scaled a \<longrightarrow> near_one (cosineSimilarity (Arr a) (Arr a))) \<and>
         (all_zero a \<or> all_zero b \<longrightarrow> cosineSimilarity (Arr a) (Arr b) = Num 0)"
proof -
  have "near_one (cosineSimilarity (Arr a) (Arr a))" if ws: "well_scaled a"
  proof -
    obtain s where s: "sum_of_squares a = Num s" "scale_min \<le> s" "s \<le> scale_max"
      using ws by (auto simp: well_scaled_def split: jsnum.splits)
    have "0 < scale_min" by (simp add: scale_min_def)
    then have "s \<noteq> 0" using s(2) by linarith
    then have "cosineSimilarity (Arr a) (Arr a)
               = ddiv (Num s) (dmul (dsqrt (Num s)) (dsqrt (Num s)))"
      by (simp add: cosineSimilarity_def cosine_sums_self s(1) strict_eq_def)
    then show ?thesis
      using quotient_near_one [OF s(2,3) [unfolded scale_min_def scale_max_def]] by simp
  qed
  moreover have "length a = length b" using assms by (simp add: same_space_def)
  ultimately show ?thesis using cosineSimilarity_zero by blast
qed

theorem cosineSimilarity_on_arrays_witness:
  "same_space [Num 3, Num 4] [Num 0, Num 0] \<and> well_scaled [Num 3, Num 4] \<and>
   all_zero [Num 0, Num 0] \<and>
   near_one (cosineSimilarity (Arr [Num 3, Num 4]) (Arr [Num 3, Num 4])) \<and>
   cosineSimilarity (Arr [Num 3, Num 4]) (Arr [Num 0, Num 0]) = Num 0"
proof -
  have h: "same_space [Num 3, Num 4] [Num 0, Num 0]"
    by (simp add: same_space_def finite_vec_def isFinite_def)
  have z: "all_zero [Num 0, Num 0]" by (simp add: all_zero_def)
  show ?thesis
    using cosineSimilarity_on_arrays [OF h] h z well_scaled_3_4 by blast
qed

text \<open>
  Claim C2 as stated fails: the similarity of \<open>[1, 1]\<close> with itself is the double
  below 1, \<open>1 - 2^-52\<close>, which prints as 0.9999999999999998. The sums are 2, the
  square root of 2 rounds to \<open>6369051672525773 / 2^52\<close>, its square rounds to
  \<open>2 + 2^-51\<close>, and 2 divided by that rounds down.
\<close>

theorem cosineSimilarity_counterexample:
  "well_scaled [Num 1, Num 1] \<and>
   cosineSimilarity (Arr [Num 1, Num 1]) (Arr [Num 1, Num 1])
     = Num (4503599627370495 / 4503599627370496)"
proof -
  have "well_scaled [Num 1, Num 1]"
    using scale_of_small [of 2] by (simp add: well_scaled_def sum_of_squares_ones)
  then show ?thesis using cosineSimilarity_ones by simp
qed

lemma cosineSimilarity_object:
  assumes "no_length_term a"
  shows "cosineSimilarity (Obj a) vecB = Num 0"
  using assms
  by (simp add: cosineSimilarity_def cosine_sums_def loop_rounds_def vec_length_def
        no_length_term_def strict_eq_def)

text \<open>
  Claim C10, as amended. For document vectors none of which has a term named
  \<open>length\<close>, the cosine similarity of every pair, a vector with itself included, is 0,
  and every entry of the similarity matrix, the diagonal included, is 0.
\<close>

theorem similarity_of_term_objects:
  assumes "list_all no_length_term docVectors"
  shows "(\<forall>a\<in>set docVectors. \<forall>b\<in>set docVectors. cosineSimilarity (Obj a) (Obj b) = Num 0) \<and>
         similarityMatrix docVectors
           = replicate (length docVectors) (replicate (length docVectors) (Num 0))"
proof -
  have z: "\<And>a b. a \<in> set docVectors \<Longrightarrow> cosineSimilarity (Obj a) b = Num 0"
    using assms by (intro cosineSimilarity_object) (simp add: list_all_iff)
  have "similarityMatrix docVectors
        = map (\<lambda>i. map (\<lambda>j. Num 0) [0..<length docVectors]) [0..<length docVectors]"
    unfolding similarityMatrix_def
    by (intro map_cong refl) (simp add: z isNaN_def isFinite_def)
  also have "\<dots> = replicate (length docVectors) (replicate (length docVectors) (Num 0))"
    by (simp add: map_replicate_const)
  finally show ?thesis using z by simp
qed

lemma docs_with_length:
  "buildDocVectors mock_natural (processTexts mock_natural [''Length matters'', ''cats purr''])
   = [[(''length'', 1 / 2), (''matter'', 1 / 2)], [(''cat'', 1 / 2), (''purr'', 1 / 2)]]"
  by code_simp

lemma upt_0_1: "[0..<nat \<lceil>1 / 2 :: real\<rceil>] = [0]"
proof -
  have "\<lceil>1 / 2 :: real\<rceil> = 1" by (rule ceiling_unique) simp_all
  then show ?thesis by simp
qed

lemma s2: "cosine_sums (Obj [(''length'', 1 / 2), (''matter'', 1 / 2)]) (Obj [(''length'', 1 / 2), (''matter'', 1 / 2)]) = (NaN, NaN, NaN)"
  by (simp add: cosine_sums_def loop_rounds_def vec_length_def upt_0_1 vec_at_def
        string_of_nat.simps dadd_def dmul_def)

lemma s2b: "cosine_sums (Obj [(''length'', 1 / 2), (''matter'', 1 / 2)]) (Obj [(''cat'', 1 / 2), (''purr'', 1 / 2)]) = (NaN, NaN, NaN)"
  by (simp add: cosine_sums_def loop_rounds_def vec_length_def upt_0_1 vec_at_def
        string_of_nat.simps dadd_def dmul_def)

lemma s2c: "cosine_sums (Obj [(''cat'', 1 / 2), (''purr'', 1 / 2)]) b = (Num 0, Num 0, Num 0)"
  by (simp add: cosine_sums_def loop_rounds_def vec_length_def)

theorem similarity_of_term_objects_witness:
  "list_all no_length_term [[(''cat'', 1 / 2), (''purr'', 1 / 2)], [(''dog'', 1 / 2), (''bark'', 1 / 2)]] \<and>
   similarityMatrix [[(''cat'', 1 / 2), (''purr'', 1 / 2)], [(''dog'', 1 / 2), (''bark'', 1 / 2)]]
     = [[Num 0, Num 0], [Num 0, Num 0]]"
  using similarity_of_term_objects
          [of "[[(''cat'', 1 / 2), (''purr'', 1 / 2)], [(''dog'', 1 / 2), (''bark'', 1 / 2)]]"]
  by (simp add: no_length_term_def numeral_2_eq_2)

lemma with_length_matrix:
  "similarityMatrix [[(''length'', 1 / 2), (''matter'', 1 / 2)], [(''cat'', 1 / 2), (''purr'', 1 / 2)]]
     = [[Num 1, Num 0], [Num 0, Num 0]]"
proof -
  have len: "length [[(''length'', 1 / 2 :: real), (''matter'', 1 / 2)],
                     [(''cat'', 1 / 2), (''purr'', 1 / 2)]] = 2" by simp
  show ?thesis
    unfolding similarityMatrix_def len upt_0_2
    by (simp add: cosineSimilarity_def s2 s2b s2c strict_eq_def isNaN_def isFinite_def)
qed

text \<open>
  Claim C10 as stated fails. The documents \<open>Length matters\<close> and \<open>cats purr\<close> give,
  with the fallback library, a first vector with the term \<open>length\<close> of weight 1/2: the
  loop runs once, reads the \<open>undefined\<close> property \<open>0\<close>, the similarity is \<open>NaN\<close>, and
  the matrix gets 1 on that diagonal entry.
\<close>

theorem similarity_of_term_objects_counterexample:
  "buildDocVectors mock_natural (processTexts mock_natural [''Length matters'', ''cats purr''])
     = [[(''length'', 1 / 2), (''matter'', 1 / 2)], [(''cat'', 1 / 2), (''purr'', 1 / 2)]] \<and>
   cosineSimilarity (Obj [(''length'', 1 / 2), (''matter'', 1 / 2)])
                    (Obj [(''length'', 1 / 2), (''matter'', 1 / 2)]) = NaN \<and>
   similarityMatrix [[(''length'', 1 / 2), (''matter'', 1 / 2)], [(''cat'', 1 / 2), (''purr'', 1 / 2)]]
     = [[Num 1, Num 0], [Num 0, Num 0]]"
  by (simp add: docs_with_length with_length_matrix cosineSimilarity_def s2 strict_eq_def)

section \<open>Facts about preprocessText\<close>

lemma lower_alnum_not_space: "is_lower_alnum_char c \<Longrightarrow> \<not> is_space c"
  by (auto simp: is_lower_alnum_char_def is_space_def Let_def)

lemma lower_alnum_toLowerCase: "is_lower_alnum_char c \<Longrightarrow> toLowerCase_char c = c"
  by (auto simp: is_lower_alnum_char_def toLowerCase_char_def Let_def)

lemma lower_alnum_is_alnum: "is_lower_alnum_char c \<Longrightarrow> is_alnum_char c"
  by (auto simp: is_lower_alnum_char_def is_alnum_char_def Let_def)

lemma blank_facts: "is_space CHR '' ''" "toLowerCase_char CHR '' '' = CHR '' ''"
  by (simp_all add: is_space_def toLowerCase_char_def)

lemma toLowerCase_join: "list_all plain ts \<Longrightarrow> toLowerCase (join_spaces ts) = join_spaces ts"
proof (induction ts rule: join_spaces.induct)
  case 1
  then show ?case by (simp add: toLowerCase_def)
next
  case (2 t)
  then show ?case
    by (simp add: toLowerCase_def plain_def list_all_iff lower_alnum_toLowerCase map_idI)
next
  case (3 t v va)
  then have "map toLowerCase_char t = t"
    by (simp add: plain_def list_all_iff lower_alnum_toLowerCase map_idI)
  then show ?case using 3 by (simp add: toLowerCase_def blank_facts)
qed

lemma replace_spaces_append:
  "\<forall>c\<in>set t. \<not> is_space c \<Longrightarrow> replace_spaces (t @ r) = t @ replace_spaces r"
  by (induction t) simp_all

lemma join_spaces_hd: "ts \<noteq> [] \<Longrightarrow> hd ts \<noteq> [] \<Longrightarrow> hd (join_spaces ts) = hd (hd ts)"
  by (induction ts rule: join_spaces.induct) simp_all

lemma join_spaces_nonempty: "ts \<noteq> [] \<Longrightarrow> hd ts \<noteq> [] \<Longrightarrow> join_spaces ts \<noteq> []"
  by (induction ts rule: join_spaces.induct) simp_all

lemma join_spaces_last:
  "ts \<noteq> [] \<Longrightarrow> \<forall>t\<in>set ts. t \<noteq> [] \<Longrightarrow> last (join_spaces ts) = last (last ts)"
proof (induction ts rule: join_spaces.induct)
  case (3 t v va)
  then have "join_spaces (v # va) \<noteq> []" by (intro join_spaces_nonempty) auto
  then show ?case using 3 by simp
qed simp_all

lemma dropWhile_id: "s = [] \<or> \<not> P (hd s) \<Longrightarrow> dropWhile P s = s"
  by (cases s) auto

lemma plain_no_space: "plain t \<Longrightarrow> \<forall>c\<in>set t. \<not> is_space c"
  by (simp add: plain_def list_all_iff lower_alnum_not_space)

lemma replace_spaces_join: "list_all plain ts \<Longrightarrow> replace_spaces (join_spaces ts) = join_spaces ts"
proof (induction ts rule: join_spaces.induct)
  case 1
  then show ?case by simp
next
  case (2 t)
  then show ?case using replace_spaces_append [of t "[]"] plain_no_space [of t] by simp
next
  case (3 t v va)
  let ?r = "join_spaces (v # va)"
  have v: "plain v" using 3 by simp
  then have "\<not> is_space (hd ?r)"
    using join_spaces_hd [of "v # va"] plain_no_space [of v] by (simp add: plain_def)
  then have d: "dropWhile is_space ?r = ?r" by (intro dropWhile_id) simp
  have "replace_spaces (t @ CHR '' '' # ?r) = t @ replace_spaces (CHR '' '' # ?r)"
    using 3 plain_no_space [of t] by (intro replace_spaces_append) simp
  then show ?case using 3 d by (simp add: blank_facts)
qed

lemma trim_join:
  assumes "list_all plain ts"
  shows "trim (join_spaces ts) = join_spaces ts"
proof (cases "ts = []")
  case True
  then show ?thesis by (simp add: trim_def)
next
  case False
  let ?y = "join_spaces ts"
  have h: "plain (hd ts)" and l: "plain (last ts)"
    using assms False by (auto simp: list_all_iff)
  have ne: "?y \<noteq> []" using False h by (intro join_spaces_nonempty) (auto simp: plain_def)
  have "hd ?y = hd (hd ts)" using False h by (intro join_spaces_hd) (auto simp: plain_def)
  then have "\<not> is_space (hd ?y)" using plain_no_space [OF h] h by (simp add: plain_def)
  then have d1: "dropWhile is_space ?y = ?y" by (intro dropWhile_id) simp
  have "last ?y = last (last ts)"
    using False assms by (intro join_spaces_last) (auto simp: plain_def list_all_iff)
  then have "\<not> is_space (last ?y)" using plain_no_space [OF l] l by (simp add: plain_def)
  then have "\<not> is_space (hd (rev ?y))" using ne by (simp add: hd_rev)
  then have d2: "dropWhile is_space (rev ?y) = rev ?y" by (intro dropWhile_id) simp
  show ?thesis by (simp add: trim_def d1 d2)
qed

lemma stable_plain: "stable_token lib t \<Longrightarrow> plain t"
  by (auto simp: stable_token_def plain_def)

text \<open>
  Claim C6, as amended. A text whose preprocessed tokens are stable is processed to a
  fixed point: preprocessing its result again changes nothing.
\<close>

theorem preprocessText_fixed_point:
  assumes "stable_tokens lib (filteredTokens lib x)"
  shows "preprocessText lib (preprocessText lib x) = preprocessText lib x"
proof (cases "x = [] \<or> filteredTokens lib x = []")
  case True
  then show ?thesis by (auto simp: preprocessText_def)
next
  case False
  let ?ts = "filteredTokens lib x"
  let ?y = "join_spaces ?ts"
  have st: "list_all (stable_token lib) ?ts" and tok: "tokenize lib ?y = ?ts"
    using assms by (auto simp: stable_tokens_def)
  have pl: "list_all plain ?ts" using st by (auto simp: list_all_iff stable_plain)
  have "plain (hd ?ts)" using pl False by (auto simp: list_all_iff)
  then have ne: "?y \<noteq> []" using False by (intro join_spaces_nonempty) (auto simp: plain_def)
  have proc: "trim (replace_spaces (toLowerCase ?y)) = ?y"
    by (simp add: toLowerCase_join [OF pl] replace_spaces_join [OF pl] trim_join [OF pl])
  have keep: "filter (\<lambda>token. length token > 2 \<and> token \<notin> set (stopwords lib) \<and> is_alnum token) ?ts = ?ts"
    using st
    by (intro filter_True)
       (auto simp: list_all_iff stable_token_def is_alnum_def lower_alnum_is_alnum)
  have "map (stem lib) ?ts = ?ts"
    using st by (intro map_idI) (auto simp: list_all_iff stable_token_def)
  then have "filteredTokens lib ?y = ?ts"
    by (simp add: filteredTokens_def [of lib ?y] proc tok keep Let_def)
  then show ?thesis using False ne by (simp add: preprocessText_def)
qed

theorem preprocessText_fixed_point_witness:
  "stable_tokens mock_natural (filteredTokens mock_natural ''The cat sat'') \<and>
   preprocessText mock_natural (preprocessText mock_natural ''The cat sat'')
     = preprocessText mock_natural ''The cat sat''"
proof -
  have h: "stable_tokens mock_natural (filteredTokens mock_natural ''The cat sat'')"
    by code_simp
  from preprocessText_fixed_point [OF h] h show ?thesis by simp
qed

text \<open>
  Claim C6 as stated fails. With the fallback stemmer the text \<open>used\<close> is processed
  to \<open>us\<close>, and \<open>us\<close>, being no longer than two characters, to the empty string.
\<close>

theorem preprocessText_not_idempotent:
  "preprocessText mock_natural ''used'' = ''us'' \<and>
   preprocessText mock_natural ''us'' = [] \<and>
   preprocessText mock_natural (preprocessText mock_natural ''used'')
     \<noteq> preprocessText mock_natural ''used''"
  by code_simp

section \<open>Facts about clusterTexts\<close>

lemma mock_size_range: "5 \<le> mock_size rnd i \<and> mock_size rnd i \<le> 14"
proof -
  have r: "0 \<le> draw rnd i" "draw rnd i < 1" using draw_range by auto
  have "0 \<le> \<lfloor>draw rnd i * 10\<rfloor>" using r by simp
  moreover have "\<lfloor>draw rnd i * 10\<rfloor> < 10" using r by (simp add: floor_less_iff)
  ultimately have "nat \<lfloor>draw rnd i * 10\<rfloor> \<le> 9" by linarith
  then show ?thesis by (simp add: mock_size_def)
qed

lemma mock_cluster_points:
  "\<exists>pos' pid' new. mock_cluster rnd i (pos, pid, pts) = (pos', pid', pts @ new) \<and>
     length new = mock_size rnd i \<and> (\<forall>p\<in>set new. cluster p = int i)"
  by (simp add: mock_cluster_def Let_def)

lemma mock_fold_points:
  "\<exists>pos' pid' new. fold (mock_cluster rnd) is (pos, pid, pts) = (pos', pid', pts @ new) \<and>
     length new = (\<Sum>i\<leftarrow>is. mock_size rnd i) \<and>
     (\<forall>c. length (filter (\<lambda>p. cluster p = int c) new)
          = (\<Sum>i\<leftarrow>is. if i = c then mock_size rnd i else 0))"
proof (induction "is" arbitrary: pos pid pts)
  case Nil
  then show ?case by simp
next
  case (Cons i "is")
  obtain pos1 pid1 new1 where 1: "mock_cluster rnd i (pos, pid, pts) = (pos1, pid1, pts @ new1)"
    "length new1 = mock_size rnd i" "\<forall>p\<in>set new1. cluster p = int i"
    using mock_cluster_points [of rnd i pos pid pts] by blast
  obtain pos2 pid2 new2 where 2:
    "fold (mock_cluster rnd) is (pos1, pid1, pts @ new1) = (pos2, pid2, (pts @ new1) @ new2)"
    "length new2 = (\<Sum>i\<leftarrow>is. mock_size rnd i)"
    "\<forall>c. length (filter (\<lambda>p. cluster p = int c) new2)
          = (\<Sum>i\<leftarrow>is. if i = c then mock_size rnd i else 0)"
    using Cons.IH [of pos1 pid1 "pts @ new1"] by blast
  have f: "\<And>c. length (filter (\<lambda>p. cluster p = int c) new1) = (if i = c then mock_size rnd i else 0)"
  proof -
    fix c
    show "length (filter (\<lambda>p. cluster p = int c) new1) = (if i = c then mock_size rnd i else 0)"
    proof (cases "i = c")
      case True
      then have "filter (\<lambda>p. cluster p = int c) new1 = new1" using 1(3) by (intro filter_True) auto
      then show ?thesis using True 1(2) by simp
    next
      case False
      then have "filter (\<lambda>p. cluster p = int c) new1 = []" using 1(3) by (intro filter_False) auto
      then show ?thesis using False by simp
    qed
  qed
  show ?case
    apply (rule exI [of _ pos2], rule exI [of _ pid2], rule exI [of _ "new1 @ new2"])
    using 1 2 f by simp
qed

lemma upt_0_5: "[0..<5] = [0, 1, 2, 3, 4]"
  by code_simp

lemma mock_points_facts:
  "length (mock_points rnd) = (\<Sum>i\<leftarrow>[0..<5]. mock_size rnd i) \<and>
   (\<forall>c. length (filter (\<lambda>p. cluster p = int c) (mock_points rnd))
        = (\<Sum>i\<leftarrow>[0..<5]. if i = c then mock_size rnd i else 0))"
  using mock_fold_points [of rnd "[0..<5]" 5 0 "[]"] by (auto simp: mock_points_def)

lemma mock_points_length: "25 \<le> length (mock_points rnd) \<and> length (mock_points rnd) \<le> 70"
proof -
  have "length (mock_points rnd)
        = mock_size rnd 0 + mock_size rnd 1 + mock_size rnd 2 + mock_size rnd 3 + mock_size rnd 4"
    using mock_points_facts [of rnd] by (simp add: upt_0_5)
  then show ?thesis
    using mock_size_range [of rnd 0] mock_size_range [of rnd 1] mock_size_range [of rnd 2]
      mock_size_range [of rnd 3] mock_size_range [of rnd 4] by linarith
qed

lemma mock_cluster_size:
  "c < 5 \<Longrightarrow> length (filter (\<lambda>p. cluster p = int c) (mock_points rnd)) = mock_size rnd c"
proof -
  assume c: "c < 5"
  have "length (filter (\<lambda>p. cluster p = int c) (mock_points rnd))
        = (\<Sum>i\<leftarrow>[0..<5]. if i = c then mock_size rnd i else 0)"
    using mock_points_facts [of rnd] by blast
  also have "\<dots> = mock_size rnd c"
  proof -
    from c consider "c = 0" | "c = 1" | "c = 2" | "c = 3" | "c = 4" by linarith
    then show ?thesis by cases (simp_all add: upt_0_5)
  qed
  finally show ?thesis .
qed

lemma mock_data_shape:
  "length (clusters (generateMockClusteringData rnd)) = 5 \<and>
   clusterCount (generateMockClusteringData rnd) = 5 \<and>
   25 \<le> length (points (generateMockClusteringData rnd)) \<and>
   length (points (generateMockClusteringData rnd)) \<le> 70"
  using mock_points_length [of rnd] by (simp add: generateMockClusteringData_def Let_def)

lemma clusterTexts_degenerate:
  "degenerate_input lib data \<Longrightarrow> clusterTexts lib rnd data = generateMockClusteringData rnd"
  by (auto simp: degenerate_input_def clusterTexts_def Let_def split: option.splits sum.splits)

text \<open>
  Claim C1, as amended. On an input with fewer than two usable documents, or with no
  term after preprocessing, clusterTexts raises nothing and returns the mock data:
  five clusters and between 25 and 70 points.
\<close>

theorem degenerate_input_gives_mock_data:
  assumes "degenerate_input lib data"
  shows "clusterTexts lib rnd data = generateMockClusteringData rnd \<and>
         length (clusters (clusterTexts lib rnd data)) = 5 \<and>
         clusterCount (clusterTexts lib rnd data) = 5 \<and>
         25 \<le> length (points (clusterTexts lib rnd data)) \<and>
         length (points (clusterTexts lib rnd data)) \<le> 70"
  using clusterTexts_degenerate [OF assms, of rnd] mock_data_shape [of rnd] by simp

lemma one_document_degenerate:
  "degenerate_input mock_natural (Some [Item (Str ''the server is slow'') Missing])"
  by code_simp

theorem degenerate_input_gives_mock_data_witness:
  "degenerate_input mock_natural (Some [Item (Str ''the server is slow'') Missing]) \<and>
   length (clusters (clusterTexts mock_natural (rnd_const 0)
                       (Some [Item (Str ''the server is slow'') Missing]))) = 5 \<and>
   25 \<le> length (points (clusterTexts mock_natural (rnd_const 0)
                           (Some [Item (Str ''the server is slow'') Missing])))"
  using degenerate_input_gives_mock_data [OF one_document_degenerate, of "rnd_const 0"]
        one_document_degenerate
  by blast

text \<open>
  Claim C1 as stated fails: for a single document, and for the empty list, the result
  has five clusters and at least 25 points; it is not empty.
\<close>

theorem degenerate_input_not_empty:
  "length (clusters (clusterTexts mock_natural (rnd_const 0)
                       (Some [Item (Str ''the server is slow'') Missing]))) = 5 \<and>
   25 \<le> length (points (clusterTexts mock_natural (rnd_const 0)
                           (Some [Item (Str ''the server is slow'') Missing]))) \<and>
   length (clusters (clusterTexts mock_natural (rnd_const 0) (Some []))) = 5 \<and>
   25 \<le> length (points (clusterTexts mock_natural (rnd_const 0) (Some [])))"
proof -
  have "degenerate_input mock_natural (Some [])" by (simp add: degenerate_input_def)
  then show ?thesis
    using clusterTexts_degenerate [of mock_natural _ "rnd_const 0"] one_document_degenerate
      mock_data_shape [of "rnd_const 0"] by simp
qed

lemma mock_summaries_complete: "summaries_complete (generateMockClusteringData rnd)"
proof -
  have "\<And>i. i < 5 \<Longrightarrow> length (filter (\<lambda>p. cluster p = int i) (mock_points rnd)) \<noteq> 0"
    using mock_cluster_size [of _ rnd] mock_size_range [of rnd] by (metis not_numeral_le_zero)
  then show ?thesis
    by (simp add: summaries_complete_def generateMockClusteringData_def Let_def)
qed

lemma clusterSummary_facts:
  "cl_id (clusterSummary lib processedTexts pts i) = i \<and>
   cl_size (clusterSummary lib processedTexts pts i)
     = length (filter (\<lambda>p. cluster p = int i) pts) \<and>
   (cl_size (clusterSummary lib processedTexts pts i) = 0 \<longrightarrow>
      clusterSummary lib processedTexts pts i = placeholder i)"
  by (simp add: clusterSummary_def Let_def placeholder_def)

lemma pipeline_summaries_complete:
  "summaries_complete (clusterPipeline lib rnd texts processedTexts docVectors)"
  by (simp add: summaries_complete_def clusterPipeline_def Let_def clusterSummaries_def
        clusterSummary_facts)

lemma clusterTexts_cases:
  "clusterTexts lib rnd data = generateMockClusteringData rnd \<or>
   (\<exists>texts processedTexts docVectors.
      clusterTexts lib rnd data = clusterPipeline lib rnd texts processedTexts docVectors)"
  by (auto simp: clusterTexts_def Let_def split: option.splits sum.splits)

lemma clusterTexts_summaries_complete: "summaries_complete (clusterTexts lib rnd data)"
  using clusterTexts_cases [of lib rnd data] mock_summaries_complete pipeline_summaries_complete
  by (metis (no_types))

lemma vectorClusterSummary_None:
  "vectorClusterSummary pts c = None \<longleftrightarrow> \<not> (\<exists>p\<in>set pts. pp_cluster p = int c)"
  by (auto simp: vectorClusterSummary_def Let_def filter_empty_conv)

lemma vectorClusterSummary_Some:
  "vectorClusterSummary pts c = Some s \<Longrightarrow>
   vc_id s = c \<and> vc_size s = length (filter (\<lambda>p. pp_cluster p = int c) pts) \<and> 0 < vc_size s \<and>
   filter (\<lambda>p. pp_cluster p = int c) pts \<noteq> []"
  by (auto simp: vectorClusterSummary_def Let_def split: if_splits)

lemma map_filter_ids:
  "map vc_id (List.map_filter (vectorClusterSummary pts) cs)
   = filter (\<lambda>c. \<exists>p\<in>set pts. pp_cluster p = int c) cs"
proof (induction cs)
  case Nil
  then show ?case by (simp add: List.map_filter_simps)
next
  case (Cons c cs)
  show ?case
  proof (cases "vectorClusterSummary pts c")
    case None
    then show ?thesis using Cons vectorClusterSummary_None [of pts c]
      by (simp add: List.map_filter_simps)
  next
    case (Some s)
    have "filter (\<lambda>p. pp_cluster p = int c) pts \<noteq> []"
      using vectorClusterSummary_Some [OF Some] by blast
    then obtain p where "p \<in> set (filter (\<lambda>p. pp_cluster p = int c) pts)"
      by (cases "filter (\<lambda>p. pp_cluster p = int c) pts") auto
    then have "\<exists>p\<in>set pts. pp_cluster p = int c" by auto
    moreover have "vc_id s = c" using vectorClusterSummary_Some [OF Some] by blast
    ultimately show ?thesis using Cons Some by (simp add: List.map_filter_simps)
  qed
qed

lemma vectorClusterSummaries_facts:
  "map vc_id (vectorClusterSummaries pts k)
     = filter (\<lambda>c. \<exists>p\<in>set pts. pp_cluster p = int c) [0..<k] \<and>
   (\<forall>s\<in>set (vectorClusterSummaries pts k).
      vc_size s = length (filter (\<lambda>p. pp_cluster p = int (vc_id s)) pts) \<and> 0 < vc_size s)"
proof -
  have "\<And>s. s \<in> set (vectorClusterSummaries pts k) \<Longrightarrow>
          vc_size s = length (filter (\<lambda>p. pp_cluster p = int (vc_id s)) pts) \<and> 0 < vc_size s"
  proof -
    fix s assume "s \<in> set (vectorClusterSummaries pts k)"
    then obtain c where "vectorClusterSummary pts c = Some s"
      by (auto simp: vectorClusterSummaries_def List.map_filter_def)
    from vectorClusterSummary_Some [OF this]
    show "vc_size s = length (filter (\<lambda>p. pp_cluster p = int (vc_id s)) pts) \<and> 0 < vc_size s"
      by blast
  qed
  moreover have "map vc_id (vectorClusterSummaries pts k)
     = filter (\<lambda>c. \<exists>p\<in>set pts. pp_cluster p = int c) [0..<k]"
    unfolding vectorClusterSummaries_def by (rule map_filter_ids)
  ultimately show ?thesis by blast
qed

lemma processVectorData_outcome:
  "outcome_of_nonempty (if requestedCount = 0 then 5 else requestedCount)
     (processVectorData rnd data requestedCount)"
proof -
  let ?k = "if requestedCount = 0 then 5 else requestedCount"
  have "processVectorData rnd data requestedCount = Inr r \<Longrightarrow> summaries_of_nonempty ?k r" for r
  proof -
    assume r: "processVectorData rnd data requestedCount = Inr r"
    then obtain pts where d: "data = Some pts" "length pts \<noteq> 0"
      by (auto simp: processVectorData_def split: option.splits if_splits)
    from r d obtain up where
      "r = \<lparr>vr_points = up, vr_clusters = vectorClusterSummaries up ?k,
             vr_clusterCount = length (vectorClusterSummaries up ?k)\<rparr>"
      by (auto simp: processVectorData_def Let_def split: sum.splits)
    then have f: "vr_points r = up" "vr_clusters r = vectorClusterSummaries up ?k"
      "vr_clusterCount r = length (vectorClusterSummaries up ?k)" by simp_all
    show "summaries_of_nonempty ?k r"
      unfolding summaries_of_nonempty_def f using vectorClusterSummaries_facts [of up ?k] by blast
  qed
  then show ?thesis by (auto simp: outcome_of_nonempty_def split: sum.splits)
qed

lemma at_index_two_equal:
  assumes "0 \<le> i" "i < 2"
  shows "at_index [[Num 0], [Num 0]] i = Some [Num 0]"
proof -
  from assms consider "i = 0" | "i = 1" by linarith
  then show ?thesis by cases (simp_all add: at_index_def)
qed

lemma seeds_two_equal:
  "seed_centroids euclideanDistance (at_index [[Num 0], [Num 0]]) rnd [[Num 0], [Num 0]] 2
   = [Some [Num 0], Some [Num 0]]"
proof -
  let ?vs = "[[Num 0], [Num 0]] :: vector list"
  have l: "0 < length ?vs" by simp
  have 1: "at_index ?vs \<lfloor>draw rnd 0 * real (length ?vs)\<rfloor> = Some [Num 0]"
    using random_index_in_range [OF l, of rnd 0] by (intro at_index_two_equal) simp_all
  have 2: "at_index ?vs (next_index euclideanDistance u ?vs cs) = Some [Num 0]" for u cs
    using next_index_range [OF l, of euclideanDistance u cs] by (intro at_index_two_equal) simp_all
  have u: "[1..<2] = [1]" by code_simp
  show ?thesis unfolding seed_centroids_def u 1 by (simp add: 2)
qed

lemma dist_zero: "euclideanDistance [Num 0] (Some [Num 0]) = Num 0"
  by (simp add: euclideanDistance_def elt_def jsub_def)

lemma run_two_equal:
  "kMeansWithVectors_run rnd [[Num 0], [Num 0]] 2 50
   = \<lparr>st_centroids = [Some [Num 0], Some [Num 0]], st_assignments = [0, 0],
      st_iterations = 1, st_changed = False\<rparr>"
proof -
  let ?vs = "[[Num 0], [Num 0]] :: vector list"
  let ?cs = "[Some [Num 0], Some [Num 0]] :: vector option list"
  let ?s0 = "kmeans_initial_state ?cs 2"
  let ?s1 = "\<lparr>st_centroids = ?cs, st_assignments = [0, 0], st_iterations = 1, st_changed = False\<rparr>"
  have ap: "assign_points euclideanDistance ?vs ?cs [0, 0] = ([0, 0], False)"
    by (simp add: assign_points_def dist_zero Math_min_def jmin2_def indexOf_def strict_eq_def
          Let_def upt_0_2)
  have av: "average_vector ?vs = Some [Num 0]"
    by (simp add: elt_def)
  have a0: "assigned_to ?vs [0, 0] 0 = ?vs" and a1: "assigned_to ?vs [0, 0] (Suc 0) = []"
    by (simp_all add: assigned_to_def)
  have up: "update_centroids average_vector ?vs 2 [0, 0] ?cs = ?cs"
    unfolding update_centroids_def upt_0_2
    by (simp add: a0 a1 av Let_def del: average_vector.simps)
  have r2: "replicate 2 (0 :: int) = [0, 0]" by (simp add: numeral_2_eq_2)
  have it: "kmeans_iteration euclideanDistance average_vector ?vs 2 ?s0 = ?s1"
    by (simp add: kmeans_iteration_def kmeans_initial_state_def r2 ap up)
  have "kmeans_loop euclideanDistance average_vector ?vs 2 50 ?s0
        = kmeans_loop euclideanDistance average_vector ?vs 2 50
            (kmeans_iteration euclideanDistance average_vector ?vs 2 ?s0)"
    by (subst kmeans_loop.simps) (simp add: kmeans_initial_state_def)
  also have "\<dots> = kmeans_loop euclideanDistance average_vector ?vs 2 50 ?s1" by (simp only: it)
  also have "\<dots> = ?s1" by (subst kmeans_loop.simps) simp
  finally have loop: "kmeans_loop euclideanDistance average_vector ?vs 2 50 ?s0 = ?s1" .
  have len: "length ?vs = 2" by simp
  show ?thesis unfolding kMeansWithVectors_run_def seeds_two_equal len by (rule loop)
qed

lemma two_equal_documents:
  "summary_count (processVectorData rnd
      (Some [\<lparr>vp_text = ''first note'', vp_vector = [Num 0]\<rparr>,
             \<lparr>vp_text = ''second note'', vp_vector = [Num 0]\<rparr>]) 2) = Some 1"
proof -
  let ?pts = "[\<lparr>vp_text = ''first note'', vp_vector = [Num 0]\<rparr>,
               \<lparr>vp_text = ''second note'', vp_vector = [Num 0]\<rparr>]"
  have km: "kMeansWithVectors r [[Num 0], [Num 0]] 2 50
        = Inr \<lparr>centroids = [Some [Num 0], Some [Num 0]], assignments = [0, 0]\<rparr>" for r
    by (simp add: kMeansWithVectors_def run_two_equal result_of_def)
  have 0: "vectorClusterSummary (updatePoints ?pts coords [0, 0]) 0 \<noteq> None" for coords
  proof -
    have "\<exists>p\<in>set (updatePoints ?pts coords [0, 0]). pp_cluster p = int 0"
      by (simp add: updatePoints_def upt_0_2)
    then show ?thesis unfolding vectorClusterSummary_None by blast
  qed
  have 1: "vectorClusterSummary (updatePoints ?pts coords [0, 0]) 1 = None" for coords
  proof -
    have "\<forall>p\<in>set (updatePoints ?pts coords [0, 0]). pp_cluster p = 0"
      by (simp add: updatePoints_def upt_0_2)
    then show ?thesis unfolding vectorClusterSummary_None by auto
  qed
  have "length (vectorClusterSummaries (updatePoints ?pts coords [0, 0]) 2) = 1" for coords
    using 0 [of coords] 1 [of coords]
    by (auto simp: vectorClusterSummaries_def upt_0_2 List.map_filter_simps)
  then show ?thesis
    by (simp add: summary_count_def processVectorData_def km Let_def)
qed

text \<open>
  Claim C9, as amended. The summaries of clusterTexts are complete: one entry for each
  cluster id below the cluster count, and the placeholder (size 0, the keyword
  \<open>Empty cluster\<close>, an empty example) for a cluster without points. The summaries of
  processVectorData are those of the non-empty clusters only, and their number is the
  cluster count it reports.
\<close>

theorem summaries_per_cluster:
  "summaries_complete (clusterTexts lib rnd data) \<and>
   outcome_of_nonempty (if requestedCount = 0 then 5 else requestedCount)
     (processVectorData rnd' vdata requestedCount)"
  using clusterTexts_summaries_complete processVectorData_outcome by blast

theorem summaries_per_cluster_witness:
  "summaries_complete (clusterTexts mock_natural (rnd_const 0) (Some [])) \<and>
   outcome_of_nonempty 2 (processVectorData (rnd_const 0)
      (Some [\<lparr>vp_text = ''first note'', vp_vector = [Num 0]\<rparr>,
             \<lparr>vp_text = ''second note'', vp_vector = [Num 0]\<rparr>]) 2) \<and>
   summary_count (processVectorData (rnd_const 0)
      (Some [\<lparr>vp_text = ''first note'', vp_vector = [Num 0]\<rparr>,
             \<lparr>vp_text = ''second note'', vp_vector = [Num 0]\<rparr>]) 2) = Some 1"
  using summaries_per_cluster [of mock_natural "rnd_const 0" "Some []" 2 "rnd_const 0"
          "Some [\<lparr>vp_text = ''first note'', vp_vector = [Num 0]\<rparr>,
                 \<lparr>vp_text = ''second note'', vp_vector = [Num 0]\<rparr>]"]
        two_equal_documents [of "rnd_const 0"]
  by simp

text \<open>
  Claim C9 as stated fails on processVectorData: two points with the same vector and
  two clusters requested give one summary, since k-means leaves cluster 1 without points
  and the loop skips it.
\<close>

theorem summaries_skip_empty_cluster:
  "summary_count (processVectorData (rnd_const 0)
      (Some [\<lparr>vp_text = ''first note'', vp_vector = [Num 0]\<rparr>,
             \<lparr>vp_text = ''second note'', vp_vector = [Num 0]\<rparr>]) 2) = Some 1"
  by (rule two_equal_documents)

section \<open>Facts about the similarity-driven projector\<close>

lemma targetDist_distanceMatrix:
  assumes "i < length sims" "j < length (sims ! i)" "sims ! i ! j = Num s"
  shows "targetDist (distanceMatrix sims) i j = Num s"
  using assms by (simp add: targetDist_def distanceMatrix_def elt_def jsub_def)

lemma cats_and_dogs:
  "buildDocVectors mock_natural (processTexts mock_natural [''cats purr'', ''dogs bark''])
   = [[(''cat'', 1 / 2), (''purr'', 1 / 2)], [(''dog'', 1 / 2), (''bark'', 1 / 2)]]"
  by code_simp

lemma cats_and_dogs_matrix:
  "similarityMatrix [[(''cat'', 1 / 2), (''purr'', 1 / 2)], [(''dog'', 1 / 2), (''bark'', 1 / 2)]]
   = [[Num 0, Num 0], [Num 0, Num 0]]"
proof -
  have "list_all no_length_term
          [[(''cat'', 1 / 2), (''purr'', 1 / 2)], [(''dog'', 1 / 2 :: real), (''bark'', 1 / 2)]]"
    by (simp add: no_length_term_def)
  then have z: "cosineSimilarity (Obj a) b = Num 0"
    if "a \<in> set [[(''cat'', 1 / 2), (''purr'', 1 / 2)], [(''dog'', 1 / 2 :: real), (''bark'', 1 / 2)]]"
    for a b
    using that by (intro cosineSimilarity_object) (auto simp: list_all_iff)
  have len: "length [[(''cat'', 1 / 2 :: real), (''purr'', 1 / 2)],
                     [(''dog'', 1 / 2), (''bark'', 1 / 2)]] = 2" by simp
  show ?thesis
    unfolding similarityMatrix_def len upt_0_2
    by (simp add: z isNaN_def isFinite_def)
qed

text \<open>
  Claim C7. In clusterTexts the matrix handed to \<open>simpleMDS\<close> is already
  \<open>1 - similarity\<close>, and \<open>simpleMDS\<close> subtracts it from 1 once more: for the documents
  \<open>cats purr\<close> and \<open>dogs bark\<close>, of similarity 0, the target distance of the pair is 0,
  whereas on the similarity matrix itself, as performTextClustering passes it, it is 1.
\<close>

theorem target_distance_in_clusterTexts:
  "buildDocVectors mock_natural (processTexts mock_natural [''cats purr'', ''dogs bark''])
     = [[(''cat'', 1 / 2), (''purr'', 1 / 2)], [(''dog'', 1 / 2), (''bark'', 1 / 2)]] \<and>
   similarityMatrix [[(''cat'', 1 / 2), (''purr'', 1 / 2)], [(''dog'', 1 / 2), (''bark'', 1 / 2)]]
     = [[Num 0, Num 0], [Num 0, Num 0]] \<and>
   targetDist (distanceMatrix [[Num 0, Num 0], [Num 0, Num 0]]) 0 1 = Num 0 \<and>
   targetDist [[Num 0, Num 0], [Num 0, Num 0]] 0 1 = Num 1"
  by (simp add: cats_and_dogs cats_and_dogs_matrix targetDist_def distanceMatrix_def elt_def
        jsub_def)

section \<open>The layout of simpleMDS\<close>

subsection \<open>simpleMDS keeps the layout finite and its sum on each axis\<close>













subsection \<open>Claim C5\<close>







end
